(* ===== verification/Anyplug_Prelude.thy ===== *)
theory Anyplug_Prelude
  imports "HOL-Library.Word" "HOL-Library.Monad_Syntax"
begin

text \<open>
  What every component shares: the machine integers of the code, byte order, the
  sequential readers from which the decoders of the packed wire structs are built, the
  strings of Rust (one \<^typ>\<open>char\<close> per UTF-8 byte) with the parts of the standard
  library the code calls on them (UTF-8 validation, decimal and hexadecimal printing and
  parsing, splitting), outcomes of code that may panic, and the interface
  \<open>wire_struct\<close> that every fixed-size wire structure provides.
\<close>

unbundle bit_operations_syntax

named_theorems wire_simps \<open>decoding what was encoded, and encoded lengths\<close>

section \<open>Machine integers and bytes\<close>

type_synonym u8 = "8 word"
type_synonym u16 = "16 word"
type_synonym u32 = "32 word"
type_synonym i32 = "32 word"
type_synonym u64 = "64 word"
type_synonym bytes = "u8 list"

definition u16_to_be_bytes :: "u16 \<Rightarrow> bytes" where
  "u16_to_be_bytes w = [ucast (drop_bit 8 w), ucast w]"

definition u16_from_be_bytes :: "u8 \<Rightarrow> u8 \<Rightarrow> u16" where
  "u16_from_be_bytes a b = push_bit 8 (ucast a) OR ucast b"

definition u16_to_le_bytes :: "u16 \<Rightarrow> bytes" where
  "u16_to_le_bytes w = [ucast w, ucast (drop_bit 8 w)]"

definition u16_from_le_bytes :: "u8 \<Rightarrow> u8 \<Rightarrow> u16" where
  "u16_from_le_bytes a b = u16_from_be_bytes b a"

definition u32_to_be_bytes :: "u32 \<Rightarrow> bytes" where
  "u32_to_be_bytes w =
     [ucast (drop_bit 24 w), ucast (drop_bit 16 w), ucast (drop_bit 8 w), ucast w]"

definition u32_from_be_bytes :: "u8 \<Rightarrow> u8 \<Rightarrow> u8 \<Rightarrow> u8 \<Rightarrow> u32" where
  "u32_from_be_bytes a b c d =
     push_bit 24 (ucast a) OR push_bit 16 (ucast b) OR push_bit 8 (ucast c) OR ucast d"

definition u32_to_le_bytes :: "u32 \<Rightarrow> bytes" where
  "u32_to_le_bytes w = rev (u32_to_be_bytes w)"

lemma u16_be_split [simp]:
  "u16_from_be_bytes (ucast (drop_bit 8 w)) (ucast w) = w"
  by (rule bit_word_eqI)
    (auto simp: u16_from_be_bytes_def bit_or_iff bit_push_bit_iff bit_ucast_iff bit_drop_bit_eq)

lemma u16_be_join [simp]:
  "(ucast (drop_bit 8 (u16_from_be_bytes a b)) :: u8) = a"
  "(ucast (u16_from_be_bytes a b) :: u8) = b"
  by (rule bit_word_eqI; auto simp: u16_from_be_bytes_def bit_or_iff bit_push_bit_iff bit_ucast_iff
      bit_drop_bit_eq dest: bit_imp_le_length)+

lemma u32_be_split [simp]:
  "u32_from_be_bytes (ucast (drop_bit 24 w)) (ucast (drop_bit 16 w)) (ucast (drop_bit 8 w))
     (ucast w) = w"
proof (rule bit_word_eqI)
  fix n assume "n < LENGTH(32)"
  then consider "n < 8" | "8 \<le> n" "n < 16" | "16 \<le> n" "n < 24" | "24 \<le> n" "n < 32"
    by fastforce
  then show "bit (u32_from_be_bytes (ucast (drop_bit 24 w)) (ucast (drop_bit 16 w))
      (ucast (drop_bit 8 w)) (ucast w)) n = bit w n"
    by cases (auto simp: u32_from_be_bytes_def bit_or_iff bit_push_bit_iff bit_ucast_iff
        bit_drop_bit_eq)
qed

lemma u32_be_join [simp]:
  "(ucast (drop_bit 24 (u32_from_be_bytes a b c d)) :: u8) = a"
  "(ucast (drop_bit 16 (u32_from_be_bytes a b c d)) :: u8) = b"
  "(ucast (drop_bit 8 (u32_from_be_bytes a b c d)) :: u8) = c"
  "(ucast (u32_from_be_bytes a b c d) :: u8) = d"
  by (rule bit_word_eqI; auto simp: u32_from_be_bytes_def bit_or_iff bit_push_bit_iff bit_ucast_iff
      bit_drop_bit_eq dest: bit_imp_le_length)+

lemma length_word_bytes [simp, wire_simps]:
  "length (u16_to_be_bytes v) = 2" "length (u16_to_le_bytes v) = 2"
  "length (u32_to_be_bytes w) = 4" "length (u32_to_le_bytes w) = 4"
  by (simp_all add: u16_to_be_bytes_def u16_to_le_bytes_def u32_to_be_bytes_def u32_to_le_bytes_def)

section \<open>Sequential readers\<close>

text \<open>
  A packed struct is read field by field in the order of its declaration. Each reader
  takes what it needs from the front and returns the rest, or \<open>None\<close> when the input
  is too short.
\<close>

type_synonym 'a reader = "bytes \<Rightarrow> ('a \<times> bytes) option"

fun rd_u8 :: "u8 reader" where
  "rd_u8 (b # r) = Some (b, r)"
| "rd_u8 _ = None"

fun rd_be16 :: "u16 reader" where
  "rd_be16 (a # b # r) = Some (u16_from_be_bytes a b, r)"
| "rd_be16 _ = None"

fun rd_le16 :: "u16 reader" where
  "rd_le16 (a # b # r) = Some (u16_from_le_bytes a b, r)"
| "rd_le16 _ = None"

fun rd_be32 :: "u32 reader" where
  "rd_be32 (a # b # c # d # r) = Some (u32_from_be_bytes a b c d, r)"
| "rd_be32 _ = None"

definition rd_array :: "nat \<Rightarrow> bytes reader" where
  "rd_array n bs = (if length bs < n then None else Some (take n bs, drop n bs))"

lemma rd_written [simp, wire_simps]:
  "rd_be16 (u16_to_be_bytes v @ r) = Some (v, r)"
  "rd_le16 (u16_to_le_bytes v @ r) = Some (v, r)"
  "rd_be32 (u32_to_be_bytes w @ r) = Some (w, r)"
  by (simp_all add: u16_to_be_bytes_def u16_to_le_bytes_def u32_to_be_bytes_def
      u16_from_le_bytes_def)

lemma rd_array_written [simp, wire_simps]:
  "length a = n \<Longrightarrow> rd_array n (a @ r) = Some (a, r)"
  by (auto simp: rd_array_def)

lemma rd_u8_Some: "rd_u8 bs = Some (b, r) \<longleftrightarrow> bs = b # r"
  by (cases bs rule: rd_u8.cases) auto

lemma rd_be16_Some: "rd_be16 bs = Some (v, r) \<longleftrightarrow> bs = u16_to_be_bytes v @ r"
  by (cases bs rule: rd_be16.cases) (auto simp: u16_to_be_bytes_def)

lemma rd_le16_Some: "rd_le16 bs = Some (v, r) \<longleftrightarrow> bs = u16_to_le_bytes v @ r"
  by (cases bs rule: rd_le16.cases) (auto simp: u16_to_le_bytes_def u16_from_le_bytes_def)

lemma rd_be32_Some: "rd_be32 bs = Some (w, r) \<longleftrightarrow> bs = u32_to_be_bytes w @ r"
  by (cases bs rule: rd_be32.cases) (auto simp: u32_to_be_bytes_def)

lemma rd_array_Some: "rd_array n bs = Some (a, r) \<longleftrightarrow> bs = a @ r \<and> length a = n"
  by (auto simp: rd_array_def)

lemmas rd_Some = rd_u8_Some rd_be16_Some rd_le16_Some rd_be32_Some rd_array_Some

text \<open>A reader succeeds exactly when enough bytes are left.\<close>

lemma rd_enough:
  "1 \<le> length bs \<Longrightarrow> rd_u8 bs = Some (bs ! 0, drop 1 bs)"
  "2 \<le> length bs \<Longrightarrow> rd_be16 bs = Some (u16_from_be_bytes (bs ! 0) (bs ! 1), drop 2 bs)"
  "2 \<le> length bs \<Longrightarrow> rd_le16 bs = Some (u16_from_le_bytes (bs ! 0) (bs ! 1), drop 2 bs)"
  "4 \<le> length bs \<Longrightarrow>
     rd_be32 bs = Some (u32_from_be_bytes (bs ! 0) (bs ! 1) (bs ! 2) (bs ! 3), drop 4 bs)"
  "n \<le> length bs \<Longrightarrow> rd_array n bs = Some (take n bs, drop n bs)"
proof -
  show "1 \<le> length bs \<Longrightarrow> rd_u8 bs = Some (bs ! 0, drop 1 bs)"
    by (cases bs rule: rd_u8.cases) auto
  show "2 \<le> length bs \<Longrightarrow> rd_be16 bs = Some (u16_from_be_bytes (bs ! 0) (bs ! 1), drop 2 bs)"
    by (cases bs rule: rd_be16.cases) auto
  show "2 \<le> length bs \<Longrightarrow> rd_le16 bs = Some (u16_from_le_bytes (bs ! 0) (bs ! 1), drop 2 bs)"
    by (cases bs rule: rd_le16.cases) auto
  show "4 \<le> length bs \<Longrightarrow>
     rd_be32 bs = Some (u32_from_be_bytes (bs ! 0) (bs ! 1) (bs ! 2) (bs ! 3), drop 4 bs)"
    by (cases bs rule: rd_be32.cases) auto
  show "n \<le> length bs \<Longrightarrow> rd_array n bs = Some (take n bs, drop n bs)"
    by (simp add: rd_array_def)
qed

section \<open>The interface of a fixed-size wire structure\<close>

text \<open>
  \<open>enc\<close> is the byte image, \<open>dec\<close> reads one structure from the front and returns the
  rest, \<open>wf\<close> is what the Rust type guarantees (array lengths, tags), \<open>sz\<close> the size.
\<close>

locale wire_struct =
  fixes enc :: "'a \<Rightarrow> bytes"
    and dec :: "'a reader"
    and wf :: "'a \<Rightarrow> bool"
    and sz :: nat
  assumes enc_length: "wf x \<Longrightarrow> length (enc x) = sz"
    and dec_enc: "wf x \<Longrightarrow> dec (enc x @ r) = Some (x, r)"
    and dec_inv: "dec bs = Some (x, r) \<Longrightarrow> wf x \<and> bs = enc x @ r"
    and sz_pos: "0 < sz"
begin

lemma dec_iff: "dec bs = Some (x, r) \<longleftrightarrow> wf x \<and> bs = enc x @ r"
  using dec_enc dec_inv by blast

lemma dec_enc_exact: "wf x \<Longrightarrow> dec (enc x) = Some (x, [])"
  using dec_enc [of x "[]"] by simp

lemma enc_inj:
  assumes "wf x" "wf y" "enc x = enc y"
  shows "x = y"
  using dec_enc_exact assms by (metis option.inject prod.inject)

lemma dec_consumes:
  assumes "dec bs = Some (x, r)"
  shows "length bs = sz + length r"
proof -
  from assms have "wf x" "bs = enc x @ r" by (simp_all add: dec_inv)
  then show ?thesis by (simp add: enc_length)
qed

lemma dec_short:
  assumes "length bs < sz"
  shows "dec bs = None"
proof (cases "dec bs")
  case (Some p)
  then obtain x r where "dec bs = Some (x, r)" by (cases p) simp
  then show ?thesis using dec_consumes assms by fastforce
qed simp

text \<open>Two messages that start with an encoded structure agree on it (unique decoding).\<close>

lemma enc_prefix_unique:
  assumes "wf x" "wf y" "enc x @ r = enc y @ s"
  shows "x = y \<and> r = s"
  using dec_enc assms by (metis option.inject prod.inject)

end

text \<open>
  A packed struct without a tag: every long enough input decodes, so decoding fails on
  short input only (the contract of \<^verbatim>\<open>read_from_prefix\<close>).
\<close>

locale packed_struct = wire_struct +
  assumes dec_total: "sz \<le> length bs \<Longrightarrow> \<exists>x. dec bs = Some (x, drop sz bs)"
begin

lemma dec_None_iff: "dec bs = None \<longleftrightarrow> length bs < sz"
  using dec_short dec_total by (metis not_less option.distinct(1))

lemma split_front:
  assumes "sz \<le> length bs"
  obtains x where "wf x" "bs = enc x @ drop sz bs"
  using dec_total [OF assms] dec_inv by blast

end

section \<open>Panics\<close>

text \<open>The outcome of code that may panic (index out of range, arithmetic overflow).\<close>

datatype 'a outcome = Ret 'a | Panic

primrec obind :: "'a outcome \<Rightarrow> ('a \<Rightarrow> 'b outcome) \<Rightarrow> 'b outcome" where
  "obind (Ret a) f = f a"
| "obind Panic f = Panic"

lemma obind_Ret: "obind m f = Ret b \<longleftrightarrow> (\<exists>a. m = Ret a \<and> f a = Ret b)"
  by (cases m) auto

section \<open>Strings\<close>

text \<open>
  A Rust string is its UTF-8 bytes, one \<^typ>\<open>char\<close> per byte. \<open>as_bytes\<close> and
  \<open>str_of_bytes\<close> change between the two views without loss.
\<close>

definition as_bytes :: "string \<Rightarrow> bytes" where
  "as_bytes s = map of_char s"

definition str_of_bytes :: "bytes \<Rightarrow> string" where
  "str_of_bytes bs = map (\<lambda>b. char_of (unat b)) bs"

lemma unat_of_char [simp]: "unat (of_char c :: u8) = (of_char c :: nat)"
proof -
  have "unat (of_nat (of_char c) :: u8) = of_char c"
    by (simp add: unat_of_nat)
  then show ?thesis by (simp add: of_nat_of_char)
qed

lemma str_of_as_bytes [simp]: "str_of_bytes (as_bytes s) = s"
  by (simp add: str_of_bytes_def as_bytes_def comp_def)

lemma as_bytes_of_str [simp]: "as_bytes (str_of_bytes bs) = bs"
proof -
  have "(of_char (char_of (unat b)) :: u8) = b" for b :: u8
  proof -
    have "unat b < 256" using unsigned_less [of b, where ?'a = nat] by simp
    then have "of_nat (of_char (char_of (unat b))) = b" by simp
    then show ?thesis by (simp only: of_nat_of_char)
  qed
  then show ?thesis by (simp add: str_of_bytes_def as_bytes_def comp_def)
qed

lemma length_as_bytes [simp]: "length (as_bytes s) = length s"
  by (simp add: as_bytes_def)

lemma length_str_of_bytes [simp]: "length (str_of_bytes bs) = length bs"
  by (simp add: str_of_bytes_def)

lemma as_bytes_inj [simp]: "as_bytes s = as_bytes t \<longleftrightarrow> s = t"
  by (metis str_of_as_bytes)

subsection \<open>UTF-8\<close>

text \<open>
  One decoding step of the standard library's UTF-8 validation: whether the bytes start
  with a well-formed character, and how many bytes that character, or the ill-formed
  prefix that is reported as one error, has.
\<close>

definition byte_at :: "bytes \<Rightarrow> nat \<Rightarrow> u8" where
  "byte_at bs i = (if i < length bs then bs ! i else 0)"

definition is_cont :: "u8 \<Rightarrow> bool" where
  "is_cont b \<longleftrightarrow> b AND 0xC0 = 0x80"

definition utf8_next :: "bytes \<Rightarrow> bool \<times> nat" where
  "utf8_next bs =
     (let b0 = byte_at bs 0; b1 = byte_at bs 1; b2 = byte_at bs 2; b3 = byte_at bs 3 in
      if b0 < 0x80 then (True, 1)
      else if 0xC2 \<le> b0 \<and> b0 \<le> 0xDF then (if is_cont b1 then (True, 2) else (False, 1))
      else if 0xE0 \<le> b0 \<and> b0 \<le> 0xEF then
        (if (b0 = 0xE0 \<and> 0xA0 \<le> b1 \<and> b1 \<le> 0xBF)
            \<or> (0xE1 \<le> b0 \<and> b0 \<le> 0xEC \<and> 0x80 \<le> b1 \<and> b1 \<le> 0xBF)
            \<or> (b0 = 0xED \<and> 0x80 \<le> b1 \<and> b1 \<le> 0x9F)
            \<or> (0xEE \<le> b0 \<and> b0 \<le> 0xEF \<and> 0x80 \<le> b1 \<and> b1 \<le> 0xBF)
         then (if is_cont b2 then (True, 3) else (False, 2))
         else (False, 1))
      else if 0xF0 \<le> b0 \<and> b0 \<le> 0xF4 then
        (if (b0 = 0xF0 \<and> 0x90 \<le> b1 \<and> b1 \<le> 0xBF)
            \<or> (0xF1 \<le> b0 \<and> b0 \<le> 0xF3 \<and> 0x80 \<le> b1 \<and> b1 \<le> 0xBF)
            \<or> (b0 = 0xF4 \<and> 0x80 \<le> b1 \<and> b1 \<le> 0x8F)
         then (if is_cont b2 then (if is_cont b3 then (True, 4) else (False, 3)) else (False, 2))
         else (False, 1))
      else (False, 1))"

lemma utf8_next_pos: "utf8_next bs = (v, n) \<Longrightarrow> 0 < n"
  by (auto simp: utf8_next_def Let_def split: if_splits)

function utf8_valid :: "bytes \<Rightarrow> bool" where
  "utf8_valid bs =
     (if bs = [] then True
      else (let (v, n) = utf8_next bs in v \<and> utf8_valid (drop n bs)))"
  by pat_completeness auto
termination
  by (relation "measure length") (auto dest: utf8_next_pos [OF sym])

declare utf8_valid.simps [simp del]

function utf8_lossy :: "bytes \<Rightarrow> bytes" where
  "utf8_lossy bs =
     (if bs = [] then []
      else (let (v, n) = utf8_next bs in
        (if v then take n bs else [0xEF, 0xBF, 0xBD]) @ utf8_lossy (drop n bs)))"
  by pat_completeness auto
termination
  by (relation "measure length") (auto dest: utf8_next_pos [OF sym])

declare utf8_lossy.simps [simp del]

text \<open>\<open>core::str::from_utf8\<close> and \<open>String::from_utf8_lossy\<close>.\<close>

definition from_utf8 :: "bytes \<Rightarrow> string option" where
  "from_utf8 bs = (if utf8_valid bs then Some (str_of_bytes bs) else None)"

definition from_utf8_lossy :: "bytes \<Rightarrow> string" where
  "from_utf8_lossy bs = str_of_bytes (utf8_lossy bs)"

lemma utf8_lossy_valid: "utf8_valid bs \<Longrightarrow> utf8_lossy bs = bs"
proof (induction bs rule: utf8_lossy.induct)
  case (1 bs)
  show ?case
  proof (cases "bs = []")
    case False
    obtain v n where n: "utf8_next bs = (v, n)" by force
    with 1 False have "v" "utf8_lossy (drop n bs) = drop n bs"
      by (auto simp: utf8_valid.simps [of bs])
    with n False show ?thesis by (simp add: utf8_lossy.simps [of bs])
  qed (simp add: utf8_lossy.simps)
qed

lemma utf8_valid_Nil [simp]: "utf8_valid []"
  by (simp add: utf8_valid.simps)

lemma utf8_valid_ascii_Cons [simp]: "b < 0x80 \<Longrightarrow> utf8_valid (b # bs) = utf8_valid bs"
  by (simp add: utf8_valid.simps [of "b # bs"] utf8_next_def byte_at_def)

lemma utf8_valid_ascii: "(\<And>b. b \<in> set bs \<Longrightarrow> b < 0x80) \<Longrightarrow> utf8_valid bs"
  by (induction bs) auto

lemma from_utf8_valid [simp]: "utf8_valid (as_bytes s) \<Longrightarrow> from_utf8 (as_bytes s) = Some s"
  by (simp add: from_utf8_def)

lemma from_utf8_lossy_valid [simp]: "utf8_valid (as_bytes s) \<Longrightarrow> from_utf8_lossy (as_bytes s) = s"
  by (simp add: from_utf8_lossy_def utf8_lossy_valid)

subsection \<open>Printing and parsing numbers\<close>

definition digit_char :: "nat \<Rightarrow> char" where
  "digit_char d = (if d < 10 then char_of (48 + d) else char_of (87 + d))"

definition char_digit :: "nat \<Rightarrow> char \<Rightarrow> nat option" where
  "char_digit radix c =
     (let n = of_char c :: nat;
          d = (if 48 \<le> n \<and> n \<le> 57 then Some (n - 48)
               else if 97 \<le> n \<and> n \<le> 122 then Some (n - 87)
               else if 65 \<le> n \<and> n \<le> 90 then Some (n - 55) else None)
      in case d of None \<Rightarrow> None | Some v \<Rightarrow> if v < radix then Some v else None)"

text \<open>\<open>{}\<close> of an unsigned integer, and its lower-case hexadecimal digits.\<close>

fun show_radix :: "nat \<Rightarrow> nat \<Rightarrow> string" where
  "show_radix radix n =
     (if radix < 2 \<or> n < radix then [digit_char n]
      else show_radix radix (n div radix) @ [digit_char (n mod radix)])"

declare show_radix.simps [simp del]

abbreviation show_dec :: "nat \<Rightarrow> string" where
  "show_dec \<equiv> show_radix 10"

text \<open>\<open>{:04x}\<close>: hexadecimal, padded with zeros to the width.\<close>

definition show_hex_pad :: "nat \<Rightarrow> nat \<Rightarrow> string" where
  "show_hex_pad w n = (let s = show_radix 16 n in replicate (w - length s) (CHR ''0'') @ s)"

fun digits_value :: "nat \<Rightarrow> nat \<Rightarrow> string \<Rightarrow> nat option" where
  "digits_value radix acc [] = Some acc"
| "digits_value radix acc (c # cs) =
     (case char_digit radix c of None \<Rightarrow> None
      | Some d \<Rightarrow> digits_value radix (acc * radix + d) cs)"

text \<open>
  \<open>from_str_radix\<close> and \<open>parse\<close> of an unsigned type with \<open>bound\<close> values: an
  optional plus sign, at least one digit, no overflow.
\<close>

definition parse_unsigned :: "nat \<Rightarrow> nat \<Rightarrow> string \<Rightarrow> nat option" where
  "parse_unsigned bound radix s =
     (let t = (case s of c # cs \<Rightarrow> if c = CHR ''+'' then cs else s | [] \<Rightarrow> [])
      in if t = [] then None
         else case digits_value radix 0 t of None \<Rightarrow> None
              | Some v \<Rightarrow> if v < bound then Some v else None)"

lemma char_digit_digit_char:
  assumes "d < radix" "radix \<le> 16"
  shows "char_digit radix (digit_char d) = Some d"
proof -
  from assms have "d < 16" by simp
  then have "d \<in> {0..<16}" by simp
  then have "char_digit 16 (digit_char d) = Some d"
    by (simp add: atLeastLessThan_nat_numeral char_digit_def digit_char_def Let_def)
      (elim disjE; simp)
  with assms show ?thesis
    by (auto simp: char_digit_def Let_def split: if_splits option.splits)
qed

lemma digits_value_append:
  "digits_value radix acc (xs @ ys) =
     (case digits_value radix acc xs of None \<Rightarrow> None | Some a \<Rightarrow> digits_value radix a ys)"
  by (induction xs arbitrary: acc) (auto split: option.splits)

lemma digits_value_show:
  assumes "2 \<le> radix" "radix \<le> 16"
  shows "digits_value radix 0 (show_radix radix n) = Some n"
  using assms
proof (induction radix n rule: show_radix.induct)
  case (1 radix n)
  show ?case
  proof (cases "n < radix")
    case True
    with 1 show ?thesis
      by (simp add: show_radix.simps [of radix n] char_digit_digit_char)
  next
    case False
    with 1 have "digits_value radix 0 (show_radix radix (n div radix)) = Some (n div radix)"
      by simp
    with False 1 show ?thesis
      by (simp add: show_radix.simps [of radix n] digits_value_append char_digit_digit_char)
  qed
qed

lemma show_radix_nonempty [simp]: "show_radix radix n \<noteq> []"
  by (subst show_radix.simps) simp

lemma digit_char_cases:
  assumes "d < 16"
  shows "digit_char d \<in> set ''0123456789abcdef''"
proof -
  from assms have "d \<in> {0..<16}" by simp
  then show ?thesis
    by (simp add: atLeastLessThan_nat_numeral digit_char_def) (elim disjE; simp add: char_of_def bit_0)
qed

lemma show_radix_chars:
  assumes "2 \<le> radix" "radix \<le> 16"
  shows "set (show_radix radix n) \<subseteq> set ''0123456789abcdef''"
  using assms
proof (induction radix n rule: show_radix.induct)
  case (1 radix n)
  have "digit_char (n mod radix) \<in> set ''0123456789abcdef''"
    by (rule digit_char_cases) (use 1(2,3) in \<open>simp add: less_le_trans [of _ radix]\<close>)
  moreover have "n < radix \<Longrightarrow> digit_char n \<in> set ''0123456789abcdef''"
    by (rule digit_char_cases) (use 1(2,3) in simp)
  ultimately show ?case
    using 1 by (cases "n < radix") (simp_all add: show_radix.simps [of radix n])
qed

lemma hd_show_radix_not_plus:
  assumes "2 \<le> radix" "radix \<le> 16"
  shows "hd (show_radix radix n) \<noteq> CHR ''+''"
proof -
  have "hd (show_radix radix n) \<in> set ''0123456789abcdef''"
    using show_radix_chars [OF assms] by (meson hd_in_set show_radix_nonempty subsetD)
  then show ?thesis by auto
qed

lemma parse_unsigned_show:
  assumes "2 \<le> radix" "radix \<le> 16" "n < bound"
  shows "parse_unsigned bound radix (show_radix radix n) = Some n"
proof -
  obtain c cs where s: "show_radix radix n = c # cs"
    by (meson neq_Nil_conv show_radix_nonempty)
  with hd_show_radix_not_plus [OF assms(1,2), of n] have "c \<noteq> CHR ''+''" by simp
  then show ?thesis
    using digits_value_show [OF assms(1,2), of n] assms(3) s
    by (simp add: parse_unsigned_def)
qed

lemma length_show_radix: "n < radix ^ k \<Longrightarrow> 0 < k \<Longrightarrow> 2 \<le> radix \<Longrightarrow> length (show_radix radix n) \<le> k"
proof (induction k arbitrary: n)
  case (Suc k)
  show ?case
  proof (cases "n < radix")
    case False
    then have "0 < k" using Suc.prems(1) by (cases k) auto
    moreover have "n div radix < radix ^ k"
      using Suc.prems by (intro less_mult_imp_div_less) (simp add: mult.commute)
    ultimately show ?thesis using Suc False by (subst show_radix.simps) simp
  qed (subst show_radix.simps, simp)
qed simp

lemma length_show_hex_pad: "n < 16 ^ w \<Longrightarrow> 0 < w \<Longrightarrow> length (show_hex_pad w n) = w"
  using length_show_radix [of n 16 w] by (simp add: show_hex_pad_def Let_def)

lemma show_hex_pad_nonempty [simp]: "show_hex_pad w n \<noteq> []"
  by (simp add: show_hex_pad_def Let_def)

lemma show_hex_pad_chars: "set (show_hex_pad w n) \<subseteq> set ''0123456789abcdef''"
  using show_radix_chars [of 16 n] by (auto simp: show_hex_pad_def Let_def)

lemma digits_value_zeros: "digits_value radix 0 (replicate k (CHR ''0'') @ s) = digits_value radix 0 s" if "0 < radix"
  using that by (induction k) (simp_all add: char_digit_def)

lemma digits_value_hex_pad: "digits_value 16 0 (show_hex_pad w n) = Some n"
  by (simp add: show_hex_pad_def Let_def digits_value_zeros digits_value_show)

lemma parse_unsigned_hex_pad:
  assumes "n < bound" shows "parse_unsigned bound 16 (show_hex_pad w n) = Some n"
proof -
  obtain c cs where s: "show_hex_pad w n = c # cs" by (meson neq_Nil_conv show_hex_pad_nonempty)
  then have "c \<noteq> CHR ''+''" using show_hex_pad_chars [of w n] by auto
  then show ?thesis using digits_value_hex_pad [of w n] s assms by (simp add: parse_unsigned_def)
qed

lemma parse_unsigned_bound: "parse_unsigned bound radix s = Some n \<Longrightarrow> n < bound"
  by (auto simp: parse_unsigned_def Let_def split: if_splits option.splits)

subsection \<open>Splitting and joining\<close>

text \<open>\<open>str::split(c)\<close>: the pieces between the separators, at least one.\<close>

fun split_on :: "char \<Rightarrow> string \<Rightarrow> string list" where
  "split_on c [] = [[]]"
| "split_on c (x # xs) =
     (if x = c then [] # split_on c xs
      else case split_on c xs of [] \<Rightarrow> [[x]] | p # ps \<Rightarrow> (x # p) # ps)"

fun join_str :: "string \<Rightarrow> string list \<Rightarrow> string" where
  "join_str sep [] = []"
| "join_str sep [x] = x"
| "join_str sep (x # xs) = x @ sep @ join_str sep xs"

fun contains_str :: "string \<Rightarrow> string \<Rightarrow> bool" where
  "contains_str p [] \<longleftrightarrow> p = []"
| "contains_str p (c # cs) \<longleftrightarrow> take (length p) (c # cs) = p \<or> contains_str p cs"

lemma split_on_nonempty [simp]: "split_on c s \<noteq> []"
  by (induction s) (auto split: list.splits)

lemma split_on_no_sep: "c \<notin> set s \<Longrightarrow> split_on c s = [s]"
  by (induction s) auto

lemma split_on_append:
  assumes "c \<notin> set s"
  shows "split_on c (s @ c # t) = s # split_on c t"
  using assms by (induction s) auto

lemma join_split: "join_str [c] (split_on c s) = s"
proof (induction s)
  case (Cons x xs)
  obtain p ps where p: "split_on c xs = p # ps"
    by (meson neq_Nil_conv split_on_nonempty)
  with Cons show ?case by (cases ps) auto
qed simp

lemma split_join:
  "xs \<noteq> [] \<Longrightarrow> list_all (\<lambda>s. c \<notin> set s) xs \<Longrightarrow> split_on c (join_str [c] xs) = xs"
  by (induction "[c]" xs rule: join_str.induct) (simp_all add: split_on_no_sep split_on_append)

lemma join_str_append:
  "xs \<noteq> [] \<Longrightarrow> ys \<noteq> [] \<Longrightarrow> join_str sep (xs @ ys) = join_str sep xs @ sep @ join_str sep ys"
proof (induction xs)
  case (Cons x xs)
  then show ?case by (cases xs; cases ys) simp_all
qed simp

lemma join_join:
  "list_all (\<lambda>xs. xs \<noteq> []) xss \<Longrightarrow> join_str sep (map (join_str sep) xss) = join_str sep (concat xss)"
proof (induction xss)
  case (Cons xs xss)
  then show ?case by (cases xss) (auto simp: join_str_append)
qed simp

text \<open>Copying a string into a zeroed array of \<open>n\<close> bytes, at most \<open>k\<close> bytes of it.\<close>

definition copy_padded :: "nat \<Rightarrow> nat \<Rightarrow> string \<Rightarrow> bytes" where
  "copy_padded n k s = (let t = take (min (length s) k) (as_bytes s) in t @ replicate (n - length t) 0)"

lemma length_copy_padded [simp]: "k \<le> n \<Longrightarrow> length (copy_padded n k s) = n"
  by (simp add: copy_padded_def Let_def)

text \<open>The bytes before the first NUL (or all of them): \<open>iter().position(|b| b == 0)\<close>.\<close>

definition until_nul :: "bytes \<Rightarrow> bytes" where
  "until_nul bs = takeWhile (\<lambda>b. b \<noteq> 0) bs"

lemma until_nul_copy_padded:
  assumes "length s \<le> k" "k < n" "CHR 0x00 \<notin> set s"
  shows "until_nul (copy_padded n k s) = as_bytes s"
proof -
  have "of_char c \<noteq> (0 :: u8)" if "c \<in> set s" for c
  proof
    assume "of_char c = (0 :: u8)"
    then have "of_char c = (of_char (CHR 0x00) :: u8)" by simp
    then have "c = CHR 0x00" by (metis char_of_char unat_of_char)
    with that assms(3) show False by simp
  qed
  then have "takeWhile (\<lambda>b. b \<noteq> 0) (as_bytes s @ replicate (n - length s) 0) = as_bytes s"
    using assms by (subst takeWhile_append2) (auto simp: as_bytes_def Suc_diff_le dest!: less_imp_Suc_add)
  then show ?thesis using assms by (simp add: until_nul_def copy_padded_def Let_def)
qed

section \<open>Concatenated UTF-8 texts\<close>

lemma byte_at_append: "i < length xs \<Longrightarrow> byte_at (xs @ ys) i = byte_at xs i"
  by (simp add: byte_at_def nth_append)

lemma utf8_next_append:
  assumes "xs \<noteq> []" "utf8_next xs = (True, n)"
  shows "utf8_next (xs @ ys) = (True, n) \<and> n \<le> length xs"
proof -
  define two three where "two = (\<lambda>b0 :: u8. 0xC2 \<le> b0 \<and> b0 \<le> 0xDF)" and "three = (\<lambda>b0 :: u8. 0xE0 \<le> b0 \<and> b0 \<le> 0xEF)"
  define four where "four = (\<lambda>b0 :: u8. 0xF0 \<le> b0 \<and> b0 \<le> 0xF4)"
  define t2 where "t2 = (\<lambda>(b0 :: u8) (b1 :: u8). (b0 = 0xE0 \<and> 0xA0 \<le> b1 \<and> b1 \<le> 0xBF)
            \<or> (0xE1 \<le> b0 \<and> b0 \<le> 0xEC \<and> 0x80 \<le> b1 \<and> b1 \<le> 0xBF)
            \<or> (b0 = 0xED \<and> 0x80 \<le> b1 \<and> b1 \<le> 0x9F)
            \<or> (0xEE \<le> b0 \<and> b0 \<le> 0xEF \<and> 0x80 \<le> b1 \<and> b1 \<le> 0xBF))"
  define f2 where "f2 = (\<lambda>(b0 :: u8) (b1 :: u8). (b0 = 0xF0 \<and> 0x90 \<le> b1 \<and> b1 \<le> 0xBF)
            \<or> (0xF1 \<le> b0 \<and> b0 \<le> 0xF3 \<and> 0x80 \<le> b1 \<and> b1 \<le> 0xBF)
            \<or> (b0 = 0xF4 \<and> 0x80 \<le> b1 \<and> b1 \<le> 0x8F))"
  have next_eq: "utf8_next bs =
     (if byte_at bs 0 < 0x80 then (True, 1)
      else if two (byte_at bs 0) then (if is_cont (byte_at bs 1) then (True, 2) else (False, 1))
      else if three (byte_at bs 0) then
        (if t2 (byte_at bs 0) (byte_at bs 1)
         then (if is_cont (byte_at bs 2) then (True, 3) else (False, 2)) else (False, 1))
      else if four (byte_at bs 0) then
        (if f2 (byte_at bs 0) (byte_at bs 1)
         then (if is_cont (byte_at bs 2) then (if is_cont (byte_at bs 3) then (True, 4) else (False, 3)) else (False, 2))
         else (False, 1))
      else (False, 1))" for bs
    by (simp only: utf8_next_def two_def three_def four_def t2_def f2_def Let_def)
  have eq: "byte_at (xs @ ys) i = byte_at xs i \<and> i < length xs" if "byte_at xs i \<noteq> 0" for i
    using that by (auto simp: byte_at_def nth_append split: if_splits)
  have zero: "\<not> is_cont 0" "\<not> t2 b 0" "\<not> f2 b 0" for b by (simp_all add: is_cont_def t2_def f2_def)
  have c: "byte_at (xs @ ys) i = byte_at xs i \<and> i < length xs" if "is_cont (byte_at xs i)" for i
    using that eq zero by metis
  have t: "byte_at (xs @ ys) i = byte_at xs i \<and> i < length xs" if "t2 b (byte_at xs i) \<or> f2 b (byte_at xs i)" for i b
    using that eq zero by metis
  have first: "byte_at (xs @ ys) 0 = byte_at xs 0" "0 < length xs" using assms(1) by (simp_all add: byte_at_append)
  show ?thesis
    using assms(2) first c [of 1] c [of 2] c [of 3] t [of "byte_at xs 0" 1] unfolding next_eq
    by (auto simp: Suc_le_eq split: if_splits)
qed

lemma utf8_valid_append:
  "utf8_valid xs \<Longrightarrow> utf8_valid (xs @ ys) = utf8_valid ys"
proof (induction xs rule: utf8_valid.induct)
  case (1 xs)
  show ?case
  proof (cases "xs = []")
    case False
    obtain v n where n: "utf8_next xs = (v, n)" by force
    then have v: "v" "utf8_valid (drop n xs)" using 1 False by (auto simp: utf8_valid.simps [of xs])
    then have "utf8_next (xs @ ys) = (True, n)" "n \<le> length xs" using utf8_next_append [OF False] n by auto
    then show ?thesis using 1 False n v by (simp add: utf8_valid.simps [of "xs @ ys"])
  qed simp
qed

section \<open>White space\<close>

text \<open>The UTF-8 encodings of the characters \<^verbatim>\<open>str::trim\<close> removes.\<close>

definition white_space :: "string list" where
  "white_space =
     map (\<lambda>c. [c]) [CHR 0x09, CHR 0x0A, CHR 0x0B, CHR 0x0C, CHR 0x0D, CHR 0x20]
     @ [[CHR 0xC2, CHR 0x85], [CHR 0xC2, CHR 0xA0], [CHR 0xE1, CHR 0x9A, CHR 0x80]]
     @ map (\<lambda>c. [CHR 0xE2, CHR 0x80, c])
         [CHR 0x80, CHR 0x81, CHR 0x82, CHR 0x83, CHR 0x84, CHR 0x85, CHR 0x86, CHR 0x87, CHR 0x88,
          CHR 0x89, CHR 0x8A, CHR 0xA8, CHR 0xA9, CHR 0xAF]
     @ [[CHR 0xE2, CHR 0x81, CHR 0x9F], [CHR 0xE3, CHR 0x80, CHR 0x80]]"

lemma white_space_nonempty: "w \<in> set white_space \<Longrightarrow> 0 < length w"
  by (auto simp: white_space_def)

function trim_front :: "string list \<Rightarrow> string \<Rightarrow> string" where
  "trim_front ws s =
     (case find (\<lambda>w. w \<noteq> [] \<and> take (length w) s = w) ws of
        None \<Rightarrow> s | Some w \<Rightarrow> trim_front ws (drop (length w) s))"
  by pat_completeness auto
termination
proof (relation "measure (length \<circ> snd)", goal_cases)
  case (2 ws s w)
  then have w: "w \<noteq> []" "take (length w) s = w" by (auto simp: find_Some_iff)
  then have "s \<noteq> []" by auto
  then show ?case using w by (cases w; cases s) auto
qed simp

declare trim_front.simps [simp del]

definition str_trim :: "string \<Rightarrow> string" where
  "str_trim s = rev (trim_front (map rev white_space) (rev (trim_front white_space s)))"

lemma trim_front_stops:
  assumes "list_all (\<lambda>w. hd w \<noteq> c) ws"
  shows "trim_front ws (c # s) = c # s"
proof -
  have "find (\<lambda>w. w \<noteq> [] \<and> take (length w) (c # s) = w) ws = None"
    using assms by (force simp: find_None_iff neq_Nil_conv list_all_iff)
  then show ?thesis by (simp add: trim_front.simps)
qed

end
