(* ===== verification/Usbip_Errors.thy ===== *)
theory Usbip_Errors
  imports Anyplug_Prelude "HOL-Library.AList" "HOL-Library.Char_ord" "HOL-Library.List_Lexorder"
begin

text \<open>
  The structured errors of \<^verbatim>\<open>shared/usbip-core/src/error.rs\<close>: categories, USB error
  codes, error kinds with their canonical category, the error value with its correlation
  id and context, the conversions behind the question-mark operator, and the URB status
  codes. An \<^verbatim>\<open>std::io::Error\<close> is its kind and its display text. The correlation id is
  made by the \<^verbatim>\<open>uuid\<close> crate, so it is an argument of the constructors. The operations of
  the other theories return an error kind: by \<open>UsbIpError_from_category\<close> below, the
  category of every error they build is a function of the kind.
\<close>

datatype ErrorCategory = Transient | Permanent | Fatal

definition ErrorCategory_fmt :: "ErrorCategory \<Rightarrow> string" where
  "ErrorCategory_fmt c =
     (case c of Transient \<Rightarrow> ''transient'' | Permanent \<Rightarrow> ''permanent'' | Fatal \<Rightarrow> ''fatal'')"

datatype UsbErrorCode =
    UC_Io | UC_InvalidParam | UC_Access | UC_NoDevice | UC_NotFound | UC_Busy | UC_Timeout
  | UC_Overflow | UC_Pipe | UC_Interrupted | UC_NoMem | UC_NotSupported | UC_BadDescriptor
  | UC_Other

fun UsbErrorCode_fmt :: "UsbErrorCode \<Rightarrow> string" where
  "UsbErrorCode_fmt UC_Io = ''I/O error''"
| "UsbErrorCode_fmt UC_InvalidParam = ''invalid parameter''"
| "UsbErrorCode_fmt UC_Access = ''access denied''"
| "UsbErrorCode_fmt UC_NoDevice = ''no such device''"
| "UsbErrorCode_fmt UC_NotFound = ''entity not found''"
| "UsbErrorCode_fmt UC_Busy = ''device busy''"
| "UsbErrorCode_fmt UC_Timeout = ''operation timed out''"
| "UsbErrorCode_fmt UC_Overflow = ''overflow''"
| "UsbErrorCode_fmt UC_Pipe = ''pipe error''"
| "UsbErrorCode_fmt UC_Interrupted = ''interrupted''"
| "UsbErrorCode_fmt UC_NoMem = ''out of memory''"
| "UsbErrorCode_fmt UC_NotSupported = ''not supported''"
| "UsbErrorCode_fmt UC_BadDescriptor = ''bad descriptor''"
| "UsbErrorCode_fmt UC_Other = ''other USB error''"

text \<open>The kinds of \<^verbatim>\<open>std::io::Error\<close>; every kind the code does not name is \<open>IoOther\<close>.\<close>

datatype io_error_kind =
    WouldBlock | TimedOut | IoInterrupted | NotConnected | ConnectionReset | ConnectionRefused
  | ConnectionAborted | BrokenPipe | UnexpectedEof | IoNotFound | PermissionDenied | AddrInUse
  | AddrNotAvailable | AlreadyExists | InvalidInput | InvalidData | WriteZero | IoOther

record io_error =
  io_kind :: io_error_kind
  io_msg :: string

datatype ErrorKind =
    Io io_error
  | Usb UsbErrorCode
  | Protocol string
  | InvalidMessage string
  | ConnectionClosed
  | DeviceNotFound string
  | DeviceBusy string
  | UrbFailed u32
  | Timeout
  | NotSupported string
  | Encryption string
  | Serialization string

type_synonym 'a UsbIpResult = "ErrorKind + 'a"

fun ErrorKind_fmt :: "ErrorKind \<Rightarrow> string" where
  "ErrorKind_fmt (Io e) = ''I/O error: '' @ io_msg e"
| "ErrorKind_fmt (Usb c) = ''USB error: '' @ UsbErrorCode_fmt c"
| "ErrorKind_fmt (Protocol m) = ''Protocol error: '' @ m"
| "ErrorKind_fmt (InvalidMessage m) = ''Invalid message: '' @ m"
| "ErrorKind_fmt ConnectionClosed = ''Connection closed by peer''"
| "ErrorKind_fmt (DeviceNotFound m) = ''Device not found: '' @ m"
| "ErrorKind_fmt (DeviceBusy m) = ''Device busy: '' @ m"
| "ErrorKind_fmt (UrbFailed n) = ''Device error (URB failed): status='' @ show_dec (unat n)"
| "ErrorKind_fmt Timeout = ''Operation timed out''"
| "ErrorKind_fmt (NotSupported m) = ''Not supported: '' @ m"
| "ErrorKind_fmt (Encryption m) = ''Encryption error: '' @ m"
| "ErrorKind_fmt (Serialization m) = ''Serialization error: '' @ m"

definition ErrorKind_category :: "ErrorKind \<Rightarrow> ErrorCategory" where
  "ErrorKind_category k =
     (case k of
        Timeout \<Rightarrow> Transient
      | ConnectionClosed \<Rightarrow> Transient
      | Io e \<Rightarrow>
          (if io_kind e \<in> {WouldBlock, TimedOut, IoInterrupted, NotConnected, ConnectionReset,
              ConnectionRefused, ConnectionAborted, BrokenPipe, UnexpectedEof}
           then Transient else Permanent)
      | Usb c \<Rightarrow> (if c = UC_Timeout \<or> c = UC_Busy then Transient else Permanent)
      | DeviceNotFound _ \<Rightarrow> Permanent
      | DeviceBusy _ \<Rightarrow> Permanent
      | NotSupported _ \<Rightarrow> Permanent
      | Protocol _ \<Rightarrow> Permanent
      | InvalidMessage _ \<Rightarrow> Permanent
      | UrbFailed _ \<Rightarrow> Fatal
      | Encryption _ \<Rightarrow> Fatal
      | Serialization _ \<Rightarrow> Fatal)"

text \<open>
  The context is a hash map from static keys to strings: an association list with
  distinct keys, whose order means nothing.
\<close>

record UsbIpError =
  kind :: ErrorKind
  category :: ErrorCategory
  correlation_id :: string
  err_context :: "(string \<times> string) list"

definition UsbIpError_new :: "string \<Rightarrow> ErrorKind \<Rightarrow> ErrorCategory \<Rightarrow> UsbIpError" where
  "UsbIpError_new cid k c = \<lparr>kind = k, category = c, correlation_id = cid, err_context = []\<rparr>"

definition with_context :: "UsbIpError \<Rightarrow> string \<Rightarrow> string \<Rightarrow> UsbIpError" where
  "with_context e key v = e\<lparr>err_context := AList.update key v (err_context e)\<rparr>"

definition get_context :: "UsbIpError \<Rightarrow> string \<Rightarrow> string option" where
  "get_context e key = map_of (err_context e) key"

definition UsbIpError_fmt :: "UsbIpError \<Rightarrow> string" where
  "UsbIpError_fmt e =
     ''['' @ ErrorCategory_fmt (category e) @ ''] ['' @ correlation_id e @ ''] ''
     @ ErrorKind_fmt (kind e)
     @ concat (map (\<lambda>(k, v). '' '' @ k @ ''='' @ v) (sort_key fst (err_context e)))"

definition UsbIpError_from_kind :: "string \<Rightarrow> ErrorKind \<Rightarrow> UsbIpError" where
  "UsbIpError_from_kind cid k = UsbIpError_new cid k (ErrorKind_category k)"

definition UsbIpError_from_io :: "string \<Rightarrow> io_error \<Rightarrow> UsbIpError" where
  "UsbIpError_from_io cid e =
     UsbIpError_new cid (Io e)
       (if io_kind e \<in> {WouldBlock, TimedOut, IoInterrupted, NotConnected, ConnectionReset,
            ConnectionRefused, ConnectionAborted, BrokenPipe, UnexpectedEof}
        then Transient else Permanent)"

definition UsbIpError_from_usb :: "string \<Rightarrow> UsbErrorCode \<Rightarrow> UsbIpError" where
  "UsbIpError_from_usb cid c =
     UsbIpError_new cid (Usb c) (if c = UC_Timeout \<or> c = UC_Busy then Transient else Permanent)"

definition usb_error_to_urb_status :: "UsbErrorCode \<Rightarrow> i32" where
  "usb_error_to_urb_status c =
     (case c of
        UC_Io \<Rightarrow> -5
      | UC_InvalidParam \<Rightarrow> -22
      | UC_Access \<Rightarrow> -1
      | UC_NoDevice \<Rightarrow> -19
      | UC_NotFound \<Rightarrow> -2
      | UC_Busy \<Rightarrow> -16
      | UC_Timeout \<Rightarrow> -62
      | UC_Overflow \<Rightarrow> -75
      | UC_Pipe \<Rightarrow> -32
      | UC_Interrupted \<Rightarrow> -4
      | UC_NoMem \<Rightarrow> -12
      | UC_NotSupported \<Rightarrow> -95
      | UC_BadDescriptor \<Rightarrow> -5
      | UC_Other \<Rightarrow> -5)"

section \<open>Lemmas\<close>

text \<open>The three conversions agree with the canonical category of the kind they store.\<close>

lemma UsbIpError_from_category:
  "category (UsbIpError_from_kind cid k) = ErrorKind_category k"
  "category (UsbIpError_from_io cid e) = ErrorKind_category (kind (UsbIpError_from_io cid e))"
  "category (UsbIpError_from_usb cid c) = ErrorKind_category (kind (UsbIpError_from_usb cid c))"
  by (simp_all add: UsbIpError_from_kind_def UsbIpError_from_io_def UsbIpError_from_usb_def
      UsbIpError_new_def ErrorKind_category_def)

lemma usb_error_to_urb_status_range:
  "sint (usb_error_to_urb_status c) \<in> {-95..-1}"
  by (cases c) (simp_all add: usb_error_to_urb_status_def)

lemma usb_error_to_urb_status_nonzero: "usb_error_to_urb_status c \<noteq> 0"
  using usb_error_to_urb_status_range [of c] by auto

text \<open>
  The contexts reachable by \<open>with_context\<close> from a new error have distinct keys, and
  sorting by key then removes the order of insertion from the display text.
\<close>

inductive built_error :: "UsbIpError \<Rightarrow> bool" where
  built_new: "built_error (UsbIpError_new cid k c)"
| built_context: "built_error e \<Longrightarrow> built_error (with_context e key v)"

lemma built_error_distinct: "built_error e \<Longrightarrow> distinct (map fst (err_context e))"
  by (induction rule: built_error.induct)
    (auto simp: UsbIpError_new_def with_context_def intro: distinct_update)

lemma sort_key_fst_unique:
  fixes xs ys :: "('a::linorder \<times> 'b) list"
  assumes "distinct (map fst xs)" "distinct (map fst ys)" "map_of xs = map_of ys"
  shows "sort_key fst xs = sort_key fst ys"
proof -
  have "set xs = set ys"
    by (metis assms map_of_inject_set)
  moreover have "distinct (map fst (sort_key fst xs))" "distinct (map fst (sort_key fst ys))"
    using assms(1,2) by (simp_all add: distinct_map)
  moreover have "inj_on fst (set (sort_key fst xs) \<union> set (sort_key fst ys))"
    using assms(1) \<open>set xs = set ys\<close> by (simp add: distinct_map)
  ultimately show ?thesis
    by (intro map_sorted_distinct_set_unique [where f = fst]) simp_all
qed

lemma get_with_context [simp]:
  "get_context (with_context e key v) = (get_context e)(key \<mapsto> v)"
  by (auto simp: get_context_def with_context_def update_conv fun_eq_iff)

lemma UsbIpError_fmt_order:
  assumes "built_error e" "built_error e'"
    and "kind e = kind e'" "category e = category e'" "correlation_id e = correlation_id e'"
    and "get_context e = get_context e'"
  shows "UsbIpError_fmt e = UsbIpError_fmt e'"
proof -
  have "map_of (err_context e) = map_of (err_context e')"
    using assms(6) by (simp add: get_context_def fun_eq_iff)
  then have "sort_key fst (err_context e) = sort_key fst (err_context e')"
    using assms(1,2) by (intro sort_key_fst_unique built_error_distinct)
  then show ?thesis using assms(3-5) by (simp add: UsbIpError_fmt_def)
qed

end
