(* ===== verification/Usbip_Protocol.thy ===== *)
theory Usbip_Protocol
  imports Usbip_Errors
begin

text \<open>
  \<^verbatim>\<open>shared/usbip-core/src/protocol.rs\<close> and the constants and enums of
  \<^verbatim>\<open>shared/usbip-core/src/lib.rs\<close>: command and status codes, the 8-byte header and the
  312-byte device entry with their big-endian packed images. The structs are
  \<^verbatim>\<open>repr(C, packed)\<close> and derive \<^verbatim>\<open>FromBytes\<close> and \<^verbatim>\<open>IntoBytes\<close>, so \<open>as_bytes\<close> is the
  concatenation of the fields in the order of the declaration and \<open>read_from_prefix\<close>
  reads them back in that order, failing on short input only.
\<close>

definition OP_REQ_DEVLIST :: u16 where "OP_REQ_DEVLIST = 0x8003"
definition OP_REP_DEVLIST :: u16 where "OP_REP_DEVLIST = 0x0005"
definition OP_REQ_IMPORT :: u16 where "OP_REQ_IMPORT = 0x8006"
definition OP_REP_IMPORT :: u16 where "OP_REP_IMPORT = 0x0007"
definition USBIP_CMD_SUBMIT :: u16 where "USBIP_CMD_SUBMIT = 0x0001"
definition USBIP_RET_UNLINK :: u16 where "USBIP_RET_UNLINK = 0x0002"
definition USBIP_RET_SUBMIT :: u16 where "USBIP_RET_SUBMIT = 0x0003"

definition STATUS_SUCCESS :: i32 where "STATUS_SUCCESS = 0"
definition STATUS_ST_DEV_BUSY :: i32 where "STATUS_ST_DEV_BUSY = 2"
definition STATUS_ST_NODEV :: i32 where "STATUS_ST_NODEV = 4"

definition URB_DIR_IN :: u32 where "URB_DIR_IN = 0x0200"

definition USBIP_VERSION :: u16 where "USBIP_VERSION = 0x0111"
definition MAX_MESSAGE_SIZE :: nat where "MAX_MESSAGE_SIZE = 1048576"

lemmas command_defs = OP_REQ_DEVLIST_def OP_REP_DEVLIST_def OP_REQ_IMPORT_def OP_REP_IMPORT_def
  USBIP_CMD_SUBMIT_def USBIP_RET_UNLINK_def USBIP_RET_SUBMIT_def

lemma commands_distinct [simp]:
  "USBIP_RET_SUBMIT \<noteq> USBIP_CMD_SUBMIT" "USBIP_CMD_SUBMIT \<noteq> USBIP_RET_SUBMIT"
  "USBIP_RET_UNLINK \<noteq> USBIP_CMD_SUBMIT" "USBIP_CMD_SUBMIT \<noteq> USBIP_RET_UNLINK"
  "USBIP_RET_UNLINK \<noteq> USBIP_RET_SUBMIT" "USBIP_RET_SUBMIT \<noteq> USBIP_RET_UNLINK"
  "OP_REQ_IMPORT \<noteq> OP_REQ_DEVLIST" "OP_REQ_DEVLIST \<noteq> OP_REQ_IMPORT"
  "OP_REP_IMPORT \<noteq> OP_REP_DEVLIST" "OP_REP_DEVLIST \<noteq> OP_REP_IMPORT"
  by (simp_all add: command_defs)

section \<open>Speeds and directions\<close>

datatype UsbSpeed = Unknown | Low | Full | High | Wireless | Super | SuperPlus

definition UsbSpeed_from_u32 :: "u32 \<Rightarrow> UsbSpeed" where
  "UsbSpeed_from_u32 v =
     (if v = 1 then Low else if v = 2 then Full else if v = 3 then High
      else if v = 4 then Wireless else if v = 5 then Super else if v = 6 then SuperPlus
      else Unknown)"

text \<open>The discriminants of the enum (\<^verbatim>\<open>repr(u32)\<close>).\<close>

fun UsbSpeed_repr :: "UsbSpeed \<Rightarrow> u32" where
  "UsbSpeed_repr Unknown = 0"
| "UsbSpeed_repr Low = 1"
| "UsbSpeed_repr Full = 2"
| "UsbSpeed_repr High = 3"
| "UsbSpeed_repr Wireless = 4"
| "UsbSpeed_repr Super = 5"
| "UsbSpeed_repr SuperPlus = 6"

datatype Direction = Dir_Out | Dir_In

definition Direction_from_u32 :: "u32 \<Rightarrow> Direction" where
  "Direction_from_u32 v = (if v = 0 then Dir_Out else Dir_In)"

section \<open>The message header\<close>

record UsbIpHeader =
  version :: u16
  command :: u16
  hdr_status :: i32

definition UsbIpHeader_SIZE :: nat where "UsbIpHeader_SIZE = 8"

definition UsbIpHeader_new :: "u16 \<Rightarrow> UsbIpHeader" where
  "UsbIpHeader_new cmd = \<lparr>version = USBIP_VERSION, command = cmd, hdr_status = 0\<rparr>"

definition UsbIpHeader_with_status :: "u16 \<Rightarrow> i32 \<Rightarrow> UsbIpHeader" where
  "UsbIpHeader_with_status cmd st = \<lparr>version = USBIP_VERSION, command = cmd, hdr_status = st\<rparr>"

definition UsbIpHeader_as_bytes :: "UsbIpHeader \<Rightarrow> bytes" where
  "UsbIpHeader_as_bytes h =
     u16_to_be_bytes (version h) @ u16_to_be_bytes (command h) @ u32_to_be_bytes (hdr_status h)"

definition UsbIpHeader_read_from_prefix :: "UsbIpHeader reader" where
  "UsbIpHeader_read_from_prefix bs = do {
     (v, bs) \<leftarrow> rd_be16 bs;
     (c, bs) \<leftarrow> rd_be16 bs;
     (s, bs) \<leftarrow> rd_be32 bs;
     Some (\<lparr>version = v, command = c, hdr_status = s\<rparr>, bs)
   }"

lemmas reader_inv = Option.bind_eq_Some_conv rd_Some

interpretation hdr: packed_struct UsbIpHeader_as_bytes UsbIpHeader_read_from_prefix "\<lambda>_. True"
  UsbIpHeader_SIZE
proof unfold_locales
  fix x :: UsbIpHeader and r bs
  show "length (UsbIpHeader_as_bytes x) = UsbIpHeader_SIZE"
    by (simp add: UsbIpHeader_as_bytes_def UsbIpHeader_SIZE_def)
  show "UsbIpHeader_read_from_prefix (UsbIpHeader_as_bytes x @ r) = Some (x, r)"
    by (simp add: UsbIpHeader_as_bytes_def UsbIpHeader_read_from_prefix_def)
  show "UsbIpHeader_read_from_prefix bs = Some (x, r) \<Longrightarrow> True \<and> bs = UsbIpHeader_as_bytes x @ r"
    by (auto simp: UsbIpHeader_read_from_prefix_def UsbIpHeader_as_bytes_def reader_inv)
  show "UsbIpHeader_SIZE \<le> length bs \<Longrightarrow>
      \<exists>x. UsbIpHeader_read_from_prefix bs = Some (x, drop UsbIpHeader_SIZE bs)"
    by (simp add: UsbIpHeader_read_from_prefix_def UsbIpHeader_SIZE_def rd_enough)
qed (simp add: UsbIpHeader_SIZE_def)

lemma length_UsbIpHeader_as_bytes [simp, wire_simps]: "length (UsbIpHeader_as_bytes h) = 8"
  using hdr.enc_length by (simp add: UsbIpHeader_SIZE_def)

lemma UsbIpHeader_read_written [simp, wire_simps]:
  "UsbIpHeader_read_from_prefix (UsbIpHeader_as_bytes h @ r) = Some (h, r)"
  by (rule hdr.dec_enc) simp

section \<open>The device entry\<close>

record UsbIpDeviceEntry =
  dev_path :: bytes
  dev_busid :: bytes
  busnum :: u32
  devnum :: u32
  speed :: u32
  id_vendor :: u16
  id_product :: u16
  bcd_device :: u16
  b_device_class :: u8
  b_device_sub_class :: u8
  b_device_protocol :: u8
  b_configuration_value :: u8
  b_num_configurations :: u8
  b_num_interfaces :: u8

definition UsbIpDeviceEntry_SIZE :: nat where "UsbIpDeviceEntry_SIZE = 312"

text \<open>The array types of the struct: 256 bytes of path, 32 bytes of bus id.\<close>

definition entry_wf :: "UsbIpDeviceEntry \<Rightarrow> bool" where
  "entry_wf e \<longleftrightarrow> length (dev_path e) = 256 \<and> length (dev_busid e) = 32"

definition UsbIpDeviceEntry_as_bytes :: "UsbIpDeviceEntry \<Rightarrow> bytes" where
  "UsbIpDeviceEntry_as_bytes e =
     dev_path e @ dev_busid e @ u32_to_be_bytes (busnum e) @ u32_to_be_bytes (devnum e)
     @ u32_to_be_bytes (speed e) @ u16_to_be_bytes (id_vendor e) @ u16_to_be_bytes (id_product e)
     @ u16_to_be_bytes (bcd_device e)
     @ [b_device_class e, b_device_sub_class e, b_device_protocol e, b_configuration_value e,
        b_num_configurations e, b_num_interfaces e]"

definition UsbIpDeviceEntry_read_from_prefix :: "UsbIpDeviceEntry reader" where
  "UsbIpDeviceEntry_read_from_prefix bs = do {
     (p, bs) \<leftarrow> rd_array 256 bs;
     (bi, bs) \<leftarrow> rd_array 32 bs;
     (bn, bs) \<leftarrow> rd_be32 bs;
     (dn, bs) \<leftarrow> rd_be32 bs;
     (sp, bs) \<leftarrow> rd_be32 bs;
     (vd, bs) \<leftarrow> rd_be16 bs;
     (pd, bs) \<leftarrow> rd_be16 bs;
     (bc, bs) \<leftarrow> rd_be16 bs;
     (c, bs) \<leftarrow> rd_u8 bs;
     (sc, bs) \<leftarrow> rd_u8 bs;
     (pr, bs) \<leftarrow> rd_u8 bs;
     (cv, bs) \<leftarrow> rd_u8 bs;
     (nc, bs) \<leftarrow> rd_u8 bs;
     (ni, bs) \<leftarrow> rd_u8 bs;
     Some (\<lparr>dev_path = p, dev_busid = bi, busnum = bn, devnum = dn, speed = sp, id_vendor = vd,
            id_product = pd, bcd_device = bc, b_device_class = c, b_device_sub_class = sc,
            b_device_protocol = pr, b_configuration_value = cv, b_num_configurations = nc,
            b_num_interfaces = ni\<rparr>, bs)
   }"

interpretation entry: packed_struct UsbIpDeviceEntry_as_bytes UsbIpDeviceEntry_read_from_prefix
  entry_wf UsbIpDeviceEntry_SIZE
proof unfold_locales
  fix x :: UsbIpDeviceEntry and r bs
  show "entry_wf x \<Longrightarrow> length (UsbIpDeviceEntry_as_bytes x) = UsbIpDeviceEntry_SIZE"
    by (simp add: UsbIpDeviceEntry_as_bytes_def UsbIpDeviceEntry_SIZE_def entry_wf_def)
  show "entry_wf x \<Longrightarrow>
      UsbIpDeviceEntry_read_from_prefix (UsbIpDeviceEntry_as_bytes x @ r) = Some (x, r)"
    by (simp add: UsbIpDeviceEntry_as_bytes_def UsbIpDeviceEntry_read_from_prefix_def entry_wf_def)
  show "UsbIpDeviceEntry_read_from_prefix bs = Some (x, r) \<Longrightarrow>
      entry_wf x \<and> bs = UsbIpDeviceEntry_as_bytes x @ r"
    by (auto simp: UsbIpDeviceEntry_read_from_prefix_def UsbIpDeviceEntry_as_bytes_def
        entry_wf_def reader_inv)
  show "UsbIpDeviceEntry_SIZE \<le> length bs \<Longrightarrow>
      \<exists>x. UsbIpDeviceEntry_read_from_prefix bs = Some (x, drop UsbIpDeviceEntry_SIZE bs)"
    by (simp add: UsbIpDeviceEntry_read_from_prefix_def UsbIpDeviceEntry_SIZE_def rd_enough)
qed (simp add: UsbIpDeviceEntry_SIZE_def)

lemma length_entry_as_bytes [simp, wire_simps]:
  "entry_wf e \<Longrightarrow> length (UsbIpDeviceEntry_as_bytes e) = 312"
  using entry.enc_length by (simp add: UsbIpDeviceEntry_SIZE_def)

lemma entry_read_written [simp, wire_simps]:
  "entry_wf e \<Longrightarrow>
   UsbIpDeviceEntry_read_from_prefix (UsbIpDeviceEntry_as_bytes e @ r) = Some (e, r)"
  by (rule entry.dec_enc)

definition busid_str :: "UsbIpDeviceEntry \<Rightarrow> string" where
  "busid_str e =
     (case from_utf8 (until_nul (dev_busid e)) of Some s \<Rightarrow> s | None \<Rightarrow> ''???'')"

definition path_str :: "UsbIpDeviceEntry \<Rightarrow> string" where
  "path_str e =
     (case from_utf8 (until_nul (dev_path e)) of Some s \<Rightarrow> s | None \<Rightarrow> ''???'')"

definition entry_vid :: "UsbIpDeviceEntry \<Rightarrow> u16" where "entry_vid e = id_vendor e"
definition entry_pid :: "UsbIpDeviceEntry \<Rightarrow> u16" where "entry_pid e = id_product e"
definition speed_val :: "UsbIpDeviceEntry \<Rightarrow> u32" where "speed_val e = speed e"

text \<open>
  A bus id that was copied into the zeroed field reads back unchanged when it is at most
  31 bytes of UTF-8 without NUL: the last byte of the field always stays zero.
\<close>

lemma busid_str_copied:
  assumes "dev_busid e = copy_padded 32 31 s" "length s \<le> 31" "CHR 0x00 \<notin> set s"
    and "utf8_valid (as_bytes s)"
  shows "busid_str e = s"
  using assms by (simp add: busid_str_def until_nul_copy_padded)

lemma UsbSpeed_from_repr: "UsbSpeed_from_u32 (UsbSpeed_repr s) = s"
  by (cases s) (simp_all add: UsbSpeed_from_u32_def)

end
