(* ===== verification/Usbip_Urb.thy ===== *)
theory Usbip_Urb
  imports Usbip_Protocol
begin

text \<open>
  \<^verbatim>\<open>shared/usbip-core/src/urb.rs\<close> and \<^verbatim>\<open>reply.rs\<close>: the URB submission, its reply and the
  unlink notice as packed big-endian structs, the accessors that decide whether a data
  section follows, the reusable URB buffer, and the one serializer of replies.
\<close>

section \<open>USBIP CMD SUBMIT\<close>

record UsbIpCmdSubmit =
  cmd_seqnum :: u32
  cmd_devid :: u32
  cmd_direction :: u32
  cmd_ep :: u32
  cmd_transfer_flags :: u32
  cmd_transfer_buffer_length :: u32
  cmd_start_frame :: u32
  cmd_number_of_packets :: u32
  cmd_interval :: u32
  cmd_setup :: bytes

text \<open>The frame reserves 48 bytes although the packed struct has 44.\<close>

definition UsbIpCmdSubmit_HEADER_SIZE :: nat where "UsbIpCmdSubmit_HEADER_SIZE = 48"
definition UsbIpCmdSubmit_size_of :: nat where "UsbIpCmdSubmit_size_of = 44"

definition cmd_wf :: "UsbIpCmdSubmit \<Rightarrow> bool" where
  "cmd_wf c \<longleftrightarrow> length (cmd_setup c) = 8"

definition UsbIpCmdSubmit_as_bytes :: "UsbIpCmdSubmit \<Rightarrow> bytes" where
  "UsbIpCmdSubmit_as_bytes c =
     u32_to_be_bytes (cmd_seqnum c) @ u32_to_be_bytes (cmd_devid c)
     @ u32_to_be_bytes (cmd_direction c) @ u32_to_be_bytes (cmd_ep c)
     @ u32_to_be_bytes (cmd_transfer_flags c) @ u32_to_be_bytes (cmd_transfer_buffer_length c)
     @ u32_to_be_bytes (cmd_start_frame c) @ u32_to_be_bytes (cmd_number_of_packets c)
     @ u32_to_be_bytes (cmd_interval c) @ cmd_setup c"

definition UsbIpCmdSubmit_read_from_prefix :: "UsbIpCmdSubmit reader" where
  "UsbIpCmdSubmit_read_from_prefix bs = do {
     (s, bs) \<leftarrow> rd_be32 bs;
     (d, bs) \<leftarrow> rd_be32 bs;
     (di, bs) \<leftarrow> rd_be32 bs;
     (e, bs) \<leftarrow> rd_be32 bs;
     (fl, bs) \<leftarrow> rd_be32 bs;
     (len, bs) \<leftarrow> rd_be32 bs;
     (sf, bs) \<leftarrow> rd_be32 bs;
     (np, bs) \<leftarrow> rd_be32 bs;
     (iv, bs) \<leftarrow> rd_be32 bs;
     (st, bs) \<leftarrow> rd_array 8 bs;
     Some (\<lparr>cmd_seqnum = s, cmd_devid = d, cmd_direction = di, cmd_ep = e,
            cmd_transfer_flags = fl, cmd_transfer_buffer_length = len, cmd_start_frame = sf,
            cmd_number_of_packets = np, cmd_interval = iv, cmd_setup = st\<rparr>, bs)
   }"

interpretation cmd: packed_struct UsbIpCmdSubmit_as_bytes UsbIpCmdSubmit_read_from_prefix cmd_wf
  UsbIpCmdSubmit_size_of
proof unfold_locales
  fix x :: UsbIpCmdSubmit and r bs
  show "cmd_wf x \<Longrightarrow> length (UsbIpCmdSubmit_as_bytes x) = UsbIpCmdSubmit_size_of"
    by (simp add: UsbIpCmdSubmit_as_bytes_def UsbIpCmdSubmit_size_of_def cmd_wf_def)
  show "cmd_wf x \<Longrightarrow> UsbIpCmdSubmit_read_from_prefix (UsbIpCmdSubmit_as_bytes x @ r) = Some (x, r)"
    by (simp add: UsbIpCmdSubmit_as_bytes_def UsbIpCmdSubmit_read_from_prefix_def cmd_wf_def)
  show "UsbIpCmdSubmit_read_from_prefix bs = Some (x, r) \<Longrightarrow>
      cmd_wf x \<and> bs = UsbIpCmdSubmit_as_bytes x @ r"
    by (auto simp: UsbIpCmdSubmit_read_from_prefix_def UsbIpCmdSubmit_as_bytes_def cmd_wf_def
        reader_inv)
  show "UsbIpCmdSubmit_size_of \<le> length bs \<Longrightarrow>
      \<exists>x. UsbIpCmdSubmit_read_from_prefix bs = Some (x, drop UsbIpCmdSubmit_size_of bs)"
    by (simp add: UsbIpCmdSubmit_read_from_prefix_def UsbIpCmdSubmit_size_of_def rd_enough)
qed (simp add: UsbIpCmdSubmit_size_of_def)

definition cmd_data_len :: "UsbIpCmdSubmit \<Rightarrow> u32" where
  "cmd_data_len c = cmd_transfer_buffer_length c"

definition cmd_is_in :: "UsbIpCmdSubmit \<Rightarrow> bool" where
  "cmd_is_in c \<longleftrightarrow> cmd_transfer_flags c AND URB_DIR_IN \<noteq> 0"

definition cmd_is_control :: "UsbIpCmdSubmit \<Rightarrow> bool" where
  "cmd_is_control c \<longleftrightarrow> cmd_setup c \<noteq> replicate 8 0"

definition cmd_wire_size :: "UsbIpCmdSubmit \<Rightarrow> nat" where
  "cmd_wire_size c =
     (if \<not> cmd_is_in c then UsbIpCmdSubmit_HEADER_SIZE + unat (cmd_data_len c)
      else UsbIpCmdSubmit_HEADER_SIZE)"

section \<open>USBIP RET SUBMIT\<close>

record UsbIpRetSubmit =
  ret_seqnum :: u32
  ret_devid :: u32
  ret_direction :: u32
  ret_ep :: u32
  ret_status :: u32
  ret_actual_length :: u32
  ret_start_frame :: u32
  ret_number_of_packets :: u32
  ret_error_count :: u32
  ret_setup :: bytes

definition UsbIpRetSubmit_HEADER_SIZE :: nat where "UsbIpRetSubmit_HEADER_SIZE = 44"

definition ret_wf :: "UsbIpRetSubmit \<Rightarrow> bool" where
  "ret_wf c \<longleftrightarrow> length (ret_setup c) = 8"

definition UsbIpRetSubmit_as_bytes :: "UsbIpRetSubmit \<Rightarrow> bytes" where
  "UsbIpRetSubmit_as_bytes c =
     u32_to_be_bytes (ret_seqnum c) @ u32_to_be_bytes (ret_devid c)
     @ u32_to_be_bytes (ret_direction c) @ u32_to_be_bytes (ret_ep c)
     @ u32_to_be_bytes (ret_status c) @ u32_to_be_bytes (ret_actual_length c)
     @ u32_to_be_bytes (ret_start_frame c) @ u32_to_be_bytes (ret_number_of_packets c)
     @ u32_to_be_bytes (ret_error_count c) @ ret_setup c"

definition UsbIpRetSubmit_read_from_prefix :: "UsbIpRetSubmit reader" where
  "UsbIpRetSubmit_read_from_prefix bs = do {
     (s, bs) \<leftarrow> rd_be32 bs;
     (d, bs) \<leftarrow> rd_be32 bs;
     (di, bs) \<leftarrow> rd_be32 bs;
     (e, bs) \<leftarrow> rd_be32 bs;
     (stt, bs) \<leftarrow> rd_be32 bs;
     (al, bs) \<leftarrow> rd_be32 bs;
     (sf, bs) \<leftarrow> rd_be32 bs;
     (np, bs) \<leftarrow> rd_be32 bs;
     (ec, bs) \<leftarrow> rd_be32 bs;
     (st, bs) \<leftarrow> rd_array 8 bs;
     Some (\<lparr>ret_seqnum = s, ret_devid = d, ret_direction = di, ret_ep = e, ret_status = stt,
            ret_actual_length = al, ret_start_frame = sf, ret_number_of_packets = np,
            ret_error_count = ec, ret_setup = st\<rparr>, bs)
   }"

interpretation ret: packed_struct UsbIpRetSubmit_as_bytes UsbIpRetSubmit_read_from_prefix ret_wf
  UsbIpRetSubmit_HEADER_SIZE
proof unfold_locales
  fix x :: UsbIpRetSubmit and r bs
  show "ret_wf x \<Longrightarrow> length (UsbIpRetSubmit_as_bytes x) = UsbIpRetSubmit_HEADER_SIZE"
    by (simp add: UsbIpRetSubmit_as_bytes_def UsbIpRetSubmit_HEADER_SIZE_def ret_wf_def)
  show "ret_wf x \<Longrightarrow> UsbIpRetSubmit_read_from_prefix (UsbIpRetSubmit_as_bytes x @ r) = Some (x, r)"
    by (simp add: UsbIpRetSubmit_as_bytes_def UsbIpRetSubmit_read_from_prefix_def ret_wf_def)
  show "UsbIpRetSubmit_read_from_prefix bs = Some (x, r) \<Longrightarrow>
      ret_wf x \<and> bs = UsbIpRetSubmit_as_bytes x @ r"
    by (auto simp: UsbIpRetSubmit_read_from_prefix_def UsbIpRetSubmit_as_bytes_def ret_wf_def
        reader_inv)
  show "UsbIpRetSubmit_HEADER_SIZE \<le> length bs \<Longrightarrow>
      \<exists>x. UsbIpRetSubmit_read_from_prefix bs = Some (x, drop UsbIpRetSubmit_HEADER_SIZE bs)"
    by (simp add: UsbIpRetSubmit_read_from_prefix_def UsbIpRetSubmit_HEADER_SIZE_def rd_enough)
qed (simp add: UsbIpRetSubmit_HEADER_SIZE_def)

definition ret_is_success :: "UsbIpRetSubmit \<Rightarrow> bool" where
  "ret_is_success r \<longleftrightarrow> ret_status r = 0"

definition ret_has_data :: "UsbIpRetSubmit \<Rightarrow> bool" where
  "ret_has_data r \<longleftrightarrow> ret_is_success r \<and> ret_direction r \<noteq> 0 \<and> ret_actual_length r > 0"

definition ret_wire_size :: "UsbIpRetSubmit \<Rightarrow> nat" where
  "ret_wire_size r =
     (if ret_has_data r then UsbIpRetSubmit_HEADER_SIZE + unat (ret_actual_length r)
      else UsbIpRetSubmit_HEADER_SIZE)"

section \<open>USBIP RET UNLINK\<close>

record UsbIpRetUnlink =
  ul_seqnum :: u32
  ul_devid :: u32
  ul_status :: u32

definition UsbIpRetUnlink_SIZE :: nat where "UsbIpRetUnlink_SIZE = 12"

definition UsbIpRetUnlink_as_bytes :: "UsbIpRetUnlink \<Rightarrow> bytes" where
  "UsbIpRetUnlink_as_bytes u =
     u32_to_be_bytes (ul_seqnum u) @ u32_to_be_bytes (ul_devid u) @ u32_to_be_bytes (ul_status u)"

definition UsbIpRetUnlink_read_from_prefix :: "UsbIpRetUnlink reader" where
  "UsbIpRetUnlink_read_from_prefix bs = do {
     (s, bs) \<leftarrow> rd_be32 bs;
     (d, bs) \<leftarrow> rd_be32 bs;
     (st, bs) \<leftarrow> rd_be32 bs;
     Some (\<lparr>ul_seqnum = s, ul_devid = d, ul_status = st\<rparr>, bs)
   }"

interpretation unlink: packed_struct UsbIpRetUnlink_as_bytes UsbIpRetUnlink_read_from_prefix
  "\<lambda>_. True" UsbIpRetUnlink_SIZE
proof unfold_locales
  fix x :: UsbIpRetUnlink and r bs
  show "length (UsbIpRetUnlink_as_bytes x) = UsbIpRetUnlink_SIZE"
    by (simp add: UsbIpRetUnlink_as_bytes_def UsbIpRetUnlink_SIZE_def)
  show "UsbIpRetUnlink_read_from_prefix (UsbIpRetUnlink_as_bytes x @ r) = Some (x, r)"
    by (simp add: UsbIpRetUnlink_as_bytes_def UsbIpRetUnlink_read_from_prefix_def)
  show "UsbIpRetUnlink_read_from_prefix bs = Some (x, r) \<Longrightarrow>
      True \<and> bs = UsbIpRetUnlink_as_bytes x @ r"
    by (auto simp: UsbIpRetUnlink_read_from_prefix_def UsbIpRetUnlink_as_bytes_def reader_inv)
  show "UsbIpRetUnlink_SIZE \<le> length bs \<Longrightarrow>
      \<exists>x. UsbIpRetUnlink_read_from_prefix bs = Some (x, drop UsbIpRetUnlink_SIZE bs)"
    by (simp add: UsbIpRetUnlink_read_from_prefix_def UsbIpRetUnlink_SIZE_def rd_enough)
qed (simp add: UsbIpRetUnlink_SIZE_def)

lemma urb_lengths [simp, wire_simps]:
  "cmd_wf c \<Longrightarrow> length (UsbIpCmdSubmit_as_bytes c) = 44"
  "ret_wf r \<Longrightarrow> length (UsbIpRetSubmit_as_bytes r) = 44"
  "length (UsbIpRetUnlink_as_bytes u) = 12"
  using cmd.enc_length ret.enc_length unlink.enc_length
  by (simp_all add: UsbIpCmdSubmit_size_of_def UsbIpRetSubmit_HEADER_SIZE_def UsbIpRetUnlink_SIZE_def)

lemma urb_read_written [simp, wire_simps]:
  "cmd_wf c \<Longrightarrow> UsbIpCmdSubmit_read_from_prefix (UsbIpCmdSubmit_as_bytes c @ s) = Some (c, s)"
  "ret_wf r \<Longrightarrow> UsbIpRetSubmit_read_from_prefix (UsbIpRetSubmit_as_bytes r @ s) = Some (r, s)"
  "UsbIpRetUnlink_read_from_prefix (UsbIpRetUnlink_as_bytes u @ s) = Some (u, s)"
  by (simp_all add: cmd.dec_enc ret.dec_enc unlink.dec_enc)

lemma urb_read_written_exact [simp, wire_simps]:
  "cmd_wf c \<Longrightarrow> UsbIpCmdSubmit_read_from_prefix (UsbIpCmdSubmit_as_bytes c) = Some (c, [])"
  "ret_wf r \<Longrightarrow> UsbIpRetSubmit_read_from_prefix (UsbIpRetSubmit_as_bytes r) = Some (r, [])"
  "UsbIpRetUnlink_read_from_prefix (UsbIpRetUnlink_as_bytes u) = Some (u, [])"
  by (simp_all add: cmd.dec_enc_exact ret.dec_enc_exact unlink.dec_enc_exact)

section \<open>Messages and buffers\<close>

record UsbIpMessage =
  msg_header :: UsbIpHeader
  payload :: bytes

definition as_cmd_submit :: "UsbIpMessage \<Rightarrow> UsbIpCmdSubmit option" where
  "as_cmd_submit m =
     (if command (msg_header m) \<noteq> USBIP_CMD_SUBMIT then None
      else map_option fst (UsbIpCmdSubmit_read_from_prefix (payload m)))"

definition as_ret_submit :: "UsbIpMessage \<Rightarrow> UsbIpRetSubmit option" where
  "as_ret_submit m =
     (if command (msg_header m) \<noteq> USBIP_RET_SUBMIT then None
      else map_option fst (UsbIpRetSubmit_read_from_prefix (payload m)))"

definition as_ret_unlink :: "UsbIpMessage \<Rightarrow> UsbIpRetUnlink option" where
  "as_ret_unlink m =
     (if command (msg_header m) \<noteq> USBIP_RET_UNLINK then None
      else map_option fst (UsbIpRetUnlink_read_from_prefix (payload m)))"

record UrbBuffer =
  urb_buf :: bytes
  data_offset :: nat
  data_capacity :: nat

definition UrbBuffer_new :: "nat \<Rightarrow> UrbBuffer" where
  "UrbBuffer_new cap =
     (let header_size = UsbIpCmdSubmit_HEADER_SIZE + UsbIpHeader_SIZE; total = header_size + cap
      in \<lparr>urb_buf = replicate total 0, data_offset = header_size, data_capacity = cap\<rparr>)"

definition UrbBuffer_reset :: "UrbBuffer \<Rightarrow> UrbBuffer" where
  "UrbBuffer_reset b = b\<lparr>urb_buf := replicate (length (urb_buf b)) 0\<rparr>"

section \<open>Replies\<close>

definition reply_of :: "UsbIpCmdSubmit \<Rightarrow> i32 \<Rightarrow> u32 \<Rightarrow> UsbIpRetSubmit" where
  "reply_of cmd st al =
     \<lparr>ret_seqnum = cmd_seqnum cmd, ret_devid = cmd_devid cmd, ret_direction = cmd_direction cmd,
      ret_ep = cmd_ep cmd, ret_status = st, ret_actual_length = al,
      ret_start_frame = cmd_start_frame cmd, ret_number_of_packets = cmd_number_of_packets cmd,
      ret_error_count = (if st = 0 then 0 else 1), ret_setup = cmd_setup cmd\<rparr>"

definition serialize_reply_into ::
  "bytes \<Rightarrow> UsbIpCmdSubmit \<Rightarrow> i32 \<Rightarrow> u32 \<Rightarrow> bytes \<Rightarrow> bytes \<times> nat" where
  "serialize_reply_into buf0 cmd st al data =
     (let start = length buf0;
          buf1 = buf0 @ UsbIpHeader_as_bytes (UsbIpHeader_new USBIP_RET_SUBMIT);
          buf2 = buf1 @ UsbIpRetSubmit_as_bytes (reply_of cmd st al);
          buf3 = buf2 @ data
      in (buf3, length buf3 - start))"

definition serialize_reply :: "UsbIpCmdSubmit \<Rightarrow> i32 \<Rightarrow> u32 \<Rightarrow> bytes \<Rightarrow> bytes" where
  "serialize_reply cmd st al data = fst (serialize_reply_into [] cmd st al data)"

definition serialize_ret_submit :: "UsbIpRetSubmit \<Rightarrow> bytes \<Rightarrow> bytes" where
  "serialize_ret_submit r data =
     UsbIpHeader_as_bytes (UsbIpHeader_new USBIP_RET_SUBMIT) @ UsbIpRetSubmit_as_bytes r @ data"

lemma reply_of_wf [simp]: "ret_wf (reply_of cmd st al) = cmd_wf cmd"
  by (simp add: ret_wf_def cmd_wf_def reply_of_def)

lemma serialize_reply_eq:
  "serialize_reply cmd st al data = serialize_ret_submit (reply_of cmd st al) data"
  by (simp add: serialize_reply_def serialize_reply_into_def serialize_ret_submit_def Let_def)

lemma serialize_reply_into_eq:
  "serialize_reply_into buf0 cmd st al data =
     (buf0 @ serialize_reply cmd st al data, length (serialize_reply cmd st al data))"
  by (simp add: serialize_reply_into_def serialize_reply_def Let_def)

lemma length_serialize_reply [simp]:
  "cmd_wf cmd \<Longrightarrow> length (serialize_reply cmd st al data) = 52 + length data"
  by (simp add: serialize_reply_eq serialize_ret_submit_def)

lemma UrbBuffer_reset_new: "UrbBuffer_reset (UrbBuffer_new cap) = UrbBuffer_new cap"
  by (simp add: UrbBuffer_reset_def UrbBuffer_new_def Let_def)

end
