(* ===== verification/Pool.thy ===== *)
theory Pool
  imports Usbip_Urb Complex_Main
begin

text \<open>
  \<^verbatim>\<open>shared/usbip-core/src/pool.rs\<close>: the pool of reusable URB buffers. The bounded
  lock-free queue is crossbeam's, so it is a parameter \<open>Q\<close>, a record of the operations the
  pool calls, and \<open>array_queue_contract\<close> states its documented behaviour (a bounded
  FIFO). The clock is the argument \<open>now\<close> (seconds), and \<open>rnd\<close> is the rounding of
  the \<^verbatim>\<open>f64\<close> operations. A holder of a buffer writes through the mutable slice, which
  keeps its length.
\<close>

record 'q array_queue =
  aq_new :: "nat \<Rightarrow> 'q"
  aq_push :: "'q \<Rightarrow> UrbBuffer \<Rightarrow> 'q \<times> bool"
  aq_pop :: "'q \<Rightarrow> 'q \<times> UrbBuffer option"
  aq_len :: "'q \<Rightarrow> nat"
  aq_capacity :: "'q \<Rightarrow> nat"

definition array_queue_contract :: "'q array_queue \<Rightarrow> ('q \<Rightarrow> UrbBuffer list) \<Rightarrow> bool" where
  "array_queue_contract Q content \<longleftrightarrow>
     (\<forall>n. content (aq_new Q n) = [] \<and> aq_capacity Q (aq_new Q n) = n)
     \<and> (\<forall>q b. aq_capacity Q (fst (aq_push Q q b)) = aq_capacity Q q
          \<and> snd (aq_push Q q b) = (length (content q) < aq_capacity Q q)
          \<and> content (fst (aq_push Q q b))
              = (if length (content q) < aq_capacity Q q then content q @ [b] else content q))
     \<and> (\<forall>q. aq_capacity Q (fst (aq_pop Q q)) = aq_capacity Q q
          \<and> snd (aq_pop Q q) = (case content q of [] \<Rightarrow> None | b # _ \<Rightarrow> Some b)
          \<and> content (fst (aq_pop Q q)) = tl (content q))
     \<and> (\<forall>q. aq_len Q q = length (content q))"

definition DEFAULT_MIN_POOL_SIZE :: nat where "DEFAULT_MIN_POOL_SIZE = 1024"
definition DEFAULT_BULK_CAPACITY :: nat where "DEFAULT_BULK_CAPACITY = 16 * 1024"
definition DEFAULT_INTERRUPT_CAPACITY :: nat where "DEFAULT_INTERRUPT_CAPACITY = 64"
definition EWMA_ALPHA :: real where "EWMA_ALPHA = 1 / 8"

record 'q UrbBufferPool =
  pool_queue :: 'q
  pool_data_capacity :: nat
  ewma_rate :: real
  last_record :: "real option"
  window_count :: nat
  min_size :: nat
  max_size :: nat

record PooledBuffer =
  pb_inner :: "UrbBuffer option"
  pb_pool :: bool

text \<open>\<open>push_fresh n\<close> pushes up to \<open>n\<close> new buffers and stops at a full queue when
  \<open>stop\<close> says so; the constructor ignores failed pushes.\<close>

fun push_fresh :: "'q array_queue \<Rightarrow> bool \<Rightarrow> nat \<Rightarrow> nat \<Rightarrow> 'q \<Rightarrow> 'q" where
  "push_fresh Q stop cap 0 q = q"
| "push_fresh Q stop cap (Suc n) q =
     (let (q', ok) = aq_push Q q (UrbBuffer_new cap) in
      if stop \<and> \<not> ok then q' else push_fresh Q stop cap n q')"

definition UrbBufferPool_new :: "'q array_queue \<Rightarrow> nat \<Rightarrow> nat \<Rightarrow> 'q UrbBufferPool" where
  "UrbBufferPool_new Q cap min_n =
     (let max_n = max (min_n * 4) 4096;
          queue = push_fresh Q False cap min_n (aq_new Q max_n)
      in \<lparr>pool_queue = queue, pool_data_capacity = cap, ewma_rate = 0, last_record = None,
          window_count = 0, min_size = min_n, max_size = max_n\<rparr>)"

definition new_bulk :: "'q array_queue \<Rightarrow> nat \<Rightarrow> 'q UrbBufferPool" where
  "new_bulk Q min_n = UrbBufferPool_new Q DEFAULT_BULK_CAPACITY min_n"

definition new_interrupt :: "'q array_queue \<Rightarrow> nat \<Rightarrow> 'q UrbBufferPool" where
  "new_interrupt Q min_n = UrbBufferPool_new Q DEFAULT_INTERRUPT_CAPACITY min_n"

definition acquire :: "'q array_queue \<Rightarrow> 'q UrbBufferPool \<Rightarrow> 'q UrbBufferPool \<times> PooledBuffer" where
  "acquire Q p =
     (let (q, r) = aq_pop Q (pool_queue p);
          b = (case r of Some b \<Rightarrow> b | None \<Rightarrow> UrbBuffer_new (pool_data_capacity p))
      in (p\<lparr>pool_queue := q\<rparr>, \<lparr>pb_inner = Some b, pb_pool = True\<rparr>))"

text \<open>The saturating cast of a non-negative \<^verbatim>\<open>f64\<close> to \<^verbatim>\<open>usize\<close>.\<close>

definition f64_as_usize :: "real \<Rightarrow> nat" where
  "f64_as_usize x = min (nat \<lfloor>x\<rfloor>) (2 ^ 64 - 1)"

definition record_urb ::
  "'q array_queue \<Rightarrow> (real \<Rightarrow> real) \<Rightarrow> real \<Rightarrow> 'q UrbBufferPool \<Rightarrow> 'q UrbBufferPool" where
  "record_urb Q rnd now p0 =
     (let p = p0\<lparr>window_count := window_count p0 + 1\<rparr> in
      case last_record p of
        None \<Rightarrow> p\<lparr>last_record := Some now\<rparr>
      | Some last_t \<Rightarrow>
        (let elapsed = rnd (now - last_t) in
         if elapsed < 1 then p
         else
           (let observed_rate = rnd (real (window_count p) / elapsed);
                rate = (if ewma_rate p = 0 then observed_rate
                        else rnd (rnd (EWMA_ALPHA * observed_rate)
                                  + rnd (rnd (1 - EWMA_ALPHA) * ewma_rate p)));
                target = f64_as_usize (of_int \<lceil>rnd (rate * 2)\<rceil>);
                desired = min (max target (min_size p)) (max_size p);
                current_count = aq_len Q (pool_queue p);
                queue = (if desired > current_count
                         then push_fresh Q True (pool_data_capacity p) (desired - current_count)
                                (pool_queue p)
                         else pool_queue p)
            in p\<lparr>pool_queue := queue, ewma_rate := rate, window_count := 0,
                 last_record := Some now\<rparr>)))"

definition available :: "'q array_queue \<Rightarrow> 'q UrbBufferPool \<Rightarrow> nat" where
  "available Q p = aq_len Q (pool_queue p)"

definition pool_capacity :: "'q array_queue \<Rightarrow> 'q UrbBufferPool \<Rightarrow> nat" where
  "pool_capacity Q p = aq_capacity Q (pool_queue p)"

definition pb_as_slice :: "PooledBuffer \<Rightarrow> bytes outcome" where
  "pb_as_slice h = (case pb_inner h of Some b \<Rightarrow> Ret (urb_buf b) | None \<Rightarrow> Panic)"

definition pb_write :: "PooledBuffer \<Rightarrow> bytes \<Rightarrow> PooledBuffer" where
  "pb_write h bs = h\<lparr>pb_inner := map_option (\<lambda>b. b\<lparr>urb_buf := bs\<rparr>) (pb_inner h)\<rparr>"

definition pb_data_capacity :: "PooledBuffer \<Rightarrow> nat outcome" where
  "pb_data_capacity h = (case pb_inner h of Some b \<Rightarrow> Ret (data_capacity b) | None \<Rightarrow> Panic)"

definition pb_data_offset :: "PooledBuffer \<Rightarrow> nat outcome" where
  "pb_data_offset h = (case pb_inner h of Some b \<Rightarrow> Ret (data_offset b) | None \<Rightarrow> Panic)"

text \<open>Taking the buffer out leaves an empty wrapper, which is then dropped.\<close>

definition pb_take :: "PooledBuffer \<Rightarrow> (UrbBuffer \<times> PooledBuffer) outcome" where
  "pb_take h = (case pb_inner h of Some b \<Rightarrow> Ret (b, h\<lparr>pb_inner := None\<rparr>) | None \<Rightarrow> Panic)"

definition pb_reset :: "PooledBuffer \<Rightarrow> PooledBuffer" where
  "pb_reset h = h\<lparr>pb_inner := map_option UrbBuffer_reset (pb_inner h)\<rparr>"

definition pb_drop :: "'q array_queue \<Rightarrow> 'q UrbBufferPool \<Rightarrow> PooledBuffer \<Rightarrow> 'q UrbBufferPool" where
  "pb_drop Q p h =
     (case pb_inner h of
        None \<Rightarrow> p
      | Some b \<Rightarrow>
        if pb_pool h then p\<lparr>pool_queue := fst (aq_push Q (pool_queue p) (UrbBuffer_reset b))\<rparr> else p)"

section \<open>The pool and its outstanding buffers\<close>

inductive pool_step ::
  "'q array_queue \<Rightarrow> (real \<Rightarrow> real) \<Rightarrow> 'q UrbBufferPool \<times> PooledBuffer list
   \<Rightarrow> 'q UrbBufferPool \<times> PooledBuffer list \<Rightarrow> bool"
  for Q :: "'q array_queue" and rnd :: "real \<Rightarrow> real" where
  step_acquire: "acquire Q p = (p', h) \<Longrightarrow> pool_step Q rnd (p, hs) (p', hs @ [h])"
| step_write: "i < length hs \<Longrightarrow> pb_as_slice (hs ! i) = Ret old \<Longrightarrow> length bs = length old \<Longrightarrow>
     pool_step Q rnd (p, hs) (p, hs[i := pb_write (hs ! i) bs])"
| step_reset: "i < length hs \<Longrightarrow> pool_step Q rnd (p, hs) (p, hs[i := pb_reset (hs ! i)])"
| step_drop: "pool_step Q rnd (p, hs @ h # hs') (pb_drop Q p h, hs @ hs')"
| step_take: "pb_take h = Ret (b, h') \<Longrightarrow>
     pool_step Q rnd (p, hs @ h # hs') (pb_drop Q p h', hs @ hs')"
| step_record: "pool_step Q rnd (p, hs) (record_urb Q rnd now p, hs)"

inductive_cases pool_stepE: "pool_step Q rnd s s'"

definition pooled_ok :: "nat \<Rightarrow> PooledBuffer \<Rightarrow> bool" where
  "pooled_ok cap h \<longleftrightarrow>
     (case pb_inner h of None \<Rightarrow> False | Some b \<Rightarrow> UrbBuffer_reset b = UrbBuffer_new cap)"

definition pool_inv ::
  "'q array_queue \<Rightarrow> ('q \<Rightarrow> UrbBuffer list) \<Rightarrow> nat \<Rightarrow> 'q UrbBufferPool \<times> PooledBuffer list \<Rightarrow> bool" where
  "pool_inv Q content cap s \<longleftrightarrow>
     pool_data_capacity (fst s) = cap
     \<and> list_all (\<lambda>b. b = UrbBuffer_new cap) (content (pool_queue (fst s)))
     \<and> length (content (pool_queue (fst s))) \<le> max_size (fst s)
     \<and> aq_capacity Q (pool_queue (fst s)) = max_size (fst s)
     \<and> min_size (fst s) \<le> max_size (fst s)
     \<and> list_all (pooled_ok cap) (snd s)"

lemma pool_inv_update:
  "pool_inv Q content cap (p, hs) \<Longrightarrow> pooled_ok cap h \<Longrightarrow> pool_inv Q content cap (p, hs[i := h])"
  by (auto simp: pool_inv_def list_all_iff dest: subsetD [OF set_update_subset_insert])

lemma pooled_ok_nth:
  "pool_inv Q content cap (p, hs) \<Longrightarrow> i < length hs \<Longrightarrow> pooled_ok cap (hs ! i)"
  by (simp add: pool_inv_def list_all_length)

text \<open>The pool over any bounded queue.\<close>

locale bounded_queue =
  fixes Q :: "'q array_queue" and content :: "'q \<Rightarrow> UrbBuffer list"
  assumes contract: "array_queue_contract Q content"
begin

lemma contract_push:
  shows "aq_capacity Q (fst (aq_push Q q b)) = aq_capacity Q q"
    and "snd (aq_push Q q b) = (length (content q) < aq_capacity Q q)"
    and "content (fst (aq_push Q q b))
      = (if length (content q) < aq_capacity Q q then content q @ [b] else content q)"
  using contract by (simp_all add: array_queue_contract_def)

lemma contract_pop:
  shows "aq_capacity Q (fst (aq_pop Q q)) = aq_capacity Q q"
    and "snd (aq_pop Q q) = (case content q of [] \<Rightarrow> None | b # _ \<Rightarrow> Some b)"
    and "content (fst (aq_pop Q q)) = tl (content q)"
  using contract by (simp_all add: array_queue_contract_def)

lemma contract_new_len:
  shows "content (aq_new Q n) = []" "aq_capacity Q (aq_new Q n) = n"
    "aq_len Q q = length (content q)"
  using contract by (simp_all add: array_queue_contract_def)

text \<open>Pushing fresh buffers adds as many as fit.\<close>

lemma push_fresh_content:
  assumes fits: "length (content q) \<le> aq_capacity Q q"
  shows "aq_capacity Q (push_fresh Q stop cap n q) = aq_capacity Q q \<and>
    content (push_fresh Q stop cap n q)
      = content q @ replicate (min n (aq_capacity Q q - length (content q))) (UrbBuffer_new cap)"
  using fits
proof (induction n arbitrary: q)
  case (Suc n)
  let ?q = "fst (aq_push Q q (UrbBuffer_new cap))"
  have le: "length (content ?q) \<le> aq_capacity Q ?q"
    using Suc.prems by (simp add: contract_push)
  show ?case
  proof (cases "length (content q) < aq_capacity Q q")
    case True
    have step: "push_fresh Q stop cap (Suc n) q = push_fresh Q stop cap n ?q"
      using True by (simp add: contract_push Let_def case_prod_beta)
    have "min (Suc n) (aq_capacity Q q - length (content q))
        = Suc (min n (aq_capacity Q q - Suc (length (content q))))"
      using True by simp
    then show ?thesis
      using Suc.IH [OF le] True unfolding step by (simp add: contract_push)
  next
    case False
    have "push_fresh Q stop cap (Suc n) q = ?q \<or>
        push_fresh Q stop cap (Suc n) q = push_fresh Q stop cap n ?q"
      by (simp add: Let_def case_prod_beta)
    then show ?thesis
      using Suc.IH [OF le] False Suc.prems by (auto simp: contract_push)
  qed
qed simp


lemma push_fresh_inv:
  assumes fits: "length (content q) \<le> aq_capacity Q q"
    and fresh: "list_all (\<lambda>b. b = UrbBuffer_new cap) (content q)"
  shows "list_all (\<lambda>b. b = UrbBuffer_new cap) (content (push_fresh Q stop cap n q))"
    and "length (content (push_fresh Q stop cap n q)) \<le> aq_capacity Q q"
    and "aq_capacity Q (push_fresh Q stop cap n q) = aq_capacity Q q"
  using push_fresh_content [OF fits, of stop cap n] fits fresh by (auto simp: list_all_iff)

lemma pool_inv_new:
  shows "pool_inv Q content cap (UrbBufferPool_new Q cap n, [])"
proof -
  let ?m = "max (n * 4) 4096"
  have "content (push_fresh Q False cap n (aq_new Q ?m)) = replicate (min n ?m) (UrbBuffer_new cap)
    \<and> aq_capacity Q (push_fresh Q False cap n (aq_new Q ?m)) = ?m"
    using push_fresh_content [of "aq_new Q ?m" False cap n] by (simp add: contract_new_len)
  then show ?thesis
    by (simp add: pool_inv_def UrbBufferPool_new_def Let_def list_all_iff)
qed

lemma pool_inv_acquire:
  assumes inv: "pool_inv Q content cap (p, hs)"
    and acq: "acquire Q p = (p', h)"
  shows "pool_inv Q content cap (p', hs @ [h])" and "h = \<lparr>pb_inner = Some (UrbBuffer_new cap), pb_pool = True\<rparr>"
proof -
  have fresh: "b = UrbBuffer_new cap" if "content (pool_queue p) = b # bs" for b bs
    using inv that by (simp add: pool_inv_def)
  show h: "h = \<lparr>pb_inner = Some (UrbBuffer_new cap), pb_pool = True\<rparr>"
    using acq inv fresh
    by (auto simp: acquire_def Let_def case_prod_beta contract_pop pool_inv_def split: list.splits)
  have p': "p' = p\<lparr>pool_queue := fst (aq_pop Q (pool_queue p))\<rparr>"
    using acq by (auto simp: acquire_def Let_def case_prod_beta)
  show "pool_inv Q content cap (p', hs @ [h])"
    using inv unfolding h p'
    by (cases "content (pool_queue p)")
      (auto simp: pool_inv_def contract_pop pooled_ok_def UrbBuffer_reset_new)
qed

lemma pool_inv_drop:
  assumes inv: "pool_inv Q content cap (p, hs)"
    and h: "pb_inner h = None \<or> pooled_ok cap h"
  shows "pool_inv Q content cap (pb_drop Q p h, hs)"
  using inv h
  by (auto simp: pool_inv_def pb_drop_def pooled_ok_def contract_push split: option.splits)

lemma pool_inv_record:
  assumes inv: "pool_inv Q content cap (p, hs)"
  shows "pool_inv Q content cap (record_urb Q rnd now p, hs)"
proof -
  note * = push_fresh_inv [of "pool_queue p" cap True]
  show ?thesis
    using inv *
    by (auto simp: pool_inv_def record_urb_def Let_def split: option.splits)
qed

lemma pool_inv_step:
  assumes step: "pool_step Q rnd s s'"
    and inv: "pool_inv Q content cap s"
  shows "pool_inv Q content cap s'"
  using step inv
proof cases
  case (step_acquire p p' h hs)
  then show ?thesis using pool_inv_acquire inv by blast
next
  case (step_write i hs old bs p)
  then have "pooled_ok cap (pb_write (hs ! i) bs)"
    using pooled_ok_nth inv
    by (fastforce simp: pooled_ok_def pb_write_def pb_as_slice_def UrbBuffer_reset_def split: option.splits)
  then show ?thesis using step_write inv pool_inv_update by blast
next
  case (step_reset i hs p)
  then have "pooled_ok cap (pb_reset (hs ! i))"
    using pooled_ok_nth inv
    by (fastforce simp: pooled_ok_def pb_reset_def UrbBuffer_reset_new split: option.splits)
  then show ?thesis using step_reset inv pool_inv_update by blast
next
  case (step_drop p hs h hs')
  then have "pool_inv Q content cap (p, hs @ hs')" "pooled_ok cap h"
    using inv by (auto simp: pool_inv_def)
  then show ?thesis using step_drop pool_inv_drop by simp
next
  case (step_take h b h' p hs hs')
  then have "pool_inv Q content cap (p, hs @ hs')" "pb_inner h' = None"
    using inv by (auto simp: pool_inv_def pb_take_def split: option.splits)
  then show ?thesis using step_take pool_inv_drop by simp
next
  case (step_record p hs now)
  then show ?thesis using pool_inv_record inv by simp
qed

lemma pool_inv_reachable:
  assumes reach: "(pool_step Q rnd)\<^sup>*\<^sup>* (UrbBufferPool_new Q cap n, []) s"
  shows "pool_inv Q content cap s"
  using reach
proof (induction rule: rtranclp_induct)
  case base
  show ?case by (rule pool_inv_new)
next
  case (step y z)
  then show ?case using pool_inv_step by blast
qed

text \<open>A measurement (a recorded URB at least one second after the last one) leaves the pool
  with at least \<open>min_size\<close> buffers ready and never with more than \<open>max_size\<close>, whatever
  the measured rate and its rounding.\<close>

lemma pool_record_replenishes:
  assumes inv: "pool_inv Q content cap (p, hs)"
    and "last_record p = Some last_t" "1 \<le> rnd (now - last_t)"
  shows "min_size p \<le> available Q (record_urb Q rnd now p)
    \<and> available Q (record_urb Q rnd now p) \<le> max_size p"
proof -
  have fits: "length (content (pool_queue p)) \<le> aq_capacity Q (pool_queue p)"
    using inv by (simp add: pool_inv_def)
  have filled: "length (content (push_fresh Q True cap (d - length (content (pool_queue p))) (pool_queue p)))
      = d" if "length (content (pool_queue p)) < d" "d \<le> max_size p" for d
    using that push_fresh_content [OF fits] inv by (simp add: pool_inv_def)
  show ?thesis
    using assms(2,3) inv
    by (auto simp: available_def record_urb_def Let_def contract_new_len pool_inv_def filled)
qed

end

text \<open>A queue of the documented kind, for the witnesses: a list with its capacity.\<close>

definition list_queue :: "(UrbBuffer list \<times> nat) array_queue" where
  "list_queue = \<lparr>
     aq_new = (\<lambda>n. ([], n)),
     aq_push = (\<lambda>(bs, n) b. if length bs < n then ((bs @ [b], n), True) else ((bs, n), False)),
     aq_pop = (\<lambda>(bs, n). case bs of [] \<Rightarrow> (([], n), None) | b # r \<Rightarrow> ((r, n), Some b)),
     aq_len = (\<lambda>(bs, n). length bs),
     aq_capacity = snd\<rparr>"

lemma list_queue_contract: "array_queue_contract list_queue fst"
  by (auto simp: array_queue_contract_def list_queue_def split: list.splits)

interpretation listq: bounded_queue list_queue fst
  by unfold_locales (rule list_queue_contract)

text \<open>C21: In every state reached from a new pool by acquiring, writing through, resetting,
  dropping and taking buffers and by recording URBs, the next acquired buffer is a fresh zeroed
  buffer of the configured capacity: nothing a previous holder wrote leaks to the next.\<close>

theorem pool_acquire_zeroed:
  assumes "array_queue_contract Q content"
    and "(pool_step Q rnd)\<^sup>*\<^sup>* (UrbBufferPool_new Q cap n, []) (p, hs)"
    and "acquire Q p = (p', h)"
  shows "pb_inner h = Some (UrbBuffer_new cap)"
proof -
  have Q: "bounded_queue Q content" by (rule bounded_queue.intro [OF assms(1)])
  show ?thesis
    using bounded_queue.pool_inv_acquire(2) [OF Q _ assms(3)] bounded_queue.pool_inv_reachable [OF Q assms(2)]
    by simp
qed

theorem pool_acquire_zeroed_witness:
  "\<exists>p h p' h'. pool_step list_queue (\<lambda>x. x) (UrbBufferPool_new list_queue 1 1, []) (p, [h])
     \<and> pool_step list_queue (\<lambda>x. x) (p, [pb_write h (replicate 57 7)])
         (pb_drop list_queue p (pb_write h (replicate 57 7)), [])
     \<and> acquire list_queue (pb_drop list_queue p (pb_write h (replicate 57 7))) = (p', h')
     \<and> pb_inner h' = Some (UrbBuffer_new 1)"
proof -
  let ?p0 = "UrbBufferPool_new list_queue 1 1"
  obtain p h where a: "acquire list_queue ?p0 = (p, h)" by fastforce
  have h: "h = \<lparr>pb_inner = Some (UrbBuffer_new 1), pb_pool = True\<rparr>"
    using listq.pool_inv_acquire(2) [OF listq.pool_inv_new a] .
  let ?h = "pb_write h (replicate 57 7)"
  obtain p' h' where a': "acquire list_queue (pb_drop list_queue p ?h) = (p', h')" by fastforce
  have s1: "pool_step list_queue (\<lambda>x. x) (?p0, []) (p, [h])"
    using step_acquire [OF a, where hs = "[]"] by simp
  have s2: "pool_step list_queue (\<lambda>x. x) (p, [h]) (p, [?h])"
    using step_write [where i = 0 and hs = "[h]" and old = "urb_buf (UrbBuffer_new 1)"
        and bs = "replicate 57 7"]
    by (simp add: h pb_as_slice_def)
      (simp add: UrbBuffer_new_def Let_def UsbIpCmdSubmit_HEADER_SIZE_def UsbIpHeader_SIZE_def)
  have s3: "pool_step list_queue (\<lambda>x. x) (p, [?h]) (pb_drop list_queue p ?h, [])"
    using step_drop [where hs = "[]" and hs' = "[]"] by simp
  have "(pool_step list_queue (\<lambda>x. x))\<^sup>*\<^sup>* (?p0, []) (pb_drop list_queue p ?h, [])"
    using s1 s2 s3 by (meson converse_rtranclp_into_rtranclp rtranclp.rtrancl_refl)
  from pool_acquire_zeroed [OF list_queue_contract this a'] show ?thesis
    using s1 s3 a' by blast
qed

text \<open>On the list queue, one measurement fills the pool.\<close>

lemma pool_record_list:
  "min_size ((UrbBufferPool_new list_queue 1 2)\<lparr>last_record := Some 0\<rparr>)
     \<le> available list_queue (record_urb list_queue (\<lambda>x. x) 2
          ((UrbBufferPool_new list_queue 1 2)\<lparr>last_record := Some 0\<rparr>))
   \<and> available list_queue (record_urb list_queue (\<lambda>x. x) 2
          ((UrbBufferPool_new list_queue 1 2)\<lparr>last_record := Some 0\<rparr>))
     \<le> max_size ((UrbBufferPool_new list_queue 1 2)\<lparr>last_record := Some 0\<rparr>)"
proof -
  have "pool_inv list_queue fst 1 ((UrbBufferPool_new list_queue 1 2)\<lparr>last_record := Some 0\<rparr>, [])"
    using listq.pool_inv_new [of 1 2] by (simp add: pool_inv_def)
  from listq.pool_record_replenishes [OF this, of 0 "\<lambda>x. x" 2] show ?thesis by simp
qed

end
