(* ===== verification/Wire_Codec.thy ===== *)
theory Wire_Codec
  imports Usbip_Urb
begin

text \<open>
  \<^verbatim>\<open>shared/usbip-core/src/wire.rs\<close>: the unprefixed framing of the URB phase, over a model
  of one end of a TCP connection. The connection is what the peer delivers until it stops
  (\<open>rx\<close>, then reads fail with \<open>rx_end\<close>), what was written (\<open>tx\<close>), and how many
  further writes succeed (\<open>tx_ok\<close>; \<open>None\<close> for all of them) before they fail with
  \<open>tx_end\<close>. A read that cannot be filled consumes what is left, as
  \<^verbatim>\<open>AsyncReadExt::read_exact\<close> does; flushing a TCP stream does nothing.
\<close>

type_synonym SocketAddr = string

record tcp =
  rx :: bytes
  rx_end :: io_error
  tx :: bytes
  tx_ok :: "nat option"
  tx_end :: io_error

definition read_exact :: "nat \<Rightarrow> tcp \<Rightarrow> bytes UsbIpResult \<times> tcp" where
  "read_exact n t =
     (if n \<le> length (rx t) then (Inr (take n (rx t)), t\<lparr>rx := drop n (rx t)\<rparr>)
      else (Inl (Io (rx_end t)), t\<lparr>rx := []\<rparr>))"

definition write_all :: "bytes \<Rightarrow> tcp \<Rightarrow> unit UsbIpResult \<times> tcp" where
  "write_all bs t =
     (case tx_ok t of
        None \<Rightarrow> (Inr (), t\<lparr>tx := tx t @ bs\<rparr>)
      | Some n \<Rightarrow> (if n = 0 then (Inl (Io (tx_end t)), t)
                  else (Inr (), t\<lparr>tx := tx t @ bs, tx_ok := Some (n - 1)\<rparr>)))"

text \<open>
  Stream computations with an error: \<open>stream_bind\<close> is the question-mark operator.
\<close>

type_synonym 'a stream_op = "tcp \<Rightarrow> 'a UsbIpResult \<times> tcp"

definition stream_ret :: "'a \<Rightarrow> 'a stream_op" where
  "stream_ret a t = (Inr a, t)"

definition stream_fail :: "ErrorKind \<Rightarrow> 'a stream_op" where
  "stream_fail e t = (Inl e, t)"

definition stream_bind :: "'a stream_op \<Rightarrow> ('a \<Rightarrow> 'b stream_op) \<Rightarrow> 'b stream_op" where
  "stream_bind m f t = (case m t of (Inl e, t') \<Rightarrow> (Inl e, t') | (Inr a, t') \<Rightarrow> f a t')"

definition read_message :: "bytes stream_op" where
  "read_message =
     stream_bind (read_exact UsbIpHeader_SIZE) (\<lambda>buf.
     case UsbIpHeader_read_from_prefix buf of
       None \<Rightarrow> stream_fail (InvalidMessage ''truncated header'')
     | Some (header, _) \<Rightarrow>
     if command header = USBIP_CMD_SUBMIT then
       stream_bind (read_exact UsbIpCmdSubmit_HEADER_SIZE) (\<lambda>rest.
       case UsbIpCmdSubmit_read_from_prefix rest of
         None \<Rightarrow> stream_fail (InvalidMessage ''truncated CMD_SUBMIT'')
       | Some (cmd, _) \<Rightarrow>
         if \<not> cmd_is_in cmd \<and> cmd_data_len cmd > 0 then
           stream_bind (read_exact (unat (cmd_data_len cmd)))
             (\<lambda>data. stream_ret (buf @ rest @ data))
         else stream_ret (buf @ rest))
     else if command header = USBIP_RET_SUBMIT then
       stream_bind (read_exact UsbIpRetSubmit_HEADER_SIZE) (\<lambda>rest.
       case UsbIpRetSubmit_read_from_prefix rest of
         None \<Rightarrow> stream_fail (InvalidMessage ''truncated RET_SUBMIT'')
       | Some (ret, _) \<Rightarrow>
         if ret_has_data ret then
           stream_bind (read_exact (unat (ret_actual_length ret)))
             (\<lambda>data. stream_ret (buf @ rest @ data))
         else stream_ret (buf @ rest))
     else if command header = USBIP_RET_UNLINK then
       stream_bind (read_exact UsbIpRetUnlink_SIZE) (\<lambda>rest. stream_ret (buf @ rest))
     else stream_ret buf)"

definition write_message :: "bytes \<Rightarrow> unit stream_op" where
  "write_message msg = write_all msg"

lemmas wire_size_defs = UsbIpHeader_SIZE_def UsbIpCmdSubmit_HEADER_SIZE_def
  UsbIpRetSubmit_HEADER_SIZE_def UsbIpRetUnlink_SIZE_def

section \<open>Exact consumption\<close>

lemma stream_bind_Inr:
  "stream_bind m f t = (Inr b, t'') \<longleftrightarrow> (\<exists>a t'. m t = (Inr a, t') \<and> f a t' = (Inr b, t''))"
  by (auto simp: stream_bind_def split: prod.splits sum.splits)

lemma read_exact_Inr:
  "read_exact n t = (Inr bs, t') \<longleftrightarrow> rx t = bs @ rx t' \<and> length bs = n \<and> t' = t\<lparr>rx := rx t'\<rparr>"
  by (auto simp: read_exact_def)

lemma read_exact_available [simp]:
  "length a = n \<Longrightarrow> read_exact n (t\<lparr>rx := a @ r\<rparr>) = (Inr a, t\<lparr>rx := r\<rparr>)"
  by (simp add: read_exact_def)

lemma read_exact_front:
  "rx t = a @ r \<Longrightarrow> length a = n \<Longrightarrow> read_exact n t = (Inr a, t\<lparr>rx := r\<rparr>)"
  by (simp add: read_exact_def)

lemma read_exact_short:
  "length (rx t) < n \<Longrightarrow> read_exact n t = (Inl (Io (rx_end t)), t\<lparr>rx := []\<rparr>)"
  by (simp add: read_exact_def)

text \<open>
  A computation is \<open>stream_local\<close> when a successful run takes bytes from the front of
  the stream only, changes nothing else, and would do the same if more bytes followed.
\<close>

definition stream_local :: "'a stream_op \<Rightarrow> bool" where
  "stream_local m \<longleftrightarrow>
     (\<forall>t a t'. m t = (Inr a, t') \<longrightarrow>
        (\<exists>used. rx t = used @ rx t' \<and> t' = t\<lparr>rx := rx t'\<rparr>) \<and>
        (\<forall>s. m (t\<lparr>rx := rx t @ s\<rparr>) = (Inr a, t'\<lparr>rx := rx t' @ s\<rparr>)))"

named_theorems stream_local_intros

lemma stream_local_read_exact [stream_local_intros]: "stream_local (read_exact n)"
  by (auto simp: stream_local_def read_exact_def split: if_splits intro: exI [of _ "take n bs" for bs])
    (metis append_take_drop_id)

lemma stream_local_ret [stream_local_intros]: "stream_local (stream_ret a)"
  by (simp add: stream_local_def stream_ret_def)

lemma stream_local_fail [stream_local_intros]: "stream_local (stream_fail e)"
  by (simp add: stream_local_def stream_fail_def)

lemma stream_local_bind [stream_local_intros]:
  assumes m: "stream_local m" and f: "\<And>a. stream_local (f a)"
  shows "stream_local (stream_bind m f)"
  unfolding stream_local_def
proof (intro allI impI)
  fix t b t''
  assume "stream_bind m f t = (Inr b, t'')"
  then obtain a t' where 1: "m t = (Inr a, t')" and 2: "f a t' = (Inr b, t'')"
    by (auto simp: stream_bind_Inr)
  from m 1 obtain u1 where u1: "rx t = u1 @ rx t'" "t' = t\<lparr>rx := rx t'\<rparr>"
    and e1: "\<And>s. m (t\<lparr>rx := rx t @ s\<rparr>) = (Inr a, t'\<lparr>rx := rx t' @ s\<rparr>)"
    unfolding stream_local_def by blast
  from f 2 obtain u2 where u2: "rx t' = u2 @ rx t''" "t'' = t'\<lparr>rx := rx t''\<rparr>"
    and e2: "\<And>s. f a (t'\<lparr>rx := rx t' @ s\<rparr>) = (Inr b, t''\<lparr>rx := rx t'' @ s\<rparr>)"
    unfolding stream_local_def by blast
  have "t'' = t\<lparr>rx := rx t''\<rparr>"
    using u1(2) u2(2) by (metis tcp.surjective tcp.update_convs(1))
  moreover have "rx t = (u1 @ u2) @ rx t''" using u1(1) u2(1) by simp
  moreover have "stream_bind m f (t\<lparr>rx := rx t @ s\<rparr>) = (Inr b, t''\<lparr>rx := rx t'' @ s\<rparr>)" for s
    by (simp only: stream_bind_def e1 prod.case sum.case e2)
  ultimately show "(\<exists>used. rx t = used @ rx t'' \<and> t'' = t\<lparr>rx := rx t''\<rparr>) \<and>
      (\<forall>s. stream_bind m f (t\<lparr>rx := rx t @ s\<rparr>) = (Inr b, t''\<lparr>rx := rx t'' @ s\<rparr>))"
    by blast
qed

lemma stream_local_if [stream_local_intros]:
  "(c \<Longrightarrow> stream_local a) \<Longrightarrow> (\<not> c \<Longrightarrow> stream_local b) \<Longrightarrow> stream_local (if c then a else b)"
  by simp

lemma stream_local_option [stream_local_intros]:
  "stream_local a \<Longrightarrow> (\<And>x y. stream_local (f x y)) \<Longrightarrow>
   stream_local (case p of None \<Rightarrow> a | Some (x, y) \<Rightarrow> f x y)"
  by (cases p) auto

lemma stream_local_prod [stream_local_intros]:
  "(\<And>x y. stream_local (f x y)) \<Longrightarrow> stream_local (case p of (x, y) \<Rightarrow> f x y)"
  by (cases p) simp

lemma stream_local_sum [stream_local_intros]:
  "(\<And>x. stream_local (f x)) \<Longrightarrow> (\<And>y. stream_local (g y)) \<Longrightarrow>
   stream_local (case p of Inl x \<Rightarrow> f x | Inr y \<Rightarrow> g y)"
  by (cases p) simp_all

lemma read_then_shrinks:
  assumes "\<And>a. stream_local (f a)" "stream_bind (read_exact n) f t = (Inr b, t')"
  shows "length (rx t') + n \<le> length (rx t)"
proof -
  obtain a t1 where 1: "read_exact n t = (Inr a, t1)" and 2: "f a t1 = (Inr b, t')"
    using assms(2) by (auto simp: stream_bind_Inr)
  from assms(1) 2 obtain used where "rx t1 = used @ rx t'" unfolding stream_local_def by blast
  moreover have "rx t = a @ rx t1" "length a = n" using 1 by (simp_all add: read_exact_Inr)
  ultimately show ?thesis by simp
qed

lemma stream_local_read_message [stream_local_intros]: "stream_local read_message"
  unfolding read_message_def by (intro stream_local_intros)

lemma read_message_shrinks: "read_message t = (Inr m, t') \<Longrightarrow> length (rx t') + 8 \<le> length (rx t)"
  unfolding read_message_def UsbIpHeader_SIZE_def [symmetric]
  by (rule read_then_shrinks [rotated], assumption) (intro stream_local_intros)

text \<open>The bytes of a message that was read are exactly the bytes taken from the stream.\<close>

definition stream_exact :: "bytes \<Rightarrow> bytes stream_op \<Rightarrow> bool" where
  "stream_exact pre m \<longleftrightarrow>
     (\<forall>t a t'. m t = (Inr a, t') \<longrightarrow> (\<exists>u. a = pre @ u \<and> rx t = u @ rx t'))"

named_theorems stream_exact_intros

lemma stream_exact_ret [stream_exact_intros]: "a = pre \<Longrightarrow> stream_exact pre (stream_ret a)"
  by (simp add: stream_exact_def stream_ret_def)

lemma stream_exact_fail [stream_exact_intros]: "stream_exact pre (stream_fail e)"
  by (simp add: stream_exact_def stream_fail_def)

lemma stream_exact_read [stream_exact_intros]:
  assumes "\<And>a. stream_exact (pre @ a) (f a)"
  shows "stream_exact pre (stream_bind (read_exact n) f)"
  using assms unfolding stream_exact_def stream_bind_Inr read_exact_Inr
  by (metis append.assoc)

lemma stream_exact_if [stream_exact_intros]:
  "stream_exact pre a \<Longrightarrow> stream_exact pre b \<Longrightarrow> stream_exact pre (if c then a else b)"
  by simp

lemma stream_exact_option [stream_exact_intros]:
  "stream_exact pre a \<Longrightarrow> (\<And>x y. stream_exact pre (f x y)) \<Longrightarrow>
   stream_exact pre (case p of None \<Rightarrow> a | Some (x, y) \<Rightarrow> f x y)"
  by (cases p) auto

lemma stream_exact_read_message: "stream_exact [] read_message"
  unfolding read_message_def by (intro stream_exact_intros) simp_all

lemma read_message_consumes:
  assumes "read_message t = (Inr m, t')"
  shows "rx t = m @ rx t' \<and> t' = t\<lparr>rx := rx t'\<rparr>"
proof -
  have "\<exists>used. rx t = used @ rx t' \<and> t' = t\<lparr>rx := rx t'\<rparr>"
    using stream_local_read_message assms unfolding stream_local_def by blast
  moreover have "rx t = m @ rx t'"
    using stream_exact_read_message assms unfolding stream_exact_def by fastforce
  ultimately show ?thesis by blast
qed

lemma read_message_more:
  "read_message t = (Inr m, t') \<Longrightarrow>
   read_message (t\<lparr>rx := rx t @ s\<rparr>) = (Inr m, t'\<lparr>rx := rx t' @ s\<rparr>)"
  using stream_local_read_message unfolding stream_local_def by blast

text \<open>An unfinished message is an error, never a shorter message.\<close>

lemma read_message_prefix_fails:
  assumes "read_message t = (Inr m, t')" "n < length m"
  shows "\<exists>e u. read_message (t\<lparr>rx := take n m\<rparr>) = (Inl e, u)"
proof (cases "read_message (t\<lparr>rx := take n m\<rparr>)")
  case (Pair r u)
  show ?thesis
  proof (cases r)
    case (Inr m')
    let ?s = "drop n m @ rx t'"
    have "rx t = m @ rx t'" using read_message_consumes assms(1) by blast
    then have "t = t\<lparr>rx := take n m @ ?s\<rparr>"
      by (metis append.assoc append_take_drop_id tcp.surjective tcp.update_convs(1))
    moreover have "read_message (t\<lparr>rx := take n m @ ?s\<rparr>) = (Inr m', u\<lparr>rx := rx u @ ?s\<rparr>)"
      using read_message_more [of "t\<lparr>rx := take n m\<rparr>" m' u ?s] Pair Inr by simp
    ultimately have "m' = m" using assms(1) by simp
    moreover have "take n m = m' @ rx u"
      using read_message_consumes [of "t\<lparr>rx := take n m\<rparr>" m' u] Pair Inr by simp
    ultimately have "length m \<le> length (take n m)" by simp
    then show ?thesis using assms(2) by simp
  qed (simp add: Pair)
qed

section \<open>What the two ends write\<close>

text \<open>
  A submission as a peer puts it on the wire (header, struct, padding to 48 bytes, data
  of an OUT transfer), and when a reply carries as many data bytes as its own fields
  announce.
\<close>

definition cmd_frame :: "UsbIpCmdSubmit \<Rightarrow> bytes \<Rightarrow> bytes \<Rightarrow> bytes" where
  "cmd_frame cmd pad data =
     UsbIpHeader_as_bytes (UsbIpHeader_new USBIP_CMD_SUBMIT) @ UsbIpCmdSubmit_as_bytes cmd @ pad @ data"

definition unlink_frame :: "UsbIpRetUnlink \<Rightarrow> bytes" where
  "unlink_frame u =
     UsbIpHeader_as_bytes (UsbIpHeader_new USBIP_RET_UNLINK) @ UsbIpRetUnlink_as_bytes u"

definition cmd_data_ok :: "UsbIpCmdSubmit \<Rightarrow> bytes \<Rightarrow> bool" where
  "cmd_data_ok cmd data \<longleftrightarrow> length data = (if cmd_is_in cmd then 0 else unat (cmd_data_len cmd))"

definition ret_data_ok :: "UsbIpRetSubmit \<Rightarrow> bytes \<Rightarrow> bool" where
  "ret_data_ok r data \<longleftrightarrow> length data = (if ret_has_data r then unat (ret_actual_length r) else 0)"

lemma command_new [simp]: "command (UsbIpHeader_new c) = c"
  by (simp add: UsbIpHeader_new_def)

lemma UsbIpHeader_read_exact [simp]:
  "UsbIpHeader_read_from_prefix (UsbIpHeader_as_bytes h) = Some (h, [])"
  using hdr.dec_enc_exact by simp

lemmas stream_eval = stream_bind_def stream_ret_def stream_fail_def

lemma read_message_cmd:
  assumes "cmd_wf cmd" "length pad = 4" "cmd_data_ok cmd data"
  shows "read_message (t\<lparr>rx := cmd_frame cmd pad data @ r\<rparr>)
    = (Inr (cmd_frame cmd pad data), t\<lparr>rx := r\<rparr>)"
proof -
  have "read_exact 48 (t\<lparr>rx := UsbIpCmdSubmit_as_bytes cmd @ pad @ data @ r\<rparr>)
    = (Inr (UsbIpCmdSubmit_as_bytes cmd @ pad), t\<lparr>rx := data @ r\<rparr>)"
    using assms read_exact_available [where a = "UsbIpCmdSubmit_as_bytes cmd @ pad" and n = 48 and r = "data @ r"]
    by simp
  moreover have "data = []" if "cmd_is_in cmd \<or> \<not> 0 < cmd_data_len cmd"
    using that assms(3) by (auto simp: cmd_data_ok_def word_neq_0_conv [symmetric] split: if_splits)
  ultimately show ?thesis
    using assms
    by (auto simp: read_message_def stream_eval cmd_frame_def wire_size_defs cmd_data_ok_def)
qed

lemma read_message_ret:
  assumes "ret_wf ret" "ret_data_ok ret data"
  shows "read_message (t\<lparr>rx := serialize_ret_submit ret data @ r\<rparr>)
    = (Inr (serialize_ret_submit ret data), t\<lparr>rx := r\<rparr>)"
  using assms
  by (auto simp: read_message_def stream_eval serialize_ret_submit_def wire_size_defs ret_data_ok_def)

lemma read_message_unlink:
  "read_message (t\<lparr>rx := unlink_frame u @ r\<rparr>) = (Inr (unlink_frame u), t\<lparr>rx := r\<rparr>)"
  by (simp add: read_message_def stream_eval unlink_frame_def wire_size_defs)


section \<open>Sequences of messages\<close>

text \<open>A connection on which these bytes arrive before the peer closes it.\<close>

definition sample_tcp :: "bytes \<Rightarrow> tcp" where
  "sample_tcp bs =
     \<lparr>rx = bs, rx_end = \<lparr>io_kind = UnexpectedEof, io_msg = ''early eof''\<rparr>, tx = [], tx_ok = None,
      tx_end = \<lparr>io_kind = BrokenPipe, io_msg = ''broken pipe''\<rparr>\<rparr>"

fun recv_n :: "nat \<Rightarrow> 'm stream_op \<Rightarrow> 'm list stream_op" where
  "recv_n 0 recv = stream_ret []"
| "recv_n (Suc n) recv =
     stream_bind recv (\<lambda>m. stream_bind (recv_n n recv) (\<lambda>ms. stream_ret (m # ms)))"

text \<open>
  The contract of a message framing: \<open>frames m f\<close> when the bytes \<open>f\<close> may stand for the
  message \<open>m\<close> on the wire (an encrypted message has as many frames as nonces), and
  receiving at the front of such a frame returns the message and leaves exactly what follows.
\<close>

locale message_framing =
  fixes frames :: "'m \<Rightarrow> bytes \<Rightarrow> bool"
    and recv :: "'m stream_op"
  assumes recv_frame: "frames m f \<Longrightarrow> recv (t\<lparr>rx := f @ r\<rparr>) = (Inr m, t\<lparr>rx := r\<rparr>)"
begin

lemma recv_frames:
  "list_all2 frames ms fs \<Longrightarrow>
   recv_n (length ms) recv (t\<lparr>rx := concat fs @ r\<rparr>) = (Inr ms, t\<lparr>rx := r\<rparr>)"
  by (induction ms fs rule: list_all2_induct) (simp_all add: stream_bind_def stream_ret_def recv_frame)

lemma frames_unique:
  assumes "list_all2 frames ms fs" "list_all2 frames ns gs" "length ms = length ns"
    and "concat fs @ r = concat gs @ s"
  shows "ms = ns \<and> r = s"
proof -
  fix t :: tcp
  have 1: "recv_n (length ms) recv (t\<lparr>rx := concat fs @ r\<rparr>) = (Inr ms, t\<lparr>rx := r\<rparr>)"
    by (rule recv_frames [OF assms(1)])
  have 2: "recv_n (length ms) recv (t\<lparr>rx := concat fs @ r\<rparr>) = (Inr ns, t\<lparr>rx := s\<rparr>)"
    unfolding assms(3,4) by (rule recv_frames [OF assms(2)])
  from 1 2 have "ms = ns" "t\<lparr>rx := r\<rparr> = t\<lparr>rx := s\<rparr>" by simp_all
  then show "ms = ns \<and> r = s" by (metis tcp.select_convs(1) tcp.surjective tcp.update_convs(1))
qed

end

definition is_frame :: "bytes \<Rightarrow> bool" where
  "is_frame m \<longleftrightarrow>
     (\<exists>cmd pad data. cmd_wf cmd \<and> length pad = 4 \<and> cmd_data_ok cmd data \<and> m = cmd_frame cmd pad data)
     \<or> (\<exists>ret data. ret_wf ret \<and> ret_data_ok ret data \<and> m = serialize_ret_submit ret data)
     \<or> (\<exists>u. m = unlink_frame u)"

lemma read_message_frame: "is_frame m \<Longrightarrow> read_message (t\<lparr>rx := m @ r\<rparr>) = (Inr m, t\<lparr>rx := r\<rparr>)"
  using read_message_cmd read_message_ret read_message_unlink unfolding is_frame_def by blast

interpretation plain: message_framing "\<lambda>m f. f = m \<and> is_frame m" read_message
  by unfold_locales (simp add: read_message_frame)

lemma is_frame_unlink: "is_frame (unlink_frame u)"
  by (auto simp: is_frame_def)

text \<open>A message that was read from the plain stream is exactly the bytes taken from its
  front, and nothing else of the connection changes: no byte is lost, duplicated or read
  ahead, so the next message starts where this one ended.\<close>

theorem wire_read_exact:
  assumes "read_message t = (Inr m, t')"
  shows "rx t = m @ rx t' \<and> t' = t\<lparr>rx := rx t'\<rparr>"
  by (rule read_message_consumes [OF assms])

theorem wire_read_exact_witness:
  "\<exists>t t' m. read_message t = (Inr m, t') \<and> rx t = m @ rx t' \<and> rx t' = [1, 2]"
proof -
  let ?m = "unlink_frame \<lparr>ul_seqnum = 7, ul_devid = 1, ul_status = 0\<rparr>"
  have "read_message (sample_tcp (?m @ [1, 2])) = (Inr ?m, sample_tcp [1, 2])"
    using read_message_unlink [where t = "sample_tcp []" and r = "[1, 2]"] by (simp add: sample_tcp_def)
  moreover have "rx (sample_tcp [1, 2]) = [1, 2]" by (simp add: sample_tcp_def)
  ultimately show ?thesis using wire_read_exact by blast
qed

text \<open>C20: A stream cut anywhere inside a message gives an error: a proper prefix of a message
  is never mistaken for a shorter message.\<close>

theorem wire_read_truncated_fails:
  assumes "read_message t = (Inr m, t')" "n < length m"
  shows "\<exists>e u. read_message (t\<lparr>rx := take n m\<rparr>) = (Inl e, u)"
  by (rule read_message_prefix_fails [OF assms])

theorem wire_read_truncated_fails_witness:
  "\<exists>t t' m e u. read_message t = (Inr m, t') \<and> 9 < length m
     \<and> read_message (t\<lparr>rx := take 9 m\<rparr>) = (Inl e, u)"
proof -
  let ?m = "unlink_frame \<lparr>ul_seqnum = 7, ul_devid = 1, ul_status = 0\<rparr>"
  have "read_message (sample_tcp ?m) = (Inr ?m, sample_tcp [])"
    using read_message_unlink [where t = "sample_tcp []" and r = "[]"] by (simp add: sample_tcp_def)
  moreover have "9 < length ?m" by (simp add: unlink_frame_def)
  ultimately show ?thesis using wire_read_truncated_fails by blast
qed

text \<open>C5: A sequence of submissions, replies and unlink notices written back to back is read
  as exactly that sequence of messages, whatever follows.\<close>

theorem wire_stream_roundtrip:
  assumes "list_all is_frame ms"
  shows "recv_n (length ms) read_message (t\<lparr>rx := concat ms @ r\<rparr>) = (Inr ms, t\<lparr>rx := r\<rparr>)"
proof -
  have "list_all2 (\<lambda>m f. f = m \<and> is_frame m) ms ms"
    using assms by (simp add: list_all2_same list_all_iff)
  then show ?thesis by (rule plain.recv_frames)
qed

theorem wire_stream_roundtrip_witness:
  "\<exists>t ms. list_all is_frame ms \<and> length ms = 2
     \<and> recv_n 2 read_message (t\<lparr>rx := concat ms @ [9]\<rparr>) = (Inr ms, t\<lparr>rx := [9]\<rparr>)"
proof -
  let ?u = "unlink_frame \<lparr>ul_seqnum = 7, ul_devid = 1, ul_status = 0\<rparr>"
  let ?r = "serialize_ret_submit \<lparr>ret_seqnum = 1, ret_devid = 1, ret_direction = 1, ret_ep = 1,
    ret_status = 0, ret_actual_length = 2, ret_start_frame = 0, ret_number_of_packets = 0,
    ret_error_count = 0, ret_setup = replicate 8 0\<rparr> [0xAB, 0xCD]"
  have "is_frame ?r"
    unfolding is_frame_def
    by (intro disjI2 disjI1 exI conjI)
      (auto simp: ret_wf_def ret_data_ok_def ret_has_data_def ret_is_success_def)
  then have "list_all is_frame [?u, ?r]" by (simp add: is_frame_unlink)
  moreover have "recv_n 2 read_message ((sample_tcp [])\<lparr>rx := concat [?u, ?r] @ [9]\<rparr>)
      = (Inr [?u, ?r], (sample_tcp [])\<lparr>rx := [9]\<rparr>)"
    using wire_stream_roundtrip [OF calculation, where t = "sample_tcp []" and r = "[9]"]
    by (simp only: list.size numeral_2_eq_2 add_0_right add_Suc_right One_nat_def)
  ultimately show ?thesis by (metis length_Cons list.size(3) numeral_2_eq_2)
qed

end
