(* ===== verification/Descriptor.thy ===== *)
theory Descriptor
  imports Anyplug_Prelude
begin

text \<open>
  \<^verbatim>\<open>shared/usbip-core/src/descriptor.rs\<close>: the five USB descriptors, each an instance of
  \<open>wire_struct\<close>, and the descriptor tree that \<^verbatim>\<open>OP_REP_IMPORT\<close> carries. The parser
  of the tree is modelled with everything it can do: return \<open>None\<close>, panic on an index out
  of range, panic or wrap on the \<^verbatim>\<open>u8\<close> addition of the endpoint count (parameter
  \<open>ovf\<close>: whether the build checks overflow), and never return (the outer \<open>None\<close>).
\<close>

section \<open>Device descriptor\<close>

record DeviceDescriptor =
  dd_length :: u8
  dd_descriptor_type :: u8
  dd_bcd_usb :: u16
  dd_device_class :: u8
  dd_device_sub_class :: u8
  dd_device_protocol :: u8
  dd_max_packet_size0 :: u8
  dd_id_vendor :: u16
  dd_id_product :: u16
  dd_bcd_device :: u16
  dd_manufacturer :: u8
  dd_product :: u8
  dd_serial_number :: u8
  dd_num_configurations :: u8

definition DeviceDescriptor_SIZE :: nat where "DeviceDescriptor_SIZE = 18"

definition DeviceDescriptor_parse :: "bytes \<Rightarrow> DeviceDescriptor option" where
  "DeviceDescriptor_parse raw =
     (if length raw < 18 then None
      else Some \<lparr>
        dd_length = raw ! 0,
        dd_descriptor_type = raw ! 1,
        dd_bcd_usb = u16_from_le_bytes (raw ! 2) (raw ! 3),
        dd_device_class = raw ! 4,
        dd_device_sub_class = raw ! 5,
        dd_device_protocol = raw ! 6,
        dd_max_packet_size0 = raw ! 7,
        dd_id_vendor = u16_from_le_bytes (raw ! 8) (raw ! 9),
        dd_id_product = u16_from_le_bytes (raw ! 10) (raw ! 11),
        dd_bcd_device = u16_from_le_bytes (raw ! 12) (raw ! 13),
        dd_manufacturer = raw ! 14,
        dd_product = raw ! 15,
        dd_serial_number = raw ! 16,
        dd_num_configurations = raw ! 17\<rparr>)"

definition DeviceDescriptor_to_bytes :: "DeviceDescriptor \<Rightarrow> bytes" where
  "DeviceDescriptor_to_bytes d =
     [dd_length d, dd_descriptor_type d]
     @ u16_to_le_bytes (dd_bcd_usb d)
     @ [dd_device_class d, dd_device_sub_class d, dd_device_protocol d, dd_max_packet_size0 d]
     @ u16_to_le_bytes (dd_id_vendor d)
     @ u16_to_le_bytes (dd_id_product d)
     @ u16_to_le_bytes (dd_bcd_device d)
     @ [dd_manufacturer d, dd_product d, dd_serial_number d, dd_num_configurations d]"

section \<open>Configuration descriptor\<close>

record ConfigDescriptor =
  cd_length :: u8
  cd_descriptor_type :: u8
  cd_total_length :: u16
  cd_num_interfaces :: u8
  cd_configuration_value :: u8
  cd_configuration :: u8
  cd_attributes :: u8
  cd_max_power :: u8

definition ConfigDescriptor_SIZE :: nat where "ConfigDescriptor_SIZE = 9"

definition ConfigDescriptor_parse :: "bytes \<Rightarrow> ConfigDescriptor option" where
  "ConfigDescriptor_parse raw =
     (if length raw < 9 \<or> raw ! 1 \<noteq> 0x02 then None
      else Some \<lparr>
        cd_length = raw ! 0,
        cd_descriptor_type = raw ! 1,
        cd_total_length = u16_from_le_bytes (raw ! 2) (raw ! 3),
        cd_num_interfaces = raw ! 4,
        cd_configuration_value = raw ! 5,
        cd_configuration = raw ! 6,
        cd_attributes = raw ! 7,
        cd_max_power = raw ! 8\<rparr>)"

definition ConfigDescriptor_to_bytes :: "ConfigDescriptor \<Rightarrow> bytes" where
  "ConfigDescriptor_to_bytes c =
     [cd_length c, cd_descriptor_type c]
     @ u16_to_le_bytes (cd_total_length c)
     @ [cd_num_interfaces c, cd_configuration_value c, cd_configuration c, cd_attributes c,
        cd_max_power c]"

section \<open>Interface descriptor\<close>

record InterfaceDescriptor =
  id_length :: u8
  id_descriptor_type :: u8
  id_interface_number :: u8
  id_alternate_setting :: u8
  id_num_endpoints :: u8
  id_interface_class :: u8
  id_interface_sub_class :: u8
  id_interface_protocol :: u8
  id_interface :: u8

definition InterfaceDescriptor_SIZE :: nat where "InterfaceDescriptor_SIZE = 9"

definition InterfaceDescriptor_parse :: "bytes \<Rightarrow> InterfaceDescriptor option" where
  "InterfaceDescriptor_parse raw =
     (if length raw < 9 \<or> raw ! 1 \<noteq> 0x04 then None
      else Some \<lparr>
        id_length = raw ! 0,
        id_descriptor_type = raw ! 1,
        id_interface_number = raw ! 2,
        id_alternate_setting = raw ! 3,
        id_num_endpoints = raw ! 4,
        id_interface_class = raw ! 5,
        id_interface_sub_class = raw ! 6,
        id_interface_protocol = raw ! 7,
        id_interface = raw ! 8\<rparr>)"

definition InterfaceDescriptor_to_bytes :: "InterfaceDescriptor \<Rightarrow> bytes" where
  "InterfaceDescriptor_to_bytes i =
     [id_length i, id_descriptor_type i, id_interface_number i, id_alternate_setting i,
      id_num_endpoints i, id_interface_class i, id_interface_sub_class i,
      id_interface_protocol i, id_interface i]"

section \<open>Endpoint descriptor\<close>

record EndpointDescriptor =
  ep_length :: u8
  ep_descriptor_type :: u8
  ep_endpoint_address :: u8
  ep_attributes :: u8
  ep_max_packet_size :: u16
  ep_interval :: u8

definition EndpointDescriptor_SIZE :: nat where "EndpointDescriptor_SIZE = 7"

definition EndpointDescriptor_parse :: "bytes \<Rightarrow> EndpointDescriptor option" where
  "EndpointDescriptor_parse raw =
     (if length raw < 7 \<or> raw ! 1 \<noteq> 0x05 then None
      else Some \<lparr>
        ep_length = raw ! 0,
        ep_descriptor_type = raw ! 1,
        ep_endpoint_address = raw ! 2,
        ep_attributes = raw ! 3,
        ep_max_packet_size = u16_from_le_bytes (raw ! 4) (raw ! 5),
        ep_interval = raw ! 6\<rparr>)"

definition EndpointDescriptor_to_bytes :: "EndpointDescriptor \<Rightarrow> bytes" where
  "EndpointDescriptor_to_bytes e =
     [ep_length e, ep_descriptor_type e, ep_endpoint_address e, ep_attributes e]
     @ u16_to_le_bytes (ep_max_packet_size e)
     @ [ep_interval e]"

datatype EndpointType = EpControl | EpIsochronous | EpBulk | EpInterrupt

definition ep_number :: "EndpointDescriptor \<Rightarrow> u8" where
  "ep_number e = ep_endpoint_address e AND 0x0F"

definition ep_is_in :: "EndpointDescriptor \<Rightarrow> bool" where
  "ep_is_in e \<longleftrightarrow> ep_endpoint_address e AND 0x80 \<noteq> 0"

definition transfer_type :: "EndpointDescriptor \<Rightarrow> EndpointType outcome" where
  "transfer_type e =
     (let k = ep_attributes e AND 0x03 in
      if k = 0 then Ret EpControl
      else if k = 1 then Ret EpIsochronous
      else if k = 2 then Ret EpBulk
      else if k = 3 then Ret EpInterrupt
      else Panic)"

section \<open>HID descriptor\<close>

record HidDescriptor =
  hid_length :: u8
  hid_descriptor_type :: u8
  hid_bcd_hid :: u16
  hid_country_code :: u8
  hid_num_descriptors :: u8
  hid_report_descriptor_type :: u8
  hid_report_descriptor_length :: u16

definition HidDescriptor_SIZE :: nat where "HidDescriptor_SIZE = 9"

definition HidDescriptor_parse :: "bytes \<Rightarrow> HidDescriptor option" where
  "HidDescriptor_parse raw =
     (if length raw < 9 \<or> raw ! 1 \<noteq> 0x21 then None
      else Some \<lparr>
        hid_length = raw ! 0,
        hid_descriptor_type = raw ! 1,
        hid_bcd_hid = u16_from_le_bytes (raw ! 2) (raw ! 3),
        hid_country_code = raw ! 4,
        hid_num_descriptors = raw ! 5,
        hid_report_descriptor_type = raw ! 6,
        hid_report_descriptor_length = u16_from_le_bytes (raw ! 7) (raw ! 8)\<rparr>)"

definition HidDescriptor_to_bytes :: "HidDescriptor \<Rightarrow> bytes" where
  "HidDescriptor_to_bytes h =
     [hid_length h, hid_descriptor_type h]
     @ u16_to_le_bytes (hid_bcd_hid h)
     @ [hid_country_code h, hid_num_descriptors h, hid_report_descriptor_type h]
     @ u16_to_le_bytes (hid_report_descriptor_length h)"

section \<open>The descriptor tree\<close>

record InterfaceInfo =
  ii_interface :: InterfaceDescriptor
  ii_endpoints :: "EndpointDescriptor list"
  ii_hid :: "HidDescriptor option"

record ConfigInfo =
  ci_config :: ConfigDescriptor
  ci_interfaces :: "InterfaceInfo list"

record UsbDeviceInfo =
  ud_device :: DeviceDescriptor
  ud_configs :: "ConfigInfo list"

text \<open>
  The loop over the descriptors inside an interface, \<open>n\<close> rounds left. Reading the type
  byte past the end of the input panics.
\<close>

fun parse_sub_descriptors ::
  "nat \<Rightarrow> bytes \<Rightarrow> nat \<Rightarrow> nat \<Rightarrow> EndpointDescriptor list \<Rightarrow> HidDescriptor option
   \<Rightarrow> (nat \<times> EndpointDescriptor list \<times> HidDescriptor option) outcome" where
  "parse_sub_descriptors 0 raw config_end off eps hid = Ret (off, eps, hid)"
| "parse_sub_descriptors (Suc n) raw config_end off eps hid =
     (if off + 2 > config_end then Ret (off, eps, hid)
      else if length raw \<le> off + 1 then Panic
      else if raw ! (off + 1) = 0x05 then
        (case EndpointDescriptor_parse (drop off raw) of
           Some ep \<Rightarrow>
             parse_sub_descriptors n raw config_end (off + EndpointDescriptor_SIZE) (eps @ [ep]) hid
         | None \<Rightarrow> Ret (off, eps, hid))
      else if raw ! (off + 1) = 0x21 then
        (case HidDescriptor_parse (drop off raw) of
           Some h \<Rightarrow>
             parse_sub_descriptors n raw config_end (off + HidDescriptor_SIZE) eps (Some h)
         | None \<Rightarrow> Ret (off, eps, hid))
      else Ret (off, eps, hid))"

lemma parse_sub_descriptors_mono:
  "parse_sub_descriptors n raw config_end off eps hid = Ret (off', eps', hid') \<Longrightarrow> off \<le> off'"
  by (induction n raw config_end off eps hid rule: parse_sub_descriptors.induct)
    (fastforce split: if_splits option.splits)+

text \<open>The \<^verbatim>\<open>u8\<close> sum \<open>b_num_endpoints + 1\<close>: an overflow panics or wraps to zero.\<close>

definition sub_rounds :: "bool \<Rightarrow> InterfaceDescriptor \<Rightarrow> nat outcome" where
  "sub_rounds ovf iface =
     (if ovf \<and> id_num_endpoints iface = 255 then Panic
      else Ret (unat (id_num_endpoints iface + 1)))"

text \<open>
  The loop over the interfaces of a configuration. Slicing \<open>raw[off..]\<close> panics past the
  end; \<open>Ret None\<close> is the early return of the question-mark operator.
\<close>

function parse_interfaces ::
  "bool \<Rightarrow> bytes \<Rightarrow> nat \<Rightarrow> nat \<Rightarrow> InterfaceInfo list \<Rightarrow> InterfaceInfo list option outcome" where
  "parse_interfaces ovf raw config_end off ifs =
     (if config_end < off + InterfaceDescriptor_SIZE then Ret (Some ifs)
      else if length raw < off then Panic
      else case InterfaceDescriptor_parse (drop off raw) of
        None \<Rightarrow> Ret None
      | Some iface \<Rightarrow>
        (case obind (sub_rounds ovf iface)
            (\<lambda>n. parse_sub_descriptors n raw config_end (off + InterfaceDescriptor_SIZE) [] None) of
           Panic \<Rightarrow> Panic
         | Ret (off', eps, hid) \<Rightarrow>
           (let ifs' = ifs @ [\<lparr>ii_interface = iface, ii_endpoints = eps, ii_hid = hid\<rparr>] in
            if config_end \<le> off' then Ret (Some ifs')
            else parse_interfaces ovf raw config_end off' ifs')))"
  by pat_completeness auto
termination
  by (relation "measure (\<lambda>(_, _, config_end, off, _). config_end - off)")
    (auto simp: obind_Ret InterfaceDescriptor_SIZE_def dest!: parse_sub_descriptors_mono)

declare parse_interfaces.simps [simp del]

partial_function (option) parse_configs ::
  "bool \<Rightarrow> bytes \<Rightarrow> nat \<Rightarrow> ConfigInfo list \<Rightarrow> ConfigInfo list option outcome option" where
  "parse_configs ovf raw off configs =
     (if length raw \<le> off then Some (Ret (Some configs))
      else if length raw \<le> off + 1 then Some Panic
      else if raw ! (off + 1) = 0x02 then
        (case ConfigDescriptor_parse (drop off raw) of
           None \<Rightarrow> Some (Ret None)
         | Some config \<Rightarrow>
           (let config_end = off + min (unat (cd_total_length config)) (length raw) in
            case parse_interfaces ovf raw config_end (off + ConfigDescriptor_SIZE) [] of
              Panic \<Rightarrow> Some Panic
            | Ret None \<Rightarrow> Some (Ret None)
            | Ret (Some ifs) \<Rightarrow>
              parse_configs ovf raw config_end
                (configs @ [\<lparr>ci_config = config, ci_interfaces = ifs\<rparr>])))
      else
        (let desc_len = unat (raw ! off) in
         if desc_len = 0 \<or> off + desc_len > length raw then Some (Ret (Some configs))
         else parse_configs ovf raw (off + desc_len) configs))"

definition parse_descriptor_tree :: "bool \<Rightarrow> bytes \<Rightarrow> UsbDeviceInfo option outcome option" where
  "parse_descriptor_tree ovf raw =
     (case DeviceDescriptor_parse raw of
        None \<Rightarrow> Some (Ret None)
      | Some device \<Rightarrow>
        map_option (\<lambda>r. obind r (\<lambda>cs.
            Ret (map_option (\<lambda>configs. \<lparr>ud_device = device, ud_configs = configs\<rparr>) cs)))
          (parse_configs ovf raw DeviceDescriptor_SIZE []))"

definition serialize_interface :: "InterfaceInfo \<Rightarrow> bytes" where
  "serialize_interface i =
     InterfaceDescriptor_to_bytes (ii_interface i)
     @ (case ii_hid i of Some h \<Rightarrow> HidDescriptor_to_bytes h | None \<Rightarrow> [])
     @ concat (map EndpointDescriptor_to_bytes (ii_endpoints i))"

definition serialize_config :: "ConfigInfo \<Rightarrow> bytes" where
  "serialize_config c =
     ConfigDescriptor_to_bytes (ci_config c) @ concat (map serialize_interface (ci_interfaces c))"

definition serialize_descriptor_tree :: "UsbDeviceInfo \<Rightarrow> bytes" where
  "serialize_descriptor_tree u =
     DeviceDescriptor_to_bytes (ud_device u) @ concat (map serialize_config (ud_configs u))"


section \<open>Each descriptor is a wire structure\<close>

definition descriptor_reader :: "nat \<Rightarrow> (bytes \<Rightarrow> 'a option) \<Rightarrow> 'a reader" where
  "descriptor_reader n parse bs = map_option (\<lambda>x. (x, drop n bs)) (parse bs)"

lemma long_list_7:
  "7 \<le> length bs \<Longrightarrow> \<exists>a b c d e f g r. bs = a # b # c # d # e # f # g # r"
  by (auto simp: numeral_eq_Suc Suc_le_length_iff)

lemma long_list_9:
  "9 \<le> length bs \<Longrightarrow> \<exists>a b c d e f g h i r. bs = a # b # c # d # e # f # g # h # i # r"
  by (auto simp: numeral_eq_Suc Suc_le_length_iff)

lemma long_list_18:
  assumes "18 \<le> length bs"
  shows "\<exists>a b c d e f g h i j k l m n p q s t r.
    bs = a # b # c # d # e # f # g # h # i # j # k # l # m # n # p # q # s # t # r"
  using assms by (auto simp: numeral_eq_Suc Suc_le_length_iff)

lemmas le16_bytes = u16_to_le_bytes_def u16_from_le_bytes_def

interpretation dev: packed_struct DeviceDescriptor_to_bytes
  "descriptor_reader DeviceDescriptor_SIZE DeviceDescriptor_parse" "\<lambda>_. True" DeviceDescriptor_SIZE
proof unfold_locales
  fix x :: DeviceDescriptor and r bs
  show "length (DeviceDescriptor_to_bytes x) = DeviceDescriptor_SIZE"
    by (simp add: DeviceDescriptor_to_bytes_def DeviceDescriptor_SIZE_def)
  show "descriptor_reader DeviceDescriptor_SIZE DeviceDescriptor_parse
      (DeviceDescriptor_to_bytes x @ r) = Some (x, r)"
    by (simp add: descriptor_reader_def DeviceDescriptor_parse_def DeviceDescriptor_to_bytes_def
        DeviceDescriptor_SIZE_def le16_bytes)
  show "True \<and> bs = DeviceDescriptor_to_bytes x @ r"
    if "descriptor_reader DeviceDescriptor_SIZE DeviceDescriptor_parse bs = Some (x, r)"
    using that long_list_18 [of bs]
    by (auto simp: descriptor_reader_def DeviceDescriptor_parse_def DeviceDescriptor_to_bytes_def
        DeviceDescriptor_SIZE_def le16_bytes not_less split: if_splits)
  show "\<exists>x. descriptor_reader DeviceDescriptor_SIZE DeviceDescriptor_parse bs
      = Some (x, drop DeviceDescriptor_SIZE bs)" if "DeviceDescriptor_SIZE \<le> length bs"
    using that by (simp add: descriptor_reader_def DeviceDescriptor_parse_def DeviceDescriptor_SIZE_def)
qed (simp add: DeviceDescriptor_SIZE_def)

interpretation cfg: wire_struct ConfigDescriptor_to_bytes
  "descriptor_reader ConfigDescriptor_SIZE ConfigDescriptor_parse"
  "\<lambda>c. cd_descriptor_type c = 2" ConfigDescriptor_SIZE
proof unfold_locales
  fix x :: ConfigDescriptor and r bs
  show "length (ConfigDescriptor_to_bytes x) = ConfigDescriptor_SIZE"
    by (simp add: ConfigDescriptor_to_bytes_def ConfigDescriptor_SIZE_def)
  show "cd_descriptor_type x = 2 \<Longrightarrow> descriptor_reader ConfigDescriptor_SIZE ConfigDescriptor_parse
      (ConfigDescriptor_to_bytes x @ r) = Some (x, r)"
    by (simp add: descriptor_reader_def ConfigDescriptor_parse_def ConfigDescriptor_to_bytes_def
        ConfigDescriptor_SIZE_def le16_bytes)
  show "cd_descriptor_type x = 2 \<and> bs = ConfigDescriptor_to_bytes x @ r"
    if "descriptor_reader ConfigDescriptor_SIZE ConfigDescriptor_parse bs = Some (x, r)"
    using that long_list_9 [of bs]
    by (auto simp: descriptor_reader_def ConfigDescriptor_parse_def ConfigDescriptor_to_bytes_def
        ConfigDescriptor_SIZE_def le16_bytes not_less split: if_splits)
qed (simp add: ConfigDescriptor_SIZE_def)

interpretation ifc: wire_struct InterfaceDescriptor_to_bytes
  "descriptor_reader InterfaceDescriptor_SIZE InterfaceDescriptor_parse"
  "\<lambda>c. id_descriptor_type c = 4" InterfaceDescriptor_SIZE
proof unfold_locales
  fix x :: InterfaceDescriptor and r bs
  show "length (InterfaceDescriptor_to_bytes x) = InterfaceDescriptor_SIZE"
    by (simp add: InterfaceDescriptor_to_bytes_def InterfaceDescriptor_SIZE_def)
  show "id_descriptor_type x = 4 \<Longrightarrow> descriptor_reader InterfaceDescriptor_SIZE
      InterfaceDescriptor_parse (InterfaceDescriptor_to_bytes x @ r) = Some (x, r)"
    by (simp add: descriptor_reader_def InterfaceDescriptor_parse_def InterfaceDescriptor_to_bytes_def
        InterfaceDescriptor_SIZE_def)
  show "id_descriptor_type x = 4 \<and> bs = InterfaceDescriptor_to_bytes x @ r"
    if "descriptor_reader InterfaceDescriptor_SIZE InterfaceDescriptor_parse bs = Some (x, r)"
    using that long_list_9 [of bs]
    by (auto simp: descriptor_reader_def InterfaceDescriptor_parse_def InterfaceDescriptor_to_bytes_def
        InterfaceDescriptor_SIZE_def not_less split: if_splits)
qed (simp add: InterfaceDescriptor_SIZE_def)

interpretation epd: wire_struct EndpointDescriptor_to_bytes
  "descriptor_reader EndpointDescriptor_SIZE EndpointDescriptor_parse"
  "\<lambda>c. ep_descriptor_type c = 5" EndpointDescriptor_SIZE
proof unfold_locales
  fix x :: EndpointDescriptor and r bs
  show "length (EndpointDescriptor_to_bytes x) = EndpointDescriptor_SIZE"
    by (simp add: EndpointDescriptor_to_bytes_def EndpointDescriptor_SIZE_def)
  show "ep_descriptor_type x = 5 \<Longrightarrow> descriptor_reader EndpointDescriptor_SIZE
      EndpointDescriptor_parse (EndpointDescriptor_to_bytes x @ r) = Some (x, r)"
    by (simp add: descriptor_reader_def EndpointDescriptor_parse_def EndpointDescriptor_to_bytes_def
        EndpointDescriptor_SIZE_def le16_bytes)
  show "ep_descriptor_type x = 5 \<and> bs = EndpointDescriptor_to_bytes x @ r"
    if "descriptor_reader EndpointDescriptor_SIZE EndpointDescriptor_parse bs = Some (x, r)"
    using that long_list_7 [of bs]
    by (auto simp: descriptor_reader_def EndpointDescriptor_parse_def EndpointDescriptor_to_bytes_def
        EndpointDescriptor_SIZE_def le16_bytes not_less split: if_splits)
qed (simp add: EndpointDescriptor_SIZE_def)

interpretation hidd: wire_struct HidDescriptor_to_bytes
  "descriptor_reader HidDescriptor_SIZE HidDescriptor_parse"
  "\<lambda>c. hid_descriptor_type c = 0x21" HidDescriptor_SIZE
proof unfold_locales
  fix x :: HidDescriptor and r bs
  show "length (HidDescriptor_to_bytes x) = HidDescriptor_SIZE"
    by (simp add: HidDescriptor_to_bytes_def HidDescriptor_SIZE_def)
  show "hid_descriptor_type x = 0x21 \<Longrightarrow> descriptor_reader HidDescriptor_SIZE
      HidDescriptor_parse (HidDescriptor_to_bytes x @ r) = Some (x, r)"
    by (simp add: descriptor_reader_def HidDescriptor_parse_def HidDescriptor_to_bytes_def
        HidDescriptor_SIZE_def le16_bytes)
  show "hid_descriptor_type x = 0x21 \<and> bs = HidDescriptor_to_bytes x @ r"
    if "descriptor_reader HidDescriptor_SIZE HidDescriptor_parse bs = Some (x, r)"
    using that long_list_9 [of bs]
    by (auto simp: descriptor_reader_def HidDescriptor_parse_def HidDescriptor_to_bytes_def
        HidDescriptor_SIZE_def le16_bytes not_less split: if_splits)
qed (simp add: HidDescriptor_SIZE_def)

lemmas descriptor_sizes = DeviceDescriptor_SIZE_def ConfigDescriptor_SIZE_def
  InterfaceDescriptor_SIZE_def EndpointDescriptor_SIZE_def HidDescriptor_SIZE_def

lemma descriptor_lengths [simp, wire_simps]:
  "length (DeviceDescriptor_to_bytes d) = 18" "length (ConfigDescriptor_to_bytes c) = 9"
  "length (InterfaceDescriptor_to_bytes i) = 9" "length (EndpointDescriptor_to_bytes e) = 7"
  "length (HidDescriptor_to_bytes h) = 9"
  by (simp_all add: DeviceDescriptor_to_bytes_def ConfigDescriptor_to_bytes_def
      InterfaceDescriptor_to_bytes_def EndpointDescriptor_to_bytes_def HidDescriptor_to_bytes_def)

lemma descriptor_type_byte [simp]:
  "(ConfigDescriptor_to_bytes c @ r) ! Suc 0 = cd_descriptor_type c"
  "(InterfaceDescriptor_to_bytes i @ r) ! Suc 0 = id_descriptor_type i"
  "(EndpointDescriptor_to_bytes e @ r) ! Suc 0 = ep_descriptor_type e"
  "(HidDescriptor_to_bytes h @ r) ! Suc 0 = hid_descriptor_type h"
  by (simp_all add: ConfigDescriptor_to_bytes_def InterfaceDescriptor_to_bytes_def
      EndpointDescriptor_to_bytes_def HidDescriptor_to_bytes_def)

lemma reader_parse: "descriptor_reader n p bs = Some (x, r) \<Longrightarrow> p bs = Some x"
  by (auto simp: descriptor_reader_def)

lemma descriptor_parse_written [simp, wire_simps]:
  "DeviceDescriptor_parse (DeviceDescriptor_to_bytes d @ r) = Some d"
  "cd_descriptor_type c = 2 \<Longrightarrow> ConfigDescriptor_parse (ConfigDescriptor_to_bytes c @ r) = Some c"
  "id_descriptor_type i = 4 \<Longrightarrow> InterfaceDescriptor_parse (InterfaceDescriptor_to_bytes i @ r) = Some i"
  "ep_descriptor_type e = 5 \<Longrightarrow> EndpointDescriptor_parse (EndpointDescriptor_to_bytes e @ r) = Some e"
  "hid_descriptor_type h = 0x21 \<Longrightarrow> HidDescriptor_parse (HidDescriptor_to_bytes h @ r) = Some h"
  by (simp_all add: reader_parse [OF dev.dec_enc] reader_parse [OF cfg.dec_enc]
      reader_parse [OF ifc.dec_enc] reader_parse [OF epd.dec_enc] reader_parse [OF hidd.dec_enc])


section \<open>Parsing a serialized tree\<close>

text \<open>
  A tree is well formed when the type bytes are those of the descriptors, an interface has
  room in its announced endpoint count for its descriptors (the loop makes one round more
  than announced, for the HID descriptor), and a configuration announces its own length.
\<close>

definition interface_wf :: "InterfaceInfo \<Rightarrow> bool" where
  "interface_wf i \<longleftrightarrow>
     id_descriptor_type (ii_interface i) = 4
     \<and> list_all (\<lambda>e. ep_descriptor_type e = 5) (ii_endpoints i)
     \<and> (case ii_hid i of None \<Rightarrow> True | Some h \<Rightarrow> hid_descriptor_type h = 0x21)
     \<and> id_num_endpoints (ii_interface i) \<noteq> 255
     \<and> length (ii_endpoints i) + (if ii_hid i = None then 0 else 1)
         \<le> unat (id_num_endpoints (ii_interface i)) + 1"

definition config_wf :: "ConfigInfo \<Rightarrow> bool" where
  "config_wf c \<longleftrightarrow>
     cd_descriptor_type (ci_config c) = 2
     \<and> list_all interface_wf (ci_interfaces c)
     \<and> unat (cd_total_length (ci_config c)) = length (serialize_config c)"

definition tree_wf :: "UsbDeviceInfo \<Rightarrow> bool" where
  "tree_wf u \<longleftrightarrow> list_all config_wf (ud_configs u)"

text \<open>What lets the loop inside an interface stop: the end of the configuration, or another
  descriptor type.\<close>

definition stops_at :: "bytes \<Rightarrow> nat \<Rightarrow> nat \<Rightarrow> bool" where
  "stops_at raw config_end off \<longleftrightarrow>
     config_end < off + 2 \<or> (Suc off < length raw \<and> raw ! Suc off \<noteq> 5 \<and> raw ! Suc off \<noteq> 0x21)"

lemma info_eta [simp]:
  "\<lparr>ii_interface = ii_interface i, ii_endpoints = ii_endpoints i, ii_hid = ii_hid i\<rparr> = i"
  "\<lparr>ci_config = ci_config c, ci_interfaces = ci_interfaces c\<rparr> = c"
  "\<lparr>ud_device = ud_device u, ud_configs = ud_configs u\<rparr> = u"
  by simp_all

lemma parse_sub_stops:
  "stops_at raw config_end off \<Longrightarrow> parse_sub_descriptors n raw config_end off eps hid = Ret (off, eps, hid)"
  by (cases n) (auto simp: stops_at_def)

lemma parse_sub_endpoints:
  assumes "list_all (\<lambda>e. ep_descriptor_type e = 5) es" "length es \<le> n"
    and "raw = pre @ concat (map EndpointDescriptor_to_bytes es) @ rest" "off = length pre"
    and "off + 7 * length es \<le> config_end" "config_end \<le> length raw"
    and "stops_at raw config_end (off + 7 * length es)"
  shows "parse_sub_descriptors n raw config_end off acc hid = Ret (off + 7 * length es, acc @ es, hid)"
  using assms
proof (induction es arbitrary: n pre off acc)
  case Nil
  then show ?case using parse_sub_stops by simp
next
  case (Cons e es)
  then obtain m where n: "n = Suc m" by (cases n) auto
  have "parse_sub_descriptors m raw config_end (off + 7) (acc @ [e]) hid
      = Ret ((off + 7) + 7 * length es, (acc @ [e]) @ es, hid)"
    using Cons.prems n
    by (intro Cons.IH [where pre = "pre @ EndpointDescriptor_to_bytes e"]) (auto simp: algebra_simps)
  moreover have "raw ! Suc off = 5" "EndpointDescriptor_parse (drop off raw) = Some e"
    "off + 2 \<le> config_end" "Suc off < length raw"
    using Cons.prems by (simp_all add: nth_append_right)
  ultimately show ?case by (simp add: n EndpointDescriptor_SIZE_def algebra_simps)
qed

definition hid_bytes :: "HidDescriptor option \<Rightarrow> bytes" where
  "hid_bytes h = (case h of Some x \<Rightarrow> HidDescriptor_to_bytes x | None \<Rightarrow> [])"

lemma length_endpoints [simp]:
  "length (concat (map EndpointDescriptor_to_bytes es)) = 7 * length es"
  by (induction es) simp_all

lemma parse_sub_interface:
  assumes wf: "interface_wf i"
    and raw: "raw = pre @ serialize_interface i @ rest" and off: "off = length pre + 9"
    and fin: "fin = length pre + length (serialize_interface i)"
    and ends: "fin \<le> config_end" "config_end \<le> length raw" "stops_at raw config_end fin"
  shows "obind (sub_rounds ovf (ii_interface i))
           (\<lambda>n. parse_sub_descriptors n raw config_end off [] None)
         = Ret (fin, ii_endpoints i, ii_hid i)"
proof -
  let ?n = "unat (id_num_endpoints (ii_interface i) + 1)" and ?es = "ii_endpoints i"
  have n: "?n = Suc (unat (id_num_endpoints (ii_interface i)))"
  proof -
    have "(255 :: u8) = - 1" by simp
    then have "id_num_endpoints (ii_interface i) \<noteq> - 1" using wf by (metis interface_wf_def)
    then have "1 + id_num_endpoints (ii_interface i) \<noteq> 0"
      by (metis add.commute add_eq_0_iff)
    then show ?thesis by (metis add.commute unatSuc)
  qed
  have eps: "list_all (\<lambda>e. ep_descriptor_type e = 5) ?es" using wf by (simp add: interface_wf_def)
  have rounds: "sub_rounds ovf (ii_interface i) = Ret ?n"
    using wf by (simp add: sub_rounds_def interface_wf_def)
  show ?thesis
  proof (cases "ii_hid i")
    case None
    have "parse_sub_descriptors ?n raw config_end off [] None = Ret (off + 7 * length ?es, [] @ ?es, None)"
      by (rule parse_sub_endpoints [OF eps, where pre = "pre @ InterfaceDescriptor_to_bytes (ii_interface i)"])
        (use assms None n in \<open>auto simp: serialize_interface_def interface_wf_def add.assoc\<close>)
    then show ?thesis using None rounds off fin by (simp add: serialize_interface_def)
  next
    case (Some h)
    let ?pre = "pre @ InterfaceDescriptor_to_bytes (ii_interface i) @ HidDescriptor_to_bytes h"
    have "parse_sub_descriptors (unat (id_num_endpoints (ii_interface i))) raw config_end (off + 9) []
        (Some h) = Ret (off + 9 + 7 * length ?es, [] @ ?es, Some h)"
      by (rule parse_sub_endpoints [OF eps, where pre = ?pre])
        (use assms Some n in \<open>auto simp: serialize_interface_def interface_wf_def add.assoc\<close>)
    moreover have "raw ! Suc off = 0x21" "HidDescriptor_parse (drop off raw) = Some h"
      "off + 2 \<le> config_end" "Suc off < length raw"
      using assms Some by (auto simp: serialize_interface_def interface_wf_def nth_append_right)
    ultimately show ?thesis
      using Some rounds off fin n by (simp add: serialize_interface_def HidDescriptor_SIZE_def)
  qed
qed

lemma length_serialize_interface: "9 \<le> length (serialize_interface i)"
  by (simp add: serialize_interface_def)

lemma parse_interfaces_serialized:
  assumes "list_all interface_wf ifs"
    and "raw = pre @ concat (map serialize_interface ifs) @ rest" "off = length pre"
    and "config_end = length pre + length (concat (map serialize_interface ifs))"
  shows "parse_interfaces ovf raw config_end off acc = Ret (Some (acc @ ifs))"
  using assms
proof (induction ifs arbitrary: pre off acc)
  case Nil
  then show ?case by (simp add: parse_interfaces.simps InterfaceDescriptor_SIZE_def)
next
  case (Cons i ifs)
  let ?fin = "off + length (serialize_interface i)"
  have head: "raw = pre @ serialize_interface i @ (concat (map serialize_interface ifs) @ rest)"
    using Cons.prems by simp
  have stop: "stops_at raw config_end ?fin"
    using Cons.prems
    by (cases ifs)
      (auto simp: stops_at_def nth_append_right serialize_interface_def interface_wf_def)
  have sub: "obind (sub_rounds ovf (ii_interface i))
      (\<lambda>n. parse_sub_descriptors n raw config_end (off + 9) [] None) = Ret (?fin, ii_endpoints i, ii_hid i)"
    by (rule parse_sub_interface [OF _ head]) (use Cons.prems stop in auto)
  have iface: "InterfaceDescriptor_parse (drop off raw) = Some (ii_interface i)"
    using Cons.prems by (simp add: serialize_interface_def interface_wf_def)
  have bounds: "\<not> config_end < off + 9" "\<not> length raw < off"
    using Cons.prems length_serialize_interface [of i] by auto
  have ih: "parse_interfaces ovf raw config_end ?fin (acc @ [i]) = Ret (Some ((acc @ [i]) @ ifs))"
    by (rule Cons.IH [where pre = "pre @ serialize_interface i"]) (use Cons.prems in auto)
  have last: "ifs = []" if "config_end \<le> ?fin"
    using that Cons.prems length_serialize_interface by (cases ifs) (auto simp: serialize_interface_def)
  show ?case
    using iface sub bounds ih last
    by (subst parse_interfaces.simps) (simp add: InterfaceDescriptor_SIZE_def Let_def)
qed

lemma parse_configs_serialized:
  assumes "list_all config_wf cs" "raw = pre @ concat (map serialize_config cs)" "off = length pre"
  shows "parse_configs ovf raw off acc = Some (Ret (Some (acc @ cs)))"
  using assms
proof (induction cs arbitrary: pre off acc)
  case Nil
  then show ?case by (simp add: parse_configs.simps)
next
  case (Cons c cs)
  let ?rest = "concat (map serialize_config cs)"
  let ?fin = "off + length (serialize_config c)"
  have ifs: "parse_interfaces ovf raw ?fin (off + 9) [] = Ret (Some ([] @ ci_interfaces c))"
    by (rule parse_interfaces_serialized [where pre = "pre @ ConfigDescriptor_to_bytes (ci_config c)"
          and rest = ?rest])
      (use Cons.prems in \<open>auto simp: serialize_config_def [of c] config_wf_def [of c]\<close>)
  have head: "ConfigDescriptor_parse (drop off raw) = Some (ci_config c)" "raw ! Suc off = 2"
    "Suc off < length raw"
    using Cons.prems by (auto simp: serialize_config_def config_wf_def nth_append_right)
  have fin: "off + min (unat (cd_total_length (ci_config c))) (length raw) = ?fin"
    using Cons.prems by (simp add: config_wf_def)
  have "parse_configs ovf raw ?fin (acc @ [c]) = Some (Ret (Some ((acc @ [c]) @ cs)))"
    by (rule Cons.IH [where pre = "pre @ serialize_config c"]) (use Cons.prems in auto)
  then show ?case
    using ifs head fin by (subst parse_configs.simps) (simp add: ConfigDescriptor_SIZE_def Let_def)
qed

lemma parse_serialized:
  assumes "tree_wf u"
  shows "parse_descriptor_tree ovf (serialize_descriptor_tree u) = Some (Ret (Some u))"
proof -
  have "parse_configs ovf (serialize_descriptor_tree u) 18 [] = Some (Ret (Some ([] @ ud_configs u)))"
    by (rule parse_configs_serialized [where pre = "DeviceDescriptor_to_bytes (ud_device u)"])
      (use assms in \<open>auto simp: tree_wf_def serialize_descriptor_tree_def\<close>)
  then show ?thesis
    by (simp add: parse_descriptor_tree_def serialize_descriptor_tree_def DeviceDescriptor_SIZE_def)
qed

text \<open>C3: Parsing the serialized form of a well-formed descriptor tree returns that tree, in
  builds with and without overflow checks: the importing side reconstructs exactly the
  device, configurations, interfaces, HID and endpoint descriptors the exporting side
  serialized, and the parser neither panics nor loops.\<close>

theorem descriptor_tree_roundtrip:
  assumes "tree_wf u"
  shows "parse_descriptor_tree ovf (serialize_descriptor_tree u) = Some (Ret (Some u))"
  by (rule parse_serialized [OF assms])

definition sample_tree :: UsbDeviceInfo where
  "sample_tree = \<lparr>
     ud_device = \<lparr>dd_length = 18, dd_descriptor_type = 1, dd_bcd_usb = 0x0200, dd_device_class = 0,
       dd_device_sub_class = 0, dd_device_protocol = 0, dd_max_packet_size0 = 64,
       dd_id_vendor = 0x046d, dd_id_product = 0xc077, dd_bcd_device = 0x7200, dd_manufacturer = 1,
       dd_product = 2, dd_serial_number = 0, dd_num_configurations = 1\<rparr>,
     ud_configs = [\<lparr>
       ci_config = \<lparr>cd_length = 9, cd_descriptor_type = 2, cd_total_length = 34,
         cd_num_interfaces = 1, cd_configuration_value = 1, cd_configuration = 0,
         cd_attributes = 0xA0, cd_max_power = 49\<rparr>,
       ci_interfaces = [\<lparr>
         ii_interface = \<lparr>id_length = 9, id_descriptor_type = 4, id_interface_number = 0,
           id_alternate_setting = 0, id_num_endpoints = 1, id_interface_class = 3,
           id_interface_sub_class = 1, id_interface_protocol = 2, id_interface = 0\<rparr>,
         ii_endpoints = [\<lparr>ep_length = 7, ep_descriptor_type = 5, ep_endpoint_address = 0x81,
           ep_attributes = 3, ep_max_packet_size = 4, ep_interval = 10\<rparr>],
         ii_hid = Some \<lparr>hid_length = 9, hid_descriptor_type = 0x21, hid_bcd_hid = 0x0111,
           hid_country_code = 0, hid_num_descriptors = 1, hid_report_descriptor_type = 0x22,
           hid_report_descriptor_length = 46\<rparr>\<rparr>]\<rparr>]\<rparr>"

lemma sample_tree_wf: "tree_wf sample_tree"
  by (simp add: sample_tree_def tree_wf_def config_wf_def interface_wf_def serialize_config_def
      serialize_interface_def)

theorem descriptor_tree_roundtrip_witness:
  "tree_wf sample_tree
   \<and> parse_descriptor_tree True (serialize_descriptor_tree sample_tree) = Some (Ret (Some sample_tree))"
  using descriptor_tree_roundtrip [OF sample_tree_wf, of True] sample_tree_wf by simp

section \<open>When the parser returns\<close>

text \<open>
  Whether the outer loop, from an offset on, comes to a configuration descriptor that announces a
  total length of zero. Only the offsets the loop visits matter: it steps over a configuration by its
  announced length, once its interfaces are parsed, and over any other descriptor by its length byte.
\<close>

function empty_config_ahead :: "bool \<Rightarrow> bytes \<Rightarrow> nat \<Rightarrow> bool" where
  "empty_config_ahead ovf raw off =
     (if length raw \<le> off + 1 then False
      else if raw ! (off + 1) = 2 then
        (case ConfigDescriptor_parse (drop off raw) of
           None \<Rightarrow> False
         | Some c \<Rightarrow>
           if unat (cd_total_length c) = 0 then True
           else
             (let config_end = off + min (unat (cd_total_length c)) (length raw) in
              case parse_interfaces ovf raw config_end (off + ConfigDescriptor_SIZE) [] of
                Ret (Some _) \<Rightarrow> empty_config_ahead ovf raw config_end | _ \<Rightarrow> False))
      else if unat (raw ! off) = 0 \<or> off + unat (raw ! off) > length raw then False
      else empty_config_ahead ovf raw (off + unat (raw ! off)))"
  by pat_completeness auto
termination
  by (relation "measure (\<lambda>(ovf, raw, off). length raw - off)") (auto simp: min_def)

declare empty_config_ahead.simps [simp del]

definition reaches_empty_config :: "bool \<Rightarrow> bytes \<Rightarrow> bool" where
  "reaches_empty_config ovf raw \<longleftrightarrow>
     DeviceDescriptor_parse raw \<noteq> None \<and> empty_config_ahead ovf raw DeviceDescriptor_SIZE"

lemma parse_configs_stuck:
  assumes "ConfigDescriptor_parse (drop off raw) = Some c" "cd_total_length c = 0" "Suc off < length raw"
    and "raw ! Suc off = 2"
  shows "parse_configs ovf raw off acc \<noteq> Some r"
proof
  assume returns: "parse_configs ovf raw off acc = Some r"
  have "raw = raw \<and> off = off \<longrightarrow> False"
  proof (rule parse_configs.raw_induct
      [where P = "\<lambda>_ raw' off' _ _. raw' = raw \<and> off' = off \<longrightarrow> False", OF _ returns])
    fix f ovf' raw' off' acc' r'
    assume ih: "\<And>ovf raw' off' acc r. f ovf raw' off' acc = Some r \<Longrightarrow> raw' = raw \<and> off' = off \<longrightarrow> False"
      and step: "(if length raw' \<le> off' then Some (Ret (Some acc'))
        else if length raw' \<le> off' + 1 then Some Panic
        else if raw' ! (off' + 1) = 0x02 then
          (case ConfigDescriptor_parse (drop off' raw') of
             None \<Rightarrow> Some (Ret None)
           | Some config \<Rightarrow>
             (let config_end = off' + min (unat (cd_total_length config)) (length raw') in
              case parse_interfaces ovf' raw' config_end (off' + ConfigDescriptor_SIZE) [] of
                Ret None \<Rightarrow> Some (Ret None)
              | Ret (Some ifs) \<Rightarrow>
                f ovf' raw' config_end (acc' @ [\<lparr>ci_config = config, ci_interfaces = ifs\<rparr>])
              | Panic \<Rightarrow> Some Panic))
        else
          (let desc_len = unat (raw' ! off') in
           if desc_len = 0 \<or> off' + desc_len > length raw' then Some (Ret (Some acc'))
           else f ovf' raw' (off' + desc_len) acc')) = Some r'"
    have "parse_interfaces ovf' raw off (off + 9) [] = Ret (Some [])"
      by (simp add: parse_interfaces.simps InterfaceDescriptor_SIZE_def)
    then show "raw' = raw \<and> off' = off \<longrightarrow> False"
      using ih [of ovf' raw off "acc' @ [\<lparr>ci_config = c, ci_interfaces = []\<rparr>]" r'] step assms
      by (auto simp: Let_def ConfigDescriptor_SIZE_def)
  qed
  then show False by simp
qed

lemma parse_configs_returns_iff:
  "(\<exists>r. parse_configs ovf raw off acc = Some r) = (\<not> empty_config_ahead ovf raw off)"
proof (induction ovf raw off arbitrary: acc rule: empty_config_ahead.induct)
  case (1 ovf raw off)
  show ?case
  proof (cases "length raw \<le> off + 1")
    case True
    then show ?thesis by (subst parse_configs.simps, subst empty_config_ahead.simps) auto
  next
    case more: False
    show ?thesis
    proof (cases "raw ! (off + 1) = 2")
      case two: True
      show ?thesis
      proof (cases "ConfigDescriptor_parse (drop off raw)")
        case None
        then show ?thesis using more two by (subst parse_configs.simps, subst empty_config_ahead.simps) simp
      next
        case (Some c)
        show ?thesis
        proof (cases "unat (cd_total_length c) = 0")
          case True
          then have "cd_total_length c = 0" by (simp add: unat_eq_0)
          then have "\<nexists>r. parse_configs ovf raw off acc = Some r"
            using parse_configs_stuck [OF Some] more two by auto
          moreover have "empty_config_ahead ovf raw off"
            using True Some more two by (subst empty_config_ahead.simps) simp
          ultimately show ?thesis by simp
        next
          case len: False
          note IH = "1.IH"(1) [OF more two Some len refl]
          show ?thesis
            using more two Some len IH
            by (subst parse_configs.simps, subst empty_config_ahead.simps)
              (auto simp: Let_def split: outcome.splits option.splits)
        qed
      qed
    next
      case other: False
      show ?thesis
      proof (cases "unat (raw ! off) = 0 \<or> off + unat (raw ! off) > length raw")
        case True
        then show ?thesis using more other
          by (subst parse_configs.simps, subst empty_config_ahead.simps) (auto simp: Let_def)
      next
        case False
        note IH = "1.IH"(2) [OF more other False]
        show ?thesis using more other False IH
          by (subst parse_configs.simps, subst empty_config_ahead.simps) (simp add: Let_def)
      qed
    qed
  qed
qed

text \<open>C24: The descriptor parser returns (a tree, \<open>None\<close> or a panic) on exactly those inputs on which its
  outer loop does not come to a configuration descriptor that announces a total length of zero.\<close>

theorem descriptor_tree_returns:
  "(\<exists>r. parse_descriptor_tree ovf raw = Some r) = (\<not> reaches_empty_config ovf raw)"
  using parse_configs_returns_iff [of ovf raw DeviceDescriptor_SIZE "[]"]
  by (auto simp: parse_descriptor_tree_def reaches_empty_config_def split: option.splits)

text \<open>On the tree of a mouse it returns; the same bytes with the announced length set to zero keep it
  forever.\<close>

theorem descriptor_tree_returns_witness:
  "(\<exists>r. parse_descriptor_tree True (serialize_descriptor_tree sample_tree) = Some r)
   \<and> \<not> reaches_empty_config True (serialize_descriptor_tree sample_tree)
   \<and> reaches_empty_config True ((serialize_descriptor_tree sample_tree)[20 := 0, 21 := 0])
   \<and> parse_descriptor_tree True ((serialize_descriptor_tree sample_tree)[20 := 0, 21 := 0]) = None"
proof -
  let ?raw = "serialize_descriptor_tree sample_tree"
  have ret: "\<exists>r. parse_descriptor_tree True ?raw = Some r"
    using parse_serialized [OF sample_tree_wf] by blast
  have len: "length ?raw = 52"
    by (simp add: sample_tree_def serialize_descriptor_tree_def serialize_config_def serialize_interface_def)
  have "?raw ! 19 = 2"
    by (simp add: sample_tree_def serialize_descriptor_tree_def serialize_config_def nth_append ConfigDescriptor_to_bytes_def)
  moreover have "\<not> length ?raw - 18 < 9" using len by simp
  ultimately have empty: "reaches_empty_config True (?raw[20 := 0, 21 := 0])"
    using len
    by (simp add: reaches_empty_config_def DeviceDescriptor_parse_def DeviceDescriptor_SIZE_def
        empty_config_ahead.simps ConfigDescriptor_parse_def u16_from_le_bytes_def u16_from_be_bytes_def)
  show ?thesis
    using ret empty descriptor_tree_returns [of True ?raw] descriptor_tree_returns [of True "?raw[20 := 0, 21 := 0]"]
    by (cases "parse_descriptor_tree True (?raw[20 := 0, 21 := 0])") auto
qed

text \<open>C36: A tree whose first configuration announces a total length of zero keeps the parser
  in its outer loop forever: the offset does not move and a configuration is pushed in every
  round. The importing client parses what the server sent, so the peer decides.\<close>

theorem descriptor_tree_zero_length_diverges:
  assumes "27 \<le> length raw" "raw ! 19 = 2" "raw ! 20 = 0" "raw ! 21 = 0"
  shows "parse_descriptor_tree ovf raw = None"
proof -
  let ?c = "the (ConfigDescriptor_parse (drop 18 raw))"
  have "\<not> length raw - 18 < 9" using assms by linarith
  then have "ConfigDescriptor_parse (drop 18 raw) = Some ?c" "cd_total_length ?c = 0"
    using assms by (simp_all add: ConfigDescriptor_parse_def u16_from_le_bytes_def u16_from_be_bytes_def)
  then have "parse_configs ovf raw 18 [] \<noteq> Some r" for r
    using assms by (intro parse_configs_stuck) auto
  then have "parse_configs ovf raw 18 [] = None" by (cases "parse_configs ovf raw 18 []") auto
  moreover have "DeviceDescriptor_parse raw \<noteq> None"
    using assms by (simp add: DeviceDescriptor_parse_def)
  ultimately show ?thesis by (auto simp: parse_descriptor_tree_def DeviceDescriptor_SIZE_def)
qed

theorem descriptor_tree_zero_length_diverges_witness:
  "parse_descriptor_tree True (replicate 18 1 @ [9, 2, 0, 0, 0, 0, 0, 0, 0]) = None"
  by (rule descriptor_tree_zero_length_diverges) (simp_all add: nth_append)

text \<open>A device descriptor followed by a single byte makes the parser panic: it reads the
  type byte of a descriptor whose length byte is the last of the input.\<close>

theorem descriptor_tree_trailing_byte_panics:
  assumes "length raw = 19"
  shows "parse_descriptor_tree ovf raw = Some Panic"
  using assms
  by (simp add: parse_descriptor_tree_def DeviceDescriptor_parse_def DeviceDescriptor_SIZE_def
      parse_configs.simps)

theorem descriptor_tree_trailing_byte_panics_witness:
  "parse_descriptor_tree False (replicate 18 1 @ [9]) = Some Panic"
  by (rule descriptor_tree_trailing_byte_panics) simp

text \<open>An endpoint's transfer type is always one of the four cases: the
  \<open>unreachable!()\<close> arm is.\<close>

lemma transfer_type_total: "transfer_type e \<noteq> Panic"
proof -
  have "k = 0 \<or> k = 1 \<or> k = 2 \<or> k = 3" if "k = ep_attributes e AND 3" for k
  proof -
    have "k = take_bit 2 (ep_attributes e)"
      using that by (simp add: take_bit_eq_mask mask_eq_exp_minus_1)
    then have "unat k < 4" by (simp add: take_bit_eq_mod unat_mod)
    then have "unat k = 0 \<or> unat k = 1 \<or> unat k = 2 \<or> unat k = 3" by linarith
    then show ?thesis by (simp add: word_unat_eq_iff)
  qed
  then have "ep_attributes e AND 3 = 0 \<or> ep_attributes e AND 3 = 1 \<or> ep_attributes e AND 3 = 2
    \<or> ep_attributes e AND 3 = 3" by blast
  then show ?thesis by (auto simp: transfer_type_def Let_def)
qed

end
