(* ===== verification/Usb_Backend.thy ===== *)
theory Usb_Backend
  imports Wire_Codec Descriptor
begin

text \<open>
  \<^verbatim>\<open>server/usbip-server/src/usb_backend.rs\<close>: the \<^verbatim>\<open>UsbBackend\<close> trait as a record of
  operations on a backend state, its contract as the locale \<open>usb_backend\<close>, and the two
  backends of the file: the fake one with a fixed device list, and the libusb one over the
  \<^verbatim>\<open>rusb\<close> crate. What the code calls of \<^verbatim>\<open>rusb\<close> is a parameter \<open>X\<close>, a record of
  functions on the state \<open>'w\<close> of the USB subsystem; the descriptors it returns are records
  of the values of their accessors.
\<close>

section \<open>The backend trait\<close>

record UrbTransferResult =
  utr_status :: i32
  utr_actual_length :: u32
  utr_data :: bytes

record 'b UsbBackend =
  be_list_devices :: "'b \<Rightarrow> UsbIpDeviceEntry list"
  be_get_device_entry :: "'b \<Rightarrow> string \<Rightarrow> UsbIpDeviceEntry option"
  be_claim_device :: "'b \<Rightarrow> string \<Rightarrow> unit UsbIpResult \<times> 'b"
  be_get_descriptor_tree :: "'b \<Rightarrow> string \<Rightarrow> bytes UsbIpResult"
  be_execute_urb :: "'b \<Rightarrow> string \<Rightarrow> UsbIpCmdSubmit \<Rightarrow> bytes \<Rightarrow> UrbTransferResult UsbIpResult \<times> 'b"
  be_release_device :: "'b \<Rightarrow> string \<Rightarrow> unit UsbIpResult \<times> 'b"

text \<open>
  What the server relies on: every operation keeps the backend's invariant, entries have the
  field sizes of the wire struct, and a completed transfer has status 0 and reports as many bytes
  as it returns (IN) or returns none (OUT).
\<close>

locale usb_backend =
  fixes B :: "'b UsbBackend"
    and binv :: "'b \<Rightarrow> bool"
  assumes claim_inv: "binv b \<Longrightarrow> be_claim_device B b bid = (r, b') \<Longrightarrow> binv b'"
    and exec_inv: "binv b \<Longrightarrow> be_execute_urb B b bid cmd out = (r', b') \<Longrightarrow> binv b'"
    and release_inv: "binv b \<Longrightarrow> be_release_device B b bid = (r, b') \<Longrightarrow> binv b'"
    and list_wf: "binv b \<Longrightarrow> e \<in> set (be_list_devices B b) \<Longrightarrow> entry_wf e"
    and exec_status: "binv b \<Longrightarrow> be_execute_urb B b bid cmd out = (Inr u, b') \<Longrightarrow> utr_status u = 0"
    and exec_in: "binv b \<Longrightarrow> be_execute_urb B b bid cmd out = (Inr u, b') \<Longrightarrow> cmd_is_in cmd \<Longrightarrow>
      length (utr_data u) = unat (utr_actual_length u)"
    and exec_out: "binv b \<Longrightarrow> be_execute_urb B b bid cmd out = (Inr u, b') \<Longrightarrow> \<not> cmd_is_in cmd \<Longrightarrow>
      utr_data u = []"

section \<open>Bus ids\<close>

definition parse_busid :: "string \<Rightarrow> (u8 \<times> u8) UsbIpResult" where
  "parse_busid bid =
     (let parts = split_on (CHR ''-'') bid in
      if length parts < 2 then Inl (DeviceNotFound bid)
      else case parse_unsigned 256 10 (parts ! 0) of
        None \<Rightarrow> Inl (DeviceNotFound bid)
      | Some bn \<Rightarrow>
        (case parse_unsigned 256 10 (parts ! 1) of
           None \<Rightarrow> Inl (DeviceNotFound bid)
         | Some dn \<Rightarrow> Inr (of_nat bn, of_nat dn)))"

definition format_busid :: "u8 \<Rightarrow> u8 \<Rightarrow> string" where
  "format_busid bn dn = show_dec (unat bn) @ ''-'' @ show_dec (unat dn)"

text \<open>The lookup both the libusb backend and the manager use: first entry with these numbers.\<close>

definition find_entry :: "UsbIpDeviceEntry list \<Rightarrow> string \<Rightarrow> UsbIpDeviceEntry option" where
  "find_entry devices bid =
     (case parse_busid bid of
        Inl _ \<Rightarrow> None
      | Inr (bn, dn) \<Rightarrow> find (\<lambda>d. busnum d = ucast bn \<and> devnum d = ucast dn) devices)"

section \<open>The fake backend\<close>

definition make_test_entry :: "string \<Rightarrow> u16 \<Rightarrow> u16 \<Rightarrow> UsbIpDeviceEntry" where
  "make_test_entry bid vid pid =
     \<lparr>dev_path = copy_padded 256 255 (''/sys/bus/usb/devices/'' @ bid),
      dev_busid = copy_padded 32 31 bid, busnum = 1, devnum = 1, speed = 3,
      id_vendor = vid, id_product = pid, bcd_device = 0x0100, b_device_class = 0,
      b_device_sub_class = 0, b_device_protocol = 0, b_configuration_value = 1,
      b_num_configurations = 1, b_num_interfaces = 1\<rparr>"

definition fake_get_device_entry :: "UsbIpDeviceEntry list \<Rightarrow> string \<Rightarrow> UsbIpDeviceEntry option" where
  "fake_get_device_entry devices bid = find (\<lambda>d. busid_str d = bid) devices"

definition fake_claim_device ::
  "UsbIpDeviceEntry list \<Rightarrow> string \<Rightarrow> unit UsbIpResult \<times> UsbIpDeviceEntry list" where
  "fake_claim_device devices bid =
     (if list_ex (\<lambda>d. busid_str d = bid) devices then (Inr (), devices)
      else (Inl (DeviceNotFound bid), devices))"

definition fake_get_descriptor_tree :: "UsbIpDeviceEntry list \<Rightarrow> string \<Rightarrow> bytes UsbIpResult" where
  "fake_get_descriptor_tree devices bid =
     (if list_ex (\<lambda>d. busid_str d = bid) devices then Inr [0x12, 0x01, 0x00, 0x02]
      else Inl (DeviceNotFound bid))"

definition fake_execute_urb ::
  "UsbIpDeviceEntry list \<Rightarrow> string \<Rightarrow> UsbIpCmdSubmit \<Rightarrow> bytes
   \<Rightarrow> UrbTransferResult UsbIpResult \<times> UsbIpDeviceEntry list" where
  "fake_execute_urb devices bid cmd out =
     (Inr \<lparr>utr_status = 0, utr_actual_length = 0, utr_data = []\<rparr>, devices)"

definition FakeBackend :: "UsbIpDeviceEntry list UsbBackend" where
  "FakeBackend = \<lparr>
     be_list_devices = (\<lambda>devices. devices),
     be_get_device_entry = fake_get_device_entry,
     be_claim_device = fake_claim_device,
     be_get_descriptor_tree = fake_get_descriptor_tree,
     be_execute_urb = fake_execute_urb,
     be_release_device = (\<lambda>devices bid. (Inr (), devices))\<rparr>"

interpretation fake: usb_backend FakeBackend "list_all entry_wf"
  by unfold_locales
    (auto simp: FakeBackend_def fake_claim_device_def fake_execute_urb_def list_all_iff split: if_splits)

section \<open>The libusb backend\<close>

datatype rusb_error =
    RE_Io | RE_InvalidParam | RE_Access | RE_NoDevice | RE_NotFound | RE_Busy | RE_Timeout
  | RE_Overflow | RE_Pipe | RE_Interrupted | RE_NoMem | RE_NotSupported | RE_BadDescriptor | RE_Other

fun map_usb_err :: "rusb_error \<Rightarrow> ErrorKind" where
  "map_usb_err RE_Io = Usb UC_Io"
| "map_usb_err RE_InvalidParam = Usb UC_InvalidParam"
| "map_usb_err RE_Access = Usb UC_Access"
| "map_usb_err RE_NoDevice = Usb UC_NoDevice"
| "map_usb_err RE_NotFound = Usb UC_NotFound"
| "map_usb_err RE_Busy = Usb UC_Busy"
| "map_usb_err RE_Timeout = Usb UC_Timeout"
| "map_usb_err RE_Overflow = Usb UC_Overflow"
| "map_usb_err RE_Pipe = Usb UC_Pipe"
| "map_usb_err RE_Interrupted = Usb UC_Interrupted"
| "map_usb_err RE_NoMem = Usb UC_NoMem"
| "map_usb_err RE_NotSupported = Usb UC_NotSupported"
| "map_usb_err RE_BadDescriptor = Usb UC_BadDescriptor"
| "map_usb_err RE_Other = Usb UC_Other"

type_synonym 'a rusb_result = "rusb_error + 'a"

definition usb_res :: "'a rusb_result \<Rightarrow> 'a UsbIpResult" where
  "usb_res r = (case r of Inl e \<Rightarrow> Inl (map_usb_err e) | Inr a \<Rightarrow> Inr a)"

record rusb_endpoint =
  rep_length :: u8
  rep_descriptor_type :: u8
  rep_address :: u8
  rep_transfer_type :: u8
  rep_max_packet_size :: u16
  rep_interval :: u8

record rusb_interface =
  rif_length :: u8
  rif_descriptor_type :: u8
  rif_interface_number :: u8
  rif_setting_number :: u8
  rif_num_endpoints :: u8
  rif_class_code :: u8
  rif_sub_class_code :: u8
  rif_protocol_code :: u8
  rif_description :: "u8 option"
  rif_extra :: bytes
  rif_endpoints :: "rusb_endpoint list"

record rusb_config =
  rcf_length :: u8
  rcf_descriptor_type :: u8
  rcf_total_length :: u16
  rcf_num_interfaces :: u8
  rcf_number :: u8
  rcf_description :: "u8 option"
  rcf_self_powered :: bool
  rcf_remote_wakeup :: bool
  rcf_max_power :: u16
  rcf_interfaces :: "rusb_interface list list"

record rusb_device =
  rdv_length :: u8
  rdv_descriptor_type :: u8
  rdv_usb_version :: "u8 \<times> u8 \<times> u8"
  rdv_class_code :: u8
  rdv_sub_class_code :: u8
  rdv_protocol_code :: u8
  rdv_max_packet_size :: u8
  rdv_vendor_id :: u16
  rdv_product_id :: u16
  rdv_device_version :: "u8 \<times> u8 \<times> u8"
  rdv_manufacturer :: "u8 option"
  rdv_product :: "u8 option"
  rdv_serial_number :: "u8 option"
  rdv_num_configurations :: u8

text \<open>
  The calls into \<^verbatim>\<open>rusb\<close>. A read returns the number of bytes and the whole buffer it was
  given; claims, releases and transfers may change the USB subsystem.
\<close>

record ('w, 'd, 'h) rusb =
  rb_devices :: "'w \<Rightarrow> 'd list rusb_result"
  rb_bus_number :: "'d \<Rightarrow> u8"
  rb_address :: "'d \<Rightarrow> u8"
  rb_speed :: "'d \<Rightarrow> u32"
  rb_device_descriptor :: "'w \<Rightarrow> 'd \<Rightarrow> rusb_device rusb_result"
  rb_config_descriptor :: "'w \<Rightarrow> 'd \<Rightarrow> u8 \<Rightarrow> rusb_config rusb_result"
  rb_active_config :: "'w \<Rightarrow> 'd \<Rightarrow> rusb_config rusb_result"
  rb_open :: "'w \<Rightarrow> 'd \<Rightarrow> 'h rusb_result \<times> 'w"
  rb_device_of :: "'h \<Rightarrow> 'd"
  rb_detach :: "'w \<Rightarrow> 'h \<Rightarrow> u8 \<Rightarrow> unit rusb_result \<times> 'w"
  rb_claim :: "'w \<Rightarrow> 'h \<Rightarrow> u8 \<Rightarrow> unit rusb_result \<times> 'w"
  rb_release :: "'w \<Rightarrow> 'h \<Rightarrow> u8 \<Rightarrow> unit rusb_result \<times> 'w"
  rb_attach :: "'w \<Rightarrow> 'h \<Rightarrow> u8 \<Rightarrow> unit rusb_result \<times> 'w"
  rb_read_control :: "'w \<Rightarrow> 'h \<Rightarrow> u8 \<Rightarrow> u8 \<Rightarrow> u16 \<Rightarrow> u16 \<Rightarrow> nat \<Rightarrow> (nat \<times> bytes) rusb_result \<times> 'w"
  rb_write_control :: "'w \<Rightarrow> 'h \<Rightarrow> u8 \<Rightarrow> u8 \<Rightarrow> u16 \<Rightarrow> u16 \<Rightarrow> bytes \<Rightarrow> nat rusb_result \<times> 'w"
  rb_read_bulk :: "'w \<Rightarrow> 'h \<Rightarrow> u8 \<Rightarrow> nat \<Rightarrow> (nat \<times> bytes) rusb_result \<times> 'w"
  rb_write_bulk :: "'w \<Rightarrow> 'h \<Rightarrow> u8 \<Rightarrow> bytes \<Rightarrow> nat rusb_result \<times> 'w"

text \<open>A read of a buffer of \<open>n\<close> bytes reports at most \<open>n\<close> of them.\<close>

definition rusb_contract :: "('w, 'd, 'h) rusb \<Rightarrow> bool" where
  "rusb_contract X \<longleftrightarrow>
     (\<forall>w h a b c d n l bs w'. rb_read_control X w h a b c d n = (Inr (l, bs), w') \<longrightarrow>
        l \<le> n \<and> length bs = n)
     \<and> (\<forall>w h e n l bs w'. rb_read_bulk X w h e n = (Inr (l, bs), w') \<longrightarrow> l \<le> n \<and> length bs = n)"

record ('w, 'h) LibusbBackend =
  lb_world :: 'w
  lb_handles :: "string \<rightharpoonup> 'h \<times> bool"

definition find_device :: "('w, 'd, 'h) rusb \<Rightarrow> 'w \<Rightarrow> u8 \<Rightarrow> u8 \<Rightarrow> 'd UsbIpResult" where
  "find_device X w bn dn =
     (case usb_res (rb_devices X w) of
        Inl e \<Rightarrow> Inl e
      | Inr devices \<Rightarrow>
        (case find (\<lambda>d. rb_bus_number X d = bn \<and> rb_address X d = dn) devices of
           Some d \<Rightarrow> Inr d
         | None \<Rightarrow> Inl (DeviceNotFound
             (''bus '' @ show_dec (unat bn) @ '' dev '' @ show_dec (unat dn)))))"

definition device_to_core :: "rusb_device \<Rightarrow> DeviceDescriptor" where
  "device_to_core d =
     \<lparr>dd_length = rdv_length d,
      dd_descriptor_type = rdv_descriptor_type d,
      dd_bcd_usb = push_bit 8 (ucast (fst (rdv_usb_version d))) OR ucast (fst (snd (rdv_usb_version d))),
      dd_device_class = rdv_class_code d,
      dd_device_sub_class = rdv_sub_class_code d,
      dd_device_protocol = rdv_protocol_code d,
      dd_max_packet_size0 = rdv_max_packet_size d,
      dd_id_vendor = rdv_vendor_id d,
      dd_id_product = rdv_product_id d,
      dd_bcd_device = ucast (fst (rdv_device_version d)),
      dd_manufacturer = (case rdv_manufacturer d of Some i \<Rightarrow> i | None \<Rightarrow> 0),
      dd_product = (case rdv_product d of Some i \<Rightarrow> i | None \<Rightarrow> 0),
      dd_serial_number = (case rdv_serial_number d of Some i \<Rightarrow> i | None \<Rightarrow> 0),
      dd_num_configurations = rdv_num_configurations d\<rparr>"

definition config_to_core :: "rusb_config \<Rightarrow> ConfigDescriptor" where
  "config_to_core c =
     \<lparr>cd_length = rcf_length c,
      cd_descriptor_type = rcf_descriptor_type c,
      cd_total_length = rcf_total_length c,
      cd_num_interfaces = rcf_num_interfaces c,
      cd_configuration_value = rcf_number c,
      cd_configuration = (case rcf_description c of Some i \<Rightarrow> i | None \<Rightarrow> 0),
      cd_attributes = (if rcf_self_powered c then 0x40 else 0) OR (if rcf_remote_wakeup c then 0x20 else 0),
      cd_max_power = ucast (rcf_max_power c)\<rparr>"

definition interface_to_core :: "rusb_interface \<Rightarrow> InterfaceDescriptor" where
  "interface_to_core i =
     \<lparr>id_length = rif_length i,
      id_descriptor_type = rif_descriptor_type i,
      id_interface_number = rif_interface_number i,
      id_alternate_setting = rif_setting_number i,
      id_num_endpoints = rif_num_endpoints i,
      id_interface_class = rif_class_code i,
      id_interface_sub_class = rif_sub_class_code i,
      id_interface_protocol = rif_protocol_code i,
      id_interface = (case rif_description i of Some x \<Rightarrow> x | None \<Rightarrow> 0)\<rparr>"

definition endpoint_to_core :: "rusb_endpoint \<Rightarrow> EndpointDescriptor" where
  "endpoint_to_core e =
     \<lparr>ep_length = rep_length e,
      ep_descriptor_type = rep_descriptor_type e,
      ep_endpoint_address = rep_address e,
      ep_attributes = rep_transfer_type e,
      ep_max_packet_size = rep_max_packet_size e,
      ep_interval = rep_interval e\<rparr>"

definition libusb_entry :: "('w, 'd, 'h) rusb \<Rightarrow> 'w \<Rightarrow> 'd \<Rightarrow> UsbIpDeviceEntry option" where
  "libusb_entry X w d =
     (case rb_device_descriptor X w d of
        Inl _ \<Rightarrow> None
      | Inr desc \<Rightarrow>
        (let bn = rb_bus_number X d; dn = rb_address X d;
             entry = \<lparr>
               dev_path = copy_padded 256 255
                 (''/sys/bus/usb/devices/'' @ show_dec (unat bn) @ ''-'' @ show_dec (unat dn)),
               dev_busid = copy_padded 32 31 (show_dec (unat bn) @ ''-'' @ show_dec (unat dn)),
               busnum = ucast bn, devnum = ucast dn, speed = rb_speed X d,
               id_vendor = rdv_vendor_id desc, id_product = rdv_product_id desc,
               bcd_device = ucast (fst (rdv_device_version desc)),
               b_device_class = rdv_class_code desc,
               b_device_sub_class = rdv_sub_class_code desc,
               b_device_protocol = rdv_protocol_code desc,
               b_configuration_value = 0,
               b_num_configurations = rdv_num_configurations desc,
               b_num_interfaces = 0\<rparr>
         in case rb_config_descriptor X w d 0 of
              Inr config \<Rightarrow> Some (entry\<lparr>b_num_interfaces := rcf_num_interfaces config,
                                       b_configuration_value := rcf_number config\<rparr>)
            | Inl _ \<Rightarrow> Some entry))"

definition libusb_list_devices ::
  "('w, 'd, 'h) rusb \<Rightarrow> ('w, 'h) LibusbBackend \<Rightarrow> UsbIpDeviceEntry list" where
  "libusb_list_devices X b =
     (case rb_devices X (lb_world b) of
        Inl _ \<Rightarrow> []
      | Inr devices \<Rightarrow> List.map_filter (libusb_entry X (lb_world b)) devices)"

definition libusb_get_device_entry ::
  "('w, 'd, 'h) rusb \<Rightarrow> ('w, 'h) LibusbBackend \<Rightarrow> string \<Rightarrow> UsbIpDeviceEntry option" where
  "libusb_get_device_entry X b bid = find_entry (libusb_list_devices X b) bid"

text \<open>The interface number of index \<open>i\<close>: that of the first alternate setting, if any.\<close>

definition iface_num :: "rusb_config \<Rightarrow> nat \<Rightarrow> u8 option" where
  "iface_num config i =
     (if i < length (rcf_interfaces config) then
        (case rcf_interfaces config ! i of [] \<Rightarrow> None | d # _ \<Rightarrow> Some (rif_interface_number d))
      else None)"

fun claim_interfaces ::
  "('w, 'd, 'h) rusb \<Rightarrow> rusb_config \<Rightarrow> 'h \<Rightarrow> nat list \<Rightarrow> 'w \<Rightarrow> unit UsbIpResult \<times> 'w" where
  "claim_interfaces X config h [] w = (Inr (), w)"
| "claim_interfaces X config h (i # is) w =
     (case iface_num config i of
        None \<Rightarrow> claim_interfaces X config h is w
      | Some num \<Rightarrow>
        (let (_, w1) = rb_detach X w h num; (r, w2) = rb_claim X w1 h num in
         case usb_res r of
           Inl e \<Rightarrow> (Inl e, w2)
         | Inr _ \<Rightarrow> claim_interfaces X config h is w2))"

definition libusb_claim_device ::
  "('w, 'd, 'h) rusb \<Rightarrow> ('w, 'h) LibusbBackend \<Rightarrow> string
   \<Rightarrow> unit UsbIpResult \<times> ('w, 'h) LibusbBackend" where
  "libusb_claim_device X b bid =
     (case parse_busid bid of
        Inl e \<Rightarrow> (Inl e, b)
      | Inr (bn, dn) \<Rightarrow>
        (case find_device X (lb_world b) bn dn of
           Inl e \<Rightarrow> (Inl e, b)
         | Inr d \<Rightarrow>
           (case rb_open X (lb_world b) d of
              (Inl e, w) \<Rightarrow> (Inl (map_usb_err e), b\<lparr>lb_world := w\<rparr>)
            | (Inr h, w) \<Rightarrow>
              (case usb_res (rb_config_descriptor X w d 0) of
                 Inl e \<Rightarrow> (Inl e, b\<lparr>lb_world := w\<rparr>)
               | Inr config \<Rightarrow>
                 (case claim_interfaces X config h [0..<unat (rcf_num_interfaces config)] w of
                    (Inl e, w') \<Rightarrow> (Inl e, b\<lparr>lb_world := w'\<rparr>)
                  | (Inr _, w') \<Rightarrow>
                    (Inr (), b\<lparr>lb_world := w', lb_handles := (lb_handles b)(bid \<mapsto> (h, True))\<rparr>))))))"

definition interface_tree :: "rusb_interface \<Rightarrow> bytes" where
  "interface_tree i =
     InterfaceDescriptor_to_bytes (interface_to_core i)
     @ (if rif_class_code i = 0x03 \<and> rif_extra i \<noteq> [] then rif_extra i else [])
     @ concat (map (\<lambda>e. EndpointDescriptor_to_bytes (endpoint_to_core e)) (rif_endpoints i))"

fun config_trees :: "('w, 'd, 'h) rusb \<Rightarrow> 'w \<Rightarrow> 'd \<Rightarrow> nat list \<Rightarrow> bytes UsbIpResult" where
  "config_trees X w d [] = Inr []"
| "config_trees X w d (i # is) =
     (case usb_res (rb_config_descriptor X w d (of_nat i)) of
        Inl e \<Rightarrow> Inl e
      | Inr config \<Rightarrow>
        (case config_trees X w d is of
           Inl e \<Rightarrow> Inl e
         | Inr rest \<Rightarrow>
           Inr (ConfigDescriptor_to_bytes (config_to_core config)
                @ concat (map interface_tree (concat (rcf_interfaces config))) @ rest)))"

definition libusb_get_descriptor_tree ::
  "('w, 'd, 'h) rusb \<Rightarrow> ('w, 'h) LibusbBackend \<Rightarrow> string \<Rightarrow> bytes UsbIpResult" where
  "libusb_get_descriptor_tree X b bid =
     (case parse_busid bid of
        Inl e \<Rightarrow> Inl e
      | Inr (bn, dn) \<Rightarrow>
        (case find_device X (lb_world b) bn dn of
           Inl e \<Rightarrow> Inl e
         | Inr d \<Rightarrow>
           (case usb_res (rb_device_descriptor X (lb_world b) d) of
              Inl e \<Rightarrow> Inl e
            | Inr desc \<Rightarrow>
              (case config_trees X (lb_world b) d [0..<unat (rdv_num_configurations desc)] of
                 Inl e \<Rightarrow> Inl e
               | Inr rest \<Rightarrow> Inr (DeviceDescriptor_to_bytes (device_to_core desc) @ rest)))))"

definition in_result :: "(nat \<times> bytes) rusb_result \<Rightarrow> UrbTransferResult UsbIpResult" where
  "in_result r =
     (case usb_res r of
        Inl e \<Rightarrow> Inl e
      | Inr (len, b) \<Rightarrow> Inr \<lparr>utr_status = 0, utr_actual_length = of_nat len, utr_data = take len b\<rparr>)"

definition out_result :: "nat rusb_result \<Rightarrow> UrbTransferResult UsbIpResult" where
  "out_result r =
     (case usb_res r of
        Inl e \<Rightarrow> Inl e
      | Inr len \<Rightarrow> Inr \<lparr>utr_status = 0, utr_actual_length = of_nat len, utr_data = []\<rparr>)"

definition libusb_execute_urb ::
  "('w, 'd, 'h) rusb \<Rightarrow> ('w, 'h) LibusbBackend \<Rightarrow> string \<Rightarrow> UsbIpCmdSubmit \<Rightarrow> bytes
   \<Rightarrow> UrbTransferResult UsbIpResult \<times> ('w, 'h) LibusbBackend" where
  "libusb_execute_urb X b bid cmd out =
     (case lb_handles b bid of
        None \<Rightarrow> (Inl (DeviceNotFound bid), b)
      | Some (h, _) \<Rightarrow>
        (let w = lb_world b; ep_addr = ucast (cmd_ep cmd) :: u8; s = cmd_setup cmd in
         if cmd_is_control cmd then
           (let w_value = u16_from_le_bytes (s ! 2) (s ! 3);
                w_index = u16_from_le_bytes (s ! 4) (s ! 5);
                w_length = u16_from_le_bytes (s ! 6) (s ! 7) in
            if cmd_is_in cmd then
              (let (r, w') = rb_read_control X w h (s ! 0) (s ! 1) w_value w_index (unat w_length)
               in (in_result r, b\<lparr>lb_world := w'\<rparr>))
            else
              (let (r, w') = rb_write_control X w h (s ! 0) (s ! 1) w_value w_index out
               in (out_result r, b\<lparr>lb_world := w'\<rparr>)))
         else if cmd_is_in cmd then
           (let (r, w') = rb_read_bulk X w h ep_addr (unat (max (cmd_data_len cmd) 512))
            in (in_result r, b\<lparr>lb_world := w'\<rparr>))
         else
           (let (r, w') = rb_write_bulk X w h ep_addr out
            in (out_result r, b\<lparr>lb_world := w'\<rparr>))))"

fun release_interfaces :: "('w, 'd, 'h) rusb \<Rightarrow> 'h \<Rightarrow> rusb_interface list \<Rightarrow> 'w \<Rightarrow> 'w" where
  "release_interfaces X h [] w = w"
| "release_interfaces X h (i # is) w =
     (let (_, w1) = rb_release X w h (rif_interface_number i);
          (_, w2) = rb_attach X w1 h (rif_interface_number i)
      in release_interfaces X h is w2)"

definition libusb_release_device ::
  "('w, 'd, 'h) rusb \<Rightarrow> ('w, 'h) LibusbBackend \<Rightarrow> string
   \<Rightarrow> unit UsbIpResult \<times> ('w, 'h) LibusbBackend" where
  "libusb_release_device X b bid =
     (case lb_handles b bid of
        None \<Rightarrow> (Inr (), b)
      | Some (h, _) \<Rightarrow>
        (let w = lb_world b;
             w' = (case rb_active_config X w (rb_device_of X h) of
                     Inr config \<Rightarrow> release_interfaces X h (concat (rcf_interfaces config)) w
                   | Inl _ \<Rightarrow> w)
         in (Inr (), b\<lparr>lb_world := w', lb_handles := (lb_handles b)(bid := None)\<rparr>)))"

definition LibusbBackend_ops :: "('w, 'd, 'h) rusb \<Rightarrow> ('w, 'h) LibusbBackend UsbBackend" where
  "LibusbBackend_ops X = \<lparr>
     be_list_devices = libusb_list_devices X,
     be_get_device_entry = libusb_get_device_entry X,
     be_claim_device = libusb_claim_device X,
     be_get_descriptor_tree = libusb_get_descriptor_tree X,
     be_execute_urb = libusb_execute_urb X,
     be_release_device = libusb_release_device X\<rparr>"


section \<open>Bus ids round trip\<close>

lemma show_dec_chars: "set (show_dec n) \<subseteq> set ''0123456789abcdef''"
  by (rule show_radix_chars) simp_all

lemma dash_not_in_show_dec: "CHR ''-'' \<notin> set (show_dec n)"
  using show_dec_chars [of n] by auto

lemma parse_busid_format_eq: "parse_busid (format_busid bn dn) = Inr (bn, dn)"
proof -
  have "unat bn < 256" "unat dn < 256"
    using unsigned_less [of bn, where ?'a = nat] unsigned_less [of dn, where ?'a = nat] by simp_all
  then have "parse_unsigned 256 10 (show_dec (unat bn)) = Some (unat bn)"
    "parse_unsigned 256 10 (show_dec (unat dn)) = Some (unat dn)"
    by (simp_all add: parse_unsigned_show)
  then show ?thesis
    by (simp add: parse_busid_def format_busid_def split_on_append split_on_no_sep dash_not_in_show_dec)
qed

lemma length_show_byte: "length (show_dec (unat (b :: u8))) \<le> 3"
proof -
  have "unat b < 1000" using unsigned_less [of b, where ?'a = nat] by simp
  then have "unat b div 10 < 100" "unat b div 10 div 10 < 10" by simp_all
  then show ?thesis
    by (simp add: show_radix.simps [of 10 "unat b"] show_radix.simps [of 10 "unat b div 10"]
        show_radix.simps [of 10 "unat b div 10 div 10"])
qed

lemma ascii_valid:
  assumes "set s \<subseteq> set ''0123456789abcdef-''"
  shows "utf8_valid (as_bytes s)" "CHR 0x00 \<notin> set s"
proof -
  have "b < 0x80" if "b \<in> set (as_bytes s)" for b
    using that assms by (auto simp: as_bytes_def)
  then show "utf8_valid (as_bytes s)" by (rule utf8_valid_ascii)
  show "CHR 0x00 \<notin> set s" using assms by auto
qed

lemma format_busid_chars: "set (format_busid bn dn) \<subseteq> set ''0123456789abcdef-''"
proof -
  have digits: "set (show_dec n) \<subseteq> set ''0123456789abcdef-''" for n
    by (rule subset_trans [OF show_dec_chars]) simp
  have "set ''-'' \<subseteq> set ''0123456789abcdef-''" by simp
  then show ?thesis
    unfolding format_busid_def set_append by (intro Un_least digits)
qed

lemma length_format_busid: "length (format_busid bn dn) \<le> 31"
  using length_show_byte [of bn] length_show_byte [of dn] by (simp add: format_busid_def)

section \<open>The libusb backend meets the contract\<close>

lemma libusb_entry_fields:
  assumes "libusb_entry X w d = Some e"
  shows "entry_wf e" "busnum e = ucast (rb_bus_number X d)" "devnum e = ucast (rb_address X d)"
    "dev_busid e = copy_padded 32 31 (format_busid (rb_bus_number X d) (rb_address X d))"
  using assms
  by (auto simp: libusb_entry_def entry_wf_def Let_def format_busid_def split: sum.splits)

lemma libusb_entry_busid:
  assumes "libusb_entry X w d = Some e"
  shows "busid_str e = format_busid (rb_bus_number X d) (rb_address X d)"
  by (rule busid_str_copied [OF libusb_entry_fields(4) [OF assms] length_format_busid])
    (rule ascii_valid [OF format_busid_chars])+

lemma in_result_length:
  assumes "in_result r = Inr u" "\<And>l b. r = Inr (l, b) \<Longrightarrow> l \<le> length b \<and> l < 4294967296"
  shows "length (utr_data u) = unat (utr_actual_length u)"
  using assms
  by (auto simp: in_result_def usb_res_def unat_of_nat split: sum.splits prod.splits)

lemma unat_u32_less: "unat (x :: u32) < 4294967296"
  using unsigned_less [of x, where ?'a = nat] by simp

lemma unat_u16_less: "unat (x :: u16) < 65536"
  using unsigned_less [of x, where ?'a = nat] by simp

lemma rusb_read_bounds:
  assumes "rusb_contract X"
  shows "fst (rb_read_control X w h a b c d n) = Inr (l, bs) \<Longrightarrow> l \<le> n \<and> length bs = n"
    and "fst (rb_read_bulk X w h e n) = Inr (l, bs) \<Longrightarrow> l \<le> n \<and> length bs = n"
  using assms unfolding rusb_contract_def by (metis prod.collapse)+

lemma libusb_exec_in:
  assumes X: "rusb_contract X" and ex: "libusb_execute_urb X b bid cmd out = (Inr u, b')"
    and dir: "cmd_is_in cmd"
  shows "length (utr_data u) = unat (utr_actual_length u)"
proof -
  obtain h c where h: "lb_handles b bid = Some (h, c)"
    using ex by (auto simp: libusb_execute_urb_def split: option.splits)
  let ?s = "cmd_setup cmd"
  let ?ctl = "rb_read_control X (lb_world b) h (?s ! 0) (?s ! 1) (u16_from_le_bytes (?s ! 2) (?s ! 3))
    (u16_from_le_bytes (?s ! 4) (?s ! 5)) (unat (u16_from_le_bytes (?s ! 6) (?s ! 7)))"
  let ?blk = "rb_read_bulk X (lb_world b) h (ucast (cmd_ep cmd)) (unat (max (cmd_data_len cmd) 512))"
  have *: "in_result (fst (if cmd_is_control cmd then ?ctl else ?blk)) = Inr u"
    using ex dir h by (auto simp: libusb_execute_urb_def Let_def case_prod_beta split: if_splits)
  have "l \<le> length bs \<and> l < 4294967296" if "fst ?ctl = Inr (l, bs)" for l bs
    using rusb_read_bounds(1) [OF X that] unat_u16_less [of "u16_from_le_bytes (?s ! 6) (?s ! 7)"]
    by linarith
  moreover have "l \<le> length bs \<and> l < 4294967296" if "fst ?blk = Inr (l, bs)" for l bs
    using rusb_read_bounds(2) [OF X that] unat_u32_less [of "max (cmd_data_len cmd) 512"] by linarith
  ultimately have **: "l \<le> length bs \<and> l < 4294967296"
    if "fst (if cmd_is_control cmd then ?ctl else ?blk) = Inr (l, bs)" for l bs
    using that by (cases "cmd_is_control cmd") simp_all
  show ?thesis
    by (rule in_result_length [OF * **])
qed

lemma libusb_exec_out:
  assumes "libusb_execute_urb X b bid cmd out = (Inr u, b')" "\<not> cmd_is_in cmd"
  shows "utr_data u = []"
  using assms
  by (auto simp: libusb_execute_urb_def Let_def out_result_def case_prod_beta
      split: option.splits if_splits sum.splits)

lemma libusb_exec_status:
  assumes "libusb_execute_urb X b bid cmd out = (Inr u, b')"
  shows "utr_status u = 0"
  using assms
  by (auto simp: libusb_execute_urb_def Let_def out_result_def in_result_def case_prod_beta
      split: option.splits if_splits sum.splits)

lemma libusb_backend:
  assumes "rusb_contract X"
  shows "usb_backend (LibusbBackend_ops X) (\<lambda>_. True)"
proof
  fix b b' :: "('a, 'c) LibusbBackend" and bid cmd out u e
  show "entry_wf e" if "e \<in> set (be_list_devices (LibusbBackend_ops X) b)"
    using that libusb_entry_fields(1)
    by (fastforce simp: LibusbBackend_ops_def libusb_list_devices_def map_filter_def split: sum.splits)
  show "be_execute_urb (LibusbBackend_ops X) b bid cmd out = (Inr u, b') \<Longrightarrow> utr_status u = 0"
    using libusb_exec_status by (simp add: LibusbBackend_ops_def)
  show "be_execute_urb (LibusbBackend_ops X) b bid cmd out = (Inr u, b') \<Longrightarrow> cmd_is_in cmd \<Longrightarrow>
      length (utr_data u) = unat (utr_actual_length u)"
    using libusb_exec_in [OF assms] by (simp add: LibusbBackend_ops_def)
  show "be_execute_urb (LibusbBackend_ops X) b bid cmd out = (Inr u, b') \<Longrightarrow> \<not> cmd_is_in cmd \<Longrightarrow>
      utr_data u = []"
    using libusb_exec_out by (simp add: LibusbBackend_ops_def)
qed simp_all

text \<open>A bus id printed from a bus and a device number parses back to these numbers.\<close>

theorem busid_roundtrip: "parse_busid (format_busid bn dn) = Inr (bn, dn)"
  by (rule parse_busid_format_eq)

lemma find_entry_libusb:
  assumes "rb_devices X (lb_world b) = Inr ds" "d \<in> set ds" "libusb_entry X (lb_world b) d = Some e"
  shows "\<exists>e'. find_entry (libusb_list_devices X b) (busid_str e) = Some e'
    \<and> busnum e' = busnum e \<and> devnum e' = devnum e"
proof -
  let ?P = "\<lambda>x. busnum x = ucast (rb_bus_number X d) \<and> devnum x = ucast (rb_address X d)"
  have "find_entry (libusb_list_devices X b) (busid_str e) = find ?P (libusb_list_devices X b)"
    by (simp add: find_entry_def libusb_entry_busid [OF assms(3)] parse_busid_format_eq)
  moreover have "e \<in> set (libusb_list_devices X b)"
    using assms by (force simp: libusb_list_devices_def map_filter_def)
  moreover have "?P e" using libusb_entry_fields [OF assms(3)] by simp
  ultimately show ?thesis
    by (cases "find ?P (libusb_list_devices X b)") (auto simp: find_None_iff find_Some_iff)
qed


section \<open>The descriptor tree of the libusb backend\<close>

text \<open>The tree the serializer of the core library would be given for these descriptors.\<close>

definition core_interface :: "rusb_interface \<Rightarrow> InterfaceInfo" where
  "core_interface i =
     \<lparr>ii_interface = interface_to_core i,
      ii_endpoints = map endpoint_to_core (rif_endpoints i),
      ii_hid = (if rif_class_code i = 0x03 \<and> rif_extra i \<noteq> [] then HidDescriptor_parse (rif_extra i)
                else None)\<rparr>"

definition core_config :: "rusb_config \<Rightarrow> ConfigInfo" where
  "core_config c =
     \<lparr>ci_config = config_to_core c, ci_interfaces = map core_interface (concat (rcf_interfaces c))\<rparr>"

definition core_tree :: "rusb_device \<Rightarrow> rusb_config list \<Rightarrow> UsbDeviceInfo" where
  "core_tree d cs = \<lparr>ud_device = device_to_core d, ud_configs = map core_config cs\<rparr>"

definition plain_hid :: "rusb_interface \<Rightarrow> bool" where
  "plain_hid i \<longleftrightarrow>
     (rif_class_code i = 0x03 \<and> rif_extra i \<noteq> [] \<longrightarrow> length (rif_extra i) = 9 \<and> rif_extra i ! 1 = 0x21)"

lemma hid_extra:
  assumes "length bs = 9" "bs ! 1 = 0x21"
  shows "\<exists>h. HidDescriptor_parse bs = Some h \<and> bs = HidDescriptor_to_bytes h"
proof -
  obtain h where h: "HidDescriptor_parse bs = Some h"
    using assms by (simp add: HidDescriptor_parse_def)
  then have "descriptor_reader HidDescriptor_SIZE HidDescriptor_parse bs = Some (h, [])"
    using assms by (simp add: descriptor_reader_def HidDescriptor_SIZE_def)
  then show ?thesis using h hidd.dec_inv by fastforce
qed

lemma interface_tree_core:
  assumes "plain_hid i"
  shows "interface_tree i = serialize_interface (core_interface i)"
proof (cases "rif_class_code i = 0x03 \<and> rif_extra i \<noteq> []")
  case True
  with assms obtain h where "HidDescriptor_parse (rif_extra i) = Some h"
    "rif_extra i = HidDescriptor_to_bytes h"
    using hid_extra [of "rif_extra i"] unfolding plain_hid_def by blast
  with True show ?thesis
    by (simp add: interface_tree_def serialize_interface_def core_interface_def comp_def)
next
  case False
  then show ?thesis
    by (auto simp: interface_tree_def serialize_interface_def core_interface_def comp_def)
qed

lemma config_trees_core:
  assumes "\<forall>i \<in> set is. rb_config_descriptor X w d (of_nat i) = Inr (cf i)
    \<and> list_all plain_hid (concat (rcf_interfaces (cf i)))"
  shows "config_trees X w d is = Inr (concat (map (serialize_config \<circ> core_config \<circ> cf) is))"
  using assms
proof (induction "is")
  case (Cons i "is")
  have "map interface_tree xs = map serialize_interface (map core_interface xs)"
    if "list_all plain_hid xs" for xs
    using that by (simp add: list_all_iff interface_tree_core)
  from this [of "concat (rcf_interfaces (cf i))"]
  have "concat (map interface_tree (concat (rcf_interfaces (cf i))))
      = concat (map serialize_interface (map core_interface (concat (rcf_interfaces (cf i)))))"
    using Cons.prems by (simp only: list.set_intros)
  then show ?case
    using Cons by (simp add: usb_res_def serialize_config_def core_config_def)
qed simp

lemma libusb_tree_serialized:
  assumes "parse_busid bid = Inr (bn, dn)" "find_device X (lb_world b) bn dn = Inr d"
    and "rb_device_descriptor X (lb_world b) d = Inr desc"
    and "\<forall>i \<in> set [0..<unat (rdv_num_configurations desc)].
      rb_config_descriptor X (lb_world b) d (of_nat i) = Inr (cf i)
      \<and> list_all plain_hid (concat (rcf_interfaces (cf i)))"
  shows "libusb_get_descriptor_tree X b bid = Inr (serialize_descriptor_tree
    (core_tree desc (map cf [0..<unat (rdv_num_configurations desc)])))"
  using assms(1-3) config_trees_core [OF assms(4)]
  by (simp add: libusb_get_descriptor_tree_def usb_res_def serialize_descriptor_tree_def
      core_tree_def comp_assoc)

text \<open>
  What a parsed descriptor has to say of the device, field by field, as \<^verbatim>\<open>rusb\<close> reports it. The
  conversions lose something, and that is stated too: of an endpoint's attributes only the transfer
  type is left, of a configuration's the two flags; the power is in milliamperes, modulo 256; of the
  versions, which are three digits each, the USB release keeps the first two, as bytes, and the
  device release the first. Absent string indices are 0.
\<close>

definition endpoint_of :: "rusb_endpoint \<Rightarrow> EndpointDescriptor \<Rightarrow> bool" where
  "endpoint_of r e \<longleftrightarrow>
     ep_length e = rep_length r \<and> ep_descriptor_type e = rep_descriptor_type r
     \<and> ep_endpoint_address e = rep_address r \<and> ep_attributes e = rep_transfer_type r
     \<and> ep_max_packet_size e = rep_max_packet_size r \<and> ep_interval e = rep_interval r"

definition index_of :: "u8 option \<Rightarrow> u8 \<Rightarrow> bool" where
  "index_of x i \<longleftrightarrow> (x = None \<and> i = 0) \<or> x = Some i"

definition has_hid :: "rusb_interface \<Rightarrow> bool" where
  "has_hid r \<longleftrightarrow> rif_class_code r = 0x03 \<and> rif_extra r \<noteq> []"

definition interface_of :: "rusb_interface \<Rightarrow> InterfaceInfo \<Rightarrow> bool" where
  "interface_of r ii \<longleftrightarrow>
     (let i = ii_interface ii in
      id_length i = rif_length r \<and> id_descriptor_type i = rif_descriptor_type r
      \<and> id_interface_number i = rif_interface_number r \<and> id_alternate_setting i = rif_setting_number r
      \<and> id_num_endpoints i = rif_num_endpoints r \<and> id_interface_class i = rif_class_code r
      \<and> id_interface_sub_class i = rif_sub_class_code r \<and> id_interface_protocol i = rif_protocol_code r
      \<and> index_of (rif_description r) (id_interface i))
     \<and> list_all2 endpoint_of (rif_endpoints r) (ii_endpoints ii)
     \<and> map_option HidDescriptor_to_bytes (ii_hid ii) = (if has_hid r then Some (rif_extra r) else None)"

definition config_of :: "rusb_config \<Rightarrow> ConfigInfo \<Rightarrow> bool" where
  "config_of r ci \<longleftrightarrow>
     (let c = ci_config ci in
      cd_length c = rcf_length r \<and> cd_descriptor_type c = rcf_descriptor_type r
      \<and> cd_total_length c = rcf_total_length r \<and> cd_num_interfaces c = rcf_num_interfaces r
      \<and> cd_configuration_value c = rcf_number r \<and> index_of (rcf_description r) (cd_configuration c)
      \<and> unat (cd_attributes c) = (if rcf_self_powered r then 64 else 0) + (if rcf_remote_wakeup r then 32 else 0)
      \<and> unat (cd_max_power c) = unat (rcf_max_power r) mod 256)
     \<and> list_all2 interface_of (concat (rcf_interfaces r)) (ci_interfaces ci)"

definition device_of :: "rusb_device \<Rightarrow> DeviceDescriptor \<Rightarrow> bool" where
  "device_of r d \<longleftrightarrow>
     dd_length d = rdv_length r \<and> dd_descriptor_type d = rdv_descriptor_type r
     \<and> unat (dd_bcd_usb d) = 256 * unat (fst (rdv_usb_version r)) + unat (fst (snd (rdv_usb_version r)))
     \<and> dd_device_class d = rdv_class_code r \<and> dd_device_sub_class d = rdv_sub_class_code r
     \<and> dd_device_protocol d = rdv_protocol_code r \<and> dd_max_packet_size0 d = rdv_max_packet_size r
     \<and> dd_id_vendor d = rdv_vendor_id r \<and> dd_id_product d = rdv_product_id r
     \<and> unat (dd_bcd_device d) = unat (fst (rdv_device_version r))
     \<and> index_of (rdv_manufacturer r) (dd_manufacturer d) \<and> index_of (rdv_product r) (dd_product d)
     \<and> index_of (rdv_serial_number r) (dd_serial_number d)
     \<and> dd_num_configurations d = rdv_num_configurations r"

lemma unat_widen: "unat (ucast (b :: u8) :: u16) = unat b"
  using unsigned_less [of b, where ?'a = nat] by (simp add: unsigned_ucast_eq take_bit_eq_mod)

lemma bcd_usb_value: "unat (push_bit 8 (ucast a) OR ucast b :: u16) = 256 * unat (a :: u8) + unat (b :: u8)"
proof -
  have "push_bit 8 (ucast a :: u16) AND ucast b = 0"
    by (rule bit_word_eqI) (auto simp: bit_simps dest: bit_imp_le_length)
  then have "push_bit 8 (ucast a) OR ucast b = push_bit 8 (ucast a :: u16) + ucast b"
    by (simp add: disjunctive_add_eq_or)
  moreover have "unat (push_bit 8 (ucast a :: u16)) = 256 * unat a"
    using unsigned_less [of a, where ?'a = nat]
    by (simp add: push_bit_eq_mult unat_word_ariths unat_widen)
  ultimately show ?thesis
    using unsigned_less [of a, where ?'a = nat] unsigned_less [of b, where ?'a = nat]
    by (simp add: unat_word_ariths unat_widen)
qed

lemma device_to_core_of: "device_of r (device_to_core r)"
  by (auto simp: device_of_def device_to_core_def index_of_def bcd_usb_value unat_widen split: option.splits)

lemma config_flags:
  "unat ((if a then 0x40 else 0) OR (if b then 0x20 else 0) :: u8) = (if a then 64 else 0) + (if b then 32 else 0)"
  by simp

lemma endpoint_to_core_of: "endpoint_of r (endpoint_to_core r)"
  by (simp add: endpoint_of_def endpoint_to_core_def)

lemma core_interface_of: "plain_hid r \<Longrightarrow> interface_of r (core_interface r)"
  using hid_extra [of "rif_extra r"]
  by (auto simp: interface_of_def core_interface_def interface_to_core_def index_of_def has_hid_def plain_hid_def
      list.rel_map endpoint_to_core_of Let_def intro!: list.rel_refl split: option.splits)

lemma core_config_of:
  assumes "list_all plain_hid (concat (rcf_interfaces r))"
  shows "config_of r (core_config r)"
proof -
  have "list_all2 interface_of xs (map core_interface xs)" if "list_all plain_hid xs" for xs
    using that by (induction xs) (simp_all add: core_interface_of)
  from this [OF assms] show ?thesis
    by (auto simp: config_of_def core_config_def config_to_core_def index_of_def config_flags Let_def
        unsigned_ucast_eq take_bit_eq_mod split: option.splits)
qed

text \<open>The conditions on a device: its descriptors have the types of the standard, an interface
  announces its endpoints, and a configuration the length of all of its descriptors.\<close>

definition interface_size :: "rusb_interface \<Rightarrow> nat" where
  "interface_size r = 9 + (if has_hid r then 9 else 0) + 7 * length (rif_endpoints r)"

definition rusb_interface_ok :: "rusb_interface \<Rightarrow> bool" where
  "rusb_interface_ok r \<longleftrightarrow>
     rif_descriptor_type r = 4 \<and> list_all (\<lambda>e. rep_descriptor_type e = 5) (rif_endpoints r)
     \<and> length (rif_endpoints r) = unat (rif_num_endpoints r) \<and> rif_num_endpoints r \<noteq> 255
     \<and> (has_hid r \<longrightarrow> length (rif_extra r) = 9 \<and> rif_extra r ! 1 = 0x21)"

definition rusb_config_ok :: "rusb_config \<Rightarrow> bool" where
  "rusb_config_ok r \<longleftrightarrow>
     rcf_descriptor_type r = 2 \<and> list_all rusb_interface_ok (concat (rcf_interfaces r))
     \<and> unat (rcf_total_length r) = 9 + sum_list (map interface_size (concat (rcf_interfaces r)))"

lemma interface_ok_core:
  assumes "rusb_interface_ok r"
  shows "plain_hid r" "interface_wf (core_interface r)" "length (serialize_interface (core_interface r)) = interface_size r"
proof -
  show p: "plain_hid r" using assms by (auto simp: rusb_interface_ok_def plain_hid_def has_hid_def)
  have hid: "\<exists>h. ii_hid (core_interface r) = Some h \<and> hid_descriptor_type h = 0x21" if "has_hid r"
    using that assms by (auto simp: core_interface_def has_hid_def rusb_interface_ok_def HidDescriptor_parse_def)
  have nohid: "ii_hid (core_interface r) = None" if "\<not> has_hid r" using that by (auto simp: core_interface_def has_hid_def)
  show "interface_wf (core_interface r)"
    using assms hid nohid
    by (cases "has_hid r") (auto simp: interface_wf_def rusb_interface_ok_def core_interface_def interface_to_core_def
        endpoint_to_core_def list_all_iff)
  have "length (concat (map (EndpointDescriptor_to_bytes \<circ> endpoint_to_core) es)) = 7 * length es" for es
    by (induction es) simp_all
  then show "length (serialize_interface (core_interface r)) = interface_size r"
    using hid nohid
    by (cases "has_hid r")
      (auto simp: serialize_interface_def interface_size_def core_interface_def comp_def split: if_splits)
qed

lemma core_tree_wf: "list_all rusb_config_ok cs \<Longrightarrow> tree_wf (core_tree d cs)"
proof -
  have "config_wf (core_config c)" if c: "rusb_config_ok c" for c
  proof -
    have "length (concat (map serialize_interface (map core_interface xs))) = sum_list (map interface_size xs)"
      if "list_all rusb_interface_ok xs" for xs
      using that by (induction xs) (simp_all add: interface_ok_core)
    then show ?thesis
      using c interface_ok_core(2)
      by (auto simp: config_wf_def rusb_config_ok_def core_config_def config_to_core_def serialize_config_def
          list_all_iff simp del: map_map)
  qed
  then show "list_all rusb_config_ok cs \<Longrightarrow> ?thesis"
    by (auto simp: tree_wf_def core_tree_def list_all_iff)
qed


text \<open>A mouse behind libusb, for the witnesses.\<close>

definition sample_rusb :: "(unit, unit, unit) rusb" where
  "sample_rusb = \<lparr>
     rb_devices = (\<lambda>_. Inr [()]), rb_bus_number = (\<lambda>_. 1), rb_address = (\<lambda>_. 2), rb_speed = (\<lambda>_. 1),
     rb_device_descriptor = (\<lambda>_ _. Inr \<lparr>rdv_length = 18, rdv_descriptor_type = 1,
       rdv_usb_version = (2, 0, 0), rdv_class_code = 0, rdv_sub_class_code = 0, rdv_protocol_code = 0,
       rdv_max_packet_size = 8, rdv_vendor_id = 0x046d, rdv_product_id = 0xc077,
       rdv_device_version = (0x72, 0, 0), rdv_manufacturer = Some 1, rdv_product = Some 2,
       rdv_serial_number = None, rdv_num_configurations = 1\<rparr>),
     rb_config_descriptor = (\<lambda>_ _ _. Inr \<lparr>rcf_length = 9, rcf_descriptor_type = 2,
       rcf_total_length = 34, rcf_num_interfaces = 1, rcf_number = 1, rcf_description = None,
       rcf_self_powered = False, rcf_remote_wakeup = True, rcf_max_power = 98,
       rcf_interfaces = [[\<lparr>rif_length = 9, rif_descriptor_type = 4, rif_interface_number = 0,
         rif_setting_number = 0, rif_num_endpoints = 1, rif_class_code = 3, rif_sub_class_code = 1,
         rif_protocol_code = 2, rif_description = None, rif_extra = [9, 0x21, 0x11, 1, 0, 1, 0x22, 46, 0],
         rif_endpoints = [\<lparr>rep_length = 7, rep_descriptor_type = 5, rep_address = 0x81,
           rep_transfer_type = 3, rep_max_packet_size = 4, rep_interval = 10\<rparr>]\<rparr>]]\<rparr>),
     rb_active_config = (\<lambda>_ _. Inl RE_NotFound), rb_open = (\<lambda>_ _. (Inr (), ())),
     rb_device_of = (\<lambda>_. ()), rb_detach = (\<lambda>_ _ _. (Inr (), ())), rb_claim = (\<lambda>_ _ _. (Inr (), ())),
     rb_release = (\<lambda>_ _ _. (Inr (), ())), rb_attach = (\<lambda>_ _ _. (Inr (), ())),
     rb_read_control = (\<lambda>_ _ _ _ _ _ n. (Inr (n, replicate n 0), ())),
     rb_write_control = (\<lambda>_ _ _ _ _ _ bs. (Inr (length bs), ())),
     rb_read_bulk = (\<lambda>_ _ _ n. (Inr (min n 4, replicate n 7), ())),
     rb_write_bulk = (\<lambda>_ _ _ bs. (Inr (length bs), ()))\<rparr>"

definition sample_libusb :: "(unit, unit) LibusbBackend" where
  "sample_libusb = \<lparr>lb_world = (), lb_handles = Map.empty\<rparr>"

lemma sample_rusb_contract: "rusb_contract sample_rusb"
  by (simp add: rusb_contract_def sample_rusb_def)

definition sample_desc :: rusb_device where
  "sample_desc = (case rb_device_descriptor sample_rusb () () of Inr x \<Rightarrow> x)"

definition sample_cf :: rusb_config where
  "sample_cf = (case rb_config_descriptor sample_rusb () () 0 of Inr x \<Rightarrow> x)"

lemma sample_rusb_facts:
  "rb_device_descriptor sample_rusb w d = Inr sample_desc"
  "rb_config_descriptor sample_rusb w d i = Inr sample_cf"
  "[0..<unat (rdv_num_configurations sample_desc)] = [0]"
  "list_all plain_hid (concat (rcf_interfaces sample_cf))"
  "find_device sample_rusb w 1 2 = Inr d"
  by (simp_all add: sample_desc_def sample_cf_def sample_rusb_def plain_hid_def find_device_def usb_res_def)

lemma sample_config_ok: "rusb_config_ok sample_cf"
  by (simp add: rusb_config_ok_def rusb_interface_ok_def interface_size_def has_hid_def sample_cf_def sample_rusb_def)

lemma sample_core_wf: "tree_wf (core_tree sample_desc [sample_cf])"
  by (rule core_tree_wf) (simp add: sample_config_ok)

lemma sample_libusb_tree:
  "libusb_get_descriptor_tree sample_rusb b (format_busid 1 2)
     = Inr (serialize_descriptor_tree (core_tree sample_desc [sample_cf]))"
  using libusb_tree_serialized [OF parse_busid_format_eq, where cf = "\<lambda>_. sample_cf" and X = sample_rusb
      and bn = 1 and dn = 2 and b = b and d = "()" and desc = sample_desc] sample_rusb_facts
  by simp


end
