(* ===== verification/Usb_Manager.thy ===== *)
theory Usb_Manager
  imports Usb_Backend
begin

text \<open>
  \<^verbatim>\<open>server/usbip-server/src/usb.rs\<close>: the device manager, which delegates to a backend
  \<open>B\<close> and keeps the set of claimed bus ids, and the mapping of every URB outcome to a
  reply status.
\<close>

record UrbResult =
  ur_status :: i32
  ur_actual_length :: u32
  ur_data :: bytes

record 'b UsbDeviceManager =
  um_backend :: 'b
  um_handles :: "string \<rightharpoonup> bool"

definition with_backend :: "'b \<Rightarrow> 'b UsbDeviceManager" where
  "with_backend b = \<lparr>um_backend = b, um_handles = Map.empty\<rparr>"

definition list_devices :: "'b UsbBackend \<Rightarrow> 'b UsbDeviceManager \<Rightarrow> UsbIpDeviceEntry list" where
  "list_devices B m = be_list_devices B (um_backend m)"

definition list_exportable_devices ::
  "'b UsbBackend \<Rightarrow> 'b UsbDeviceManager \<Rightarrow> (u16 \<times> u16) list \<Rightarrow> UsbIpDeviceEntry list" where
  "list_exportable_devices B m allowed =
     (if allowed = [] then list_devices B m
      else filter (\<lambda>d. list_ex (\<lambda>(vid, pid). entry_vid d = vid \<and> entry_pid d = pid) allowed)
             (list_devices B m))"

definition get_device_entry ::
  "'b UsbBackend \<Rightarrow> 'b UsbDeviceManager \<Rightarrow> string \<Rightarrow> UsbIpDeviceEntry option" where
  "get_device_entry B m bid = find_entry (list_devices B m) bid"

definition claim_device ::
  "'b UsbBackend \<Rightarrow> 'b UsbDeviceManager \<Rightarrow> string \<Rightarrow> unit UsbIpResult \<times> 'b UsbDeviceManager" where
  "claim_device B m bid =
     (case be_claim_device B (um_backend m) bid of
        (Inl e, b) \<Rightarrow> (Inl e, m\<lparr>um_backend := b\<rparr>)
      | (Inr _, b) \<Rightarrow>
        (Inr (), m\<lparr>um_backend := b, um_handles := (um_handles m)(bid \<mapsto> True)\<rparr>))"

definition get_descriptor_tree ::
  "'b UsbBackend \<Rightarrow> 'b UsbDeviceManager \<Rightarrow> string \<Rightarrow> bytes UsbIpResult" where
  "get_descriptor_tree B m bid = be_get_descriptor_tree B (um_backend m) bid"

definition execute_urb ::
  "'b UsbBackend \<Rightarrow> 'b UsbDeviceManager \<Rightarrow> string \<Rightarrow> UsbIpCmdSubmit \<Rightarrow> bytes
   \<Rightarrow> UrbTransferResult UsbIpResult \<times> 'b UsbDeviceManager" where
  "execute_urb B m bid cmd out =
     (case um_handles m bid of
        None \<Rightarrow> (Inl (DeviceNotFound bid), m)
      | Some _ \<Rightarrow>
        (let (r, b) = be_execute_urb B (um_backend m) bid cmd out in (r, m\<lparr>um_backend := b\<rparr>)))"

definition urb_error_status :: "ErrorKind \<Rightarrow> i32" where
  "urb_error_status e =
     (case e of
        Usb code \<Rightarrow> usb_error_to_urb_status code
      | DeviceNotFound _ \<Rightarrow> -19
      | Timeout \<Rightarrow> -62
      | _ \<Rightarrow> -5)"

definition submit_urb ::
  "'b UsbBackend \<Rightarrow> 'b UsbDeviceManager \<Rightarrow> string \<Rightarrow> UsbIpCmdSubmit \<Rightarrow> bytes
   \<Rightarrow> UrbResult \<times> 'b UsbDeviceManager" where
  "submit_urb B m bid cmd out =
     (case execute_urb B m bid cmd out of
        (Inr u, m') \<Rightarrow>
          (\<lparr>ur_status = utr_status u, ur_actual_length = utr_actual_length u, ur_data = utr_data u\<rparr>, m')
      | (Inl e, m') \<Rightarrow> (\<lparr>ur_status = urb_error_status e, ur_actual_length = 0, ur_data = []\<rparr>, m'))"

definition release_device ::
  "'b UsbBackend \<Rightarrow> 'b UsbDeviceManager \<Rightarrow> string \<Rightarrow> unit UsbIpResult \<times> 'b UsbDeviceManager" where
  "release_device B m bid =
     (case be_release_device B (um_backend m) bid of
        (Inl e, b) \<Rightarrow> (Inl e, m\<lparr>um_backend := b, um_handles := (um_handles m)(bid := None)\<rparr>)
      | (Inr _, b) \<Rightarrow> (Inr (), m\<lparr>um_backend := b, um_handles := (um_handles m)(bid := None)\<rparr>))"

section \<open>Replies\<close>

lemma urb_error_status_nonzero: "urb_error_status e \<noteq> 0"
  by (cases e) (simp_all add: urb_error_status_def usb_error_to_urb_status_nonzero)

text \<open>The reply to a URB as the server puts it on the wire.\<close>

definition reply_frame :: "UsbIpCmdSubmit \<Rightarrow> UrbResult \<Rightarrow> bytes" where
  "reply_frame cmd r = serialize_reply cmd (ur_status r) (ur_actual_length r) (ur_data r)"

text \<open>The two places that say which way a transfer goes.\<close>

definition direction_consistent :: "UsbIpCmdSubmit \<Rightarrow> bool" where
  "direction_consistent cmd \<longleftrightarrow> (cmd_is_in cmd \<longleftrightarrow> cmd_direction cmd \<noteq> 0)"

lemma reply_data_ok:
  assumes "length (ur_data r) =
      (if ur_status r = 0 \<and> cmd_direction cmd \<noteq> 0 then unat (ur_actual_length r) else 0)"
  shows "ret_data_ok (reply_of cmd (ur_status r) (ur_actual_length r)) (ur_data r)"
  using assms
  by (auto simp: ret_data_ok_def ret_has_data_def ret_is_success_def reply_of_def unat_gt_0 word_neq_0_conv [symmetric])

lemma reply_frame_is_frame:
  assumes "cmd_wf cmd"
    and "length (ur_data r) =
      (if ur_status r = 0 \<and> cmd_direction cmd \<noteq> 0 then unat (ur_actual_length r) else 0)"
  shows "is_frame (reply_frame cmd r)"
  using reply_data_ok [OF assms(2)] reply_of_wf assms(1)
  unfolding is_frame_def reply_frame_def serialize_reply_eq by blast

context usb_backend
begin

lemma submit_inv:
  assumes "binv (um_backend m)" "submit_urb B m bid cmd out = (r, m')"
  shows "binv (um_backend m')"
proof -
  obtain x b' where x: "be_execute_urb B (um_backend m) bid cmd out = (x, b')" by force
  have "binv b'" by (rule exec_inv [OF assms(1) x])
  then show ?thesis
    using assms x
    by (auto simp: submit_urb_def execute_urb_def split: option.splits sum.splits)
qed

lemma submit_data:
  assumes "binv (um_backend m)" "submit_urb B m bid cmd out = (r, m')" "direction_consistent cmd"
  shows "length (ur_data r) =
    (if ur_status r = 0 \<and> cmd_direction cmd \<noteq> 0 then unat (ur_actual_length r) else 0)"
proof (cases "execute_urb B m bid cmd out")
  case (Pair x m1)
  show ?thesis
  proof (cases x)
    case (Inl e)
    then show ?thesis using assms(2) Pair by (auto simp: submit_urb_def urb_error_status_nonzero)
  next
    case (Inr u)
    then obtain b' where b': "be_execute_urb B (um_backend m) bid cmd out = (Inr u, b')"
      using Pair by (auto simp: execute_urb_def split: option.splits prod.splits)
    have r: "r = \<lparr>ur_status = utr_status u, ur_actual_length = utr_actual_length u, ur_data = utr_data u\<rparr>"
      using assms(2) Pair Inr by (simp add: submit_urb_def)
    show ?thesis
      using exec_status [OF assms(1) b'] exec_in [OF assms(1) b'] exec_out [OF assms(1) b'] assms(3)
      by (cases "cmd_is_in cmd") (simp_all add: r direction_consistent_def)
  qed
qed

lemma submit_is_frame:
  "binv (um_backend m) \<Longrightarrow> submit_urb B m bid cmd out = (r, m') \<Longrightarrow> cmd_wf cmd \<Longrightarrow>
   direction_consistent cmd \<Longrightarrow> is_frame (reply_frame cmd r)"
  using reply_frame_is_frame submit_data by blast

end

lemma submit_unclaimed:
  "um_handles m bid = None \<Longrightarrow>
   submit_urb B m bid cmd out = (\<lparr>ur_status = -19, ur_actual_length = 0, ur_data = []\<rparr>, m)"
  by (simp add: submit_urb_def execute_urb_def urb_error_status_def)

lemma submit_reply_forms:
  assumes "submit_urb B m bid cmd out = (r, m')"
  shows "(\<exists>u. execute_urb B m bid cmd out = (Inr u, m') \<and> ur_status r = utr_status u \<and> ur_data r = utr_data u
      \<and> ur_actual_length r = utr_actual_length u)
    \<or> (\<exists>e. execute_urb B m bid cmd out = (Inl e, m') \<and> ur_status r = urb_error_status e
      \<and> ur_actual_length r = 0 \<and> ur_data r = [])"
  using assms by (auto simp: submit_urb_def split: prod.splits sum.splits)

text \<open>C22: Every URB outcome of the libusb backend, success or any error, becomes a reply that is
  one well-formed frame, so that the stream stays in step: the reader takes exactly the reply.
  The submission's direction field and its IN flag have to agree.\<close>

theorem libusb_reply_is_frame:
  assumes "rusb_contract X" "cmd_wf cmd" "direction_consistent cmd"
    and "submit_urb (LibusbBackend_ops X) m bid cmd out = (r, m')"
  shows "read_message (t\<lparr>rx := reply_frame cmd r @ s\<rparr>) = (Inr (reply_frame cmd r), t\<lparr>rx := s\<rparr>)"
  using usb_backend.submit_is_frame [OF libusb_backend [OF assms(1)] _ assms(4,2,3)] read_message_frame
  by blast

definition sample_cmd :: UsbIpCmdSubmit where
  "sample_cmd = \<lparr>cmd_seqnum = 1, cmd_devid = 0x10002, cmd_direction = 1, cmd_ep = 0x81,
     cmd_transfer_flags = 0x200, cmd_transfer_buffer_length = 4, cmd_start_frame = 0,
     cmd_number_of_packets = 0, cmd_interval = 0, cmd_setup = replicate 8 0\<rparr>"

lemma sample_cmd_ok: "cmd_wf sample_cmd" "direction_consistent sample_cmd"
  by (simp_all add: sample_cmd_def cmd_wf_def direction_consistent_def cmd_is_in_def URB_DIR_IN_def)

definition sample_claimed :: "(unit, unit) LibusbBackend UsbDeviceManager" where
  "sample_claimed =
     \<lparr>um_backend = \<lparr>lb_world = (), lb_handles = [''1-2'' \<mapsto> ((), True)]\<rparr>, um_handles = [''1-2'' \<mapsto> True]\<rparr>"

lemma sample_submit:
  "submit_urb (LibusbBackend_ops sample_rusb) sample_claimed ''1-2'' (sample_cmd\<lparr>cmd_seqnum := k\<rparr>) [] =
     (\<lparr>ur_status = 0, ur_actual_length = 4, ur_data = replicate 4 7\<rparr>, sample_claimed)"
proof -
  let ?cmd = "sample_cmd\<lparr>cmd_seqnum := k\<rparr>"
  have "\<not> cmd_is_control ?cmd" "cmd_is_in ?cmd" "max (cmd_data_len ?cmd) 512 = 512"
    by (simp_all add: sample_cmd_def cmd_is_control_def cmd_is_in_def cmd_data_len_def URB_DIR_IN_def)
  moreover have "rb_read_bulk sample_rusb w h e n = (Inr (min n 4, replicate n 7), ())" for w h e n
    by (simp add: sample_rusb_def)
  ultimately show ?thesis
    by (simp add: submit_urb_def execute_urb_def LibusbBackend_ops_def libusb_execute_urb_def
        in_result_def usb_res_def Let_def sample_claimed_def)
qed

theorem libusb_reply_is_frame_witness:
  "\<exists>r m'. submit_urb (LibusbBackend_ops sample_rusb) sample_claimed ''1-2'' (sample_cmd\<lparr>cmd_seqnum := 1\<rparr>) [] = (r, m')
    \<and> ur_data r = replicate 4 7
    \<and> read_message ((sample_tcp [])\<lparr>rx := reply_frame (sample_cmd\<lparr>cmd_seqnum := 1\<rparr>) r @ [1]\<rparr>)
        = (Inr (reply_frame (sample_cmd\<lparr>cmd_seqnum := 1\<rparr>) r), (sample_tcp [])\<lparr>rx := [1]\<rparr>)"
proof -
  have ok: "cmd_wf (sample_cmd\<lparr>cmd_seqnum := 1\<rparr>)" "direction_consistent (sample_cmd\<lparr>cmd_seqnum := 1\<rparr>)"
    by (simp_all add: sample_cmd_def cmd_wf_def direction_consistent_def cmd_is_in_def URB_DIR_IN_def)
  show ?thesis
    using sample_submit libusb_reply_is_frame [OF sample_rusb_contract ok sample_submit, where t = "sample_tcp []"
        and s = "[1]"] by auto
qed

text \<open>When the direction field says OUT but the backend returned IN data (it looks at the
  transfer flags), the reader takes the reply without its data and the data bytes are left in
  the stream, where they are read as the next message.\<close>

theorem reply_direction_mismatch:
  assumes "cmd_wf cmd" "cmd_direction cmd = 0"
  shows "read_message (t\<lparr>rx := serialize_reply cmd 0 al data @ r\<rparr>)
    = (Inr (serialize_reply cmd 0 al []), t\<lparr>rx := data @ r\<rparr>)"
proof -
  have "ret_data_ok (reply_of cmd 0 al) []"
    using assms(2) by (simp add: ret_data_ok_def ret_has_data_def reply_of_def)
  from read_message_ret [OF _ this, where t = t and r = "data @ r"] show ?thesis
    using assms(1) by (simp add: serialize_reply_eq serialize_ret_submit_def)
qed

theorem reply_direction_mismatch_witness:
  "read_message ((sample_tcp [])\<lparr>rx := serialize_reply (sample_cmd\<lparr>cmd_direction := 0\<rparr>) 0 2 [1, 2] @ []\<rparr>)
    = (Inr (serialize_reply (sample_cmd\<lparr>cmd_direction := 0\<rparr>) 0 2 []), (sample_tcp [])\<lparr>rx := [1, 2] @ []\<rparr>)"
  by (rule reply_direction_mismatch) (simp_all add: sample_cmd_def cmd_wf_def)

text \<open>A URB for a device that is not claimed is answered with \<open>-ENODEV\<close> and no data, and
  the backend is not called.\<close>

theorem submit_urb_unclaimed:
  assumes "um_handles m bid = None"
  shows "submit_urb B m bid cmd out = (\<lparr>ur_status = -19, ur_actual_length = 0, ur_data = []\<rparr>, m)"
  by (rule submit_unclaimed [OF assms])

theorem submit_urb_unclaimed_witness:
  "submit_urb FakeBackend (with_backend []) ''1-1'' sample_cmd []
    = (\<lparr>ur_status = -19, ur_actual_length = 0, ur_data = []\<rparr>, with_backend [])"
  by (rule submit_urb_unclaimed) (simp add: with_backend_def)

text \<open>With an allowlist, exactly the devices whose vendor and product id are on it are
  exportable; with an empty one, all devices are.\<close>

theorem exportable_iff_allowed:
  "e \<in> set (list_exportable_devices B m allowed) \<longleftrightarrow>
     e \<in> set (list_devices B m) \<and> (allowed = [] \<or> (entry_vid e, entry_pid e) \<in> set allowed)"
  by (auto simp: list_exportable_devices_def list_ex_iff)

text \<open>The fake backend's test entries all carry bus 1, device 1, so a device it lists under
  another bus id is not found by the manager, which compares the numbers of the bus id.\<close>

theorem fake_device_not_found:
  "get_device_entry FakeBackend (with_backend [make_test_entry ''1-2'' vid pid]) ''1-2'' = None
   \<and> be_get_device_entry FakeBackend [make_test_entry ''1-2'' vid pid] ''1-2''
       = Some (make_test_entry ''1-2'' vid pid)"
proof -
  have "busid_str (make_test_entry ''1-2'' vid pid) = ''1-2''"
  proof (rule busid_str_copied)
    show "dev_busid (make_test_entry ''1-2'' vid pid) = copy_padded 32 31 ''1-2''"
      by (simp add: make_test_entry_def)
  qed (simp_all add: ascii_valid)
  moreover have "parse_busid ''1-2'' = Inr (1, 2)"
    by (simp add: parse_busid_def parse_unsigned_def char_digit_def)
  ultimately show ?thesis
    by (simp add: get_device_entry_def find_entry_def list_devices_def FakeBackend_def with_backend_def
        fake_get_device_entry_def make_test_entry_def)
qed

end
