(* ===== verification/Batcher.thy ===== *)
theory Batcher
  imports Usb_Manager
begin

text \<open>
  \<^verbatim>\<open>server/usbip-server/src/batcher.rs\<close>: replies are collected and written together. Times
  are nanoseconds of a monotonic clock; \<open>now\<close> is the reading made in the call.
\<close>

definition DEFAULT_BATCH_SIZE :: nat where "DEFAULT_BATCH_SIZE = 8"
definition DEFAULT_BATCH_TIMEOUT :: nat where "DEFAULT_BATCH_TIMEOUT = 200000"
definition MAX_BATCH_CAPACITY :: nat where "MAX_BATCH_CAPACITY = 64 * 1024"

record UrbBatcher =
  bt_buffer :: bytes
  bt_max_batch :: nat
  bt_timeout :: nat
  bt_start :: "nat option"
  bt_last_seqnum :: "u32 option"
  bt_count :: nat

definition UrbBatcher_with_config :: "nat \<Rightarrow> nat \<Rightarrow> UrbBatcher" where
  "UrbBatcher_with_config max_batch timeout =
     \<lparr>bt_buffer = [], bt_max_batch = max_batch, bt_timeout = timeout, bt_start = None,
      bt_last_seqnum = None, bt_count = 0\<rparr>"

definition UrbBatcher_new :: UrbBatcher where
  "UrbBatcher_new =
     \<lparr>bt_buffer = [], bt_max_batch = DEFAULT_BATCH_SIZE, bt_timeout = DEFAULT_BATCH_TIMEOUT,
      bt_start = None, bt_last_seqnum = None, bt_count = 0\<rparr>"

definition batch_push :: "nat \<Rightarrow> UsbIpCmdSubmit \<Rightarrow> UrbResult \<Rightarrow> UrbBatcher \<Rightarrow> bool \<times> UrbBatcher" where
  "batch_push now cmd r b =
     (let seqnum = cmd_seqnum cmd in
      if (case bt_last_seqnum b of None \<Rightarrow> False
          | Some last_s \<Rightarrow> seqnum \<noteq> last_s + 1 \<and> bt_buffer b \<noteq> []) then (True, b)
      else if bt_max_batch b \<le> bt_count b \<and> bt_buffer b \<noteq> [] then (True, b)
      else if (case bt_start b of None \<Rightarrow> False
               | Some start \<Rightarrow> bt_timeout b \<le> now - start \<and> bt_buffer b \<noteq> []) then (True, b)
      else
        (let reply = serialize_reply cmd (ur_status r) (ur_actual_length r) (ur_data r) in
         if MAX_BATCH_CAPACITY < length (bt_buffer b) + length reply then (True, b)
         else
           (let b' = b\<lparr>bt_buffer := bt_buffer b @ reply, bt_count := bt_count b + 1,
                       bt_last_seqnum := Some seqnum,
                       bt_start := (case bt_start b of None \<Rightarrow> Some now | s \<Rightarrow> s)\<rparr>
            in (bt_max_batch b \<le> bt_count b', b'))))"

definition should_timeout :: "nat \<Rightarrow> UrbBatcher \<Rightarrow> bool" where
  "should_timeout now b \<longleftrightarrow>
     (case bt_start b of None \<Rightarrow> False | Some start \<Rightarrow> bt_timeout b \<le> now - start) \<and> bt_buffer b \<noteq> []"

definition batch_flush :: "UrbBatcher \<Rightarrow> bytes \<times> UrbBatcher" where
  "batch_flush b = (bt_buffer b, b\<lparr>bt_buffer := [], bt_start := None, bt_count := 0\<rparr>)"

definition batch_is_empty :: "UrbBatcher \<Rightarrow> bool" where
  "batch_is_empty b \<longleftrightarrow> bt_count b = 0"

text \<open>What the URB loop does with a reply: push it, and when told to, flush. The result is what
  has to be written.\<close>

definition batch_reply ::
  "nat \<Rightarrow> UsbIpCmdSubmit \<Rightarrow> UrbResult \<Rightarrow> UrbBatcher \<Rightarrow> bytes option \<times> UrbBatcher" where
  "batch_reply now cmd r b =
     (case batch_push now cmd r b of
        (True, b') \<Rightarrow> (let (batch, b'') = batch_flush b' in (Some batch, b''))
      | (False, b') \<Rightarrow> (None, b'))"

section \<open>Which replies are kept\<close>

definition push_accepts :: "nat \<Rightarrow> UsbIpCmdSubmit \<Rightarrow> UrbResult \<Rightarrow> UrbBatcher \<Rightarrow> bool" where
  "push_accepts now cmd r b \<longleftrightarrow>
     (bt_buffer b = [] \<or>
        (bt_last_seqnum b = None \<or> Some (cmd_seqnum cmd) = map_option (\<lambda>s. s + 1) (bt_last_seqnum b))
        \<and> bt_count b < bt_max_batch b
        \<and> (case bt_start b of None \<Rightarrow> True | Some start \<Rightarrow> now - start < bt_timeout b))
     \<and> length (bt_buffer b) + length (reply_frame cmd r) \<le> MAX_BATCH_CAPACITY"

definition batch_add :: "nat \<Rightarrow> UsbIpCmdSubmit \<Rightarrow> UrbResult \<Rightarrow> UrbBatcher \<Rightarrow> UrbBatcher" where
  "batch_add now cmd r b =
     b\<lparr>bt_buffer := bt_buffer b @ reply_frame cmd r, bt_count := bt_count b + 1,
       bt_last_seqnum := Some (cmd_seqnum cmd),
       bt_start := (case bt_start b of None \<Rightarrow> Some now | s \<Rightarrow> s)\<rparr>"

lemma batch_push_eq:
  "batch_push now cmd r b =
     (if push_accepts now cmd r b
      then (bt_max_batch b \<le> bt_count b + 1, batch_add now cmd r b) else (True, b))"
  by (auto simp: batch_push_def push_accepts_def batch_add_def reply_frame_def Let_def
      split: option.splits)

lemma batch_reply_eq:
  "batch_reply now cmd r b =
     (if push_accepts now cmd r b then
        if bt_max_batch b \<le> bt_count b + 1
        then (Some (bt_buffer b @ reply_frame cmd r), snd (batch_flush (batch_add now cmd r b)))
        else (None, batch_add now cmd r b)
      else (Some (bt_buffer b), snd (batch_flush b)))"
  by (simp add: batch_reply_def batch_push_eq batch_flush_def batch_add_def)

type_synonym urb_event = "nat \<times> UsbIpCmdSubmit \<times> UrbResult"

fun run_batch :: "urb_event list \<Rightarrow> UrbBatcher \<Rightarrow> bytes list \<times> UrbBatcher" where
  "run_batch [] b = ([], b)"
| "run_batch ((now, cmd, r) # evs) b =
     (let (w, b') = batch_reply now cmd r b; (ws, b'') = run_batch evs b'
      in ((case w of None \<Rightarrow> [] | Some d \<Rightarrow> [d]) @ ws, b''))"

fun accepted_frames :: "urb_event list \<Rightarrow> UrbBatcher \<Rightarrow> bytes list" where
  "accepted_frames [] b = []"
| "accepted_frames ((now, cmd, r) # evs) b =
     (if push_accepts now cmd r b then [reply_frame cmd r] else [])
     @ accepted_frames evs (snd (batch_reply now cmd r b))"

lemma batch_reply_stream:
  assumes "batch_reply now cmd r b = (w, b')"
  shows "(case w of None \<Rightarrow> [] | Some d \<Rightarrow> d) @ bt_buffer b'
    = bt_buffer b @ (if push_accepts now cmd r b then reply_frame cmd r else [])"
  using assms by (auto simp: batch_reply_eq batch_flush_def batch_add_def split: if_splits)

lemma run_batch_stream:
  "concat (fst (run_batch evs b)) @ bt_buffer (snd (run_batch evs b))
     = bt_buffer b @ concat (accepted_frames evs b)"
proof (induction evs b rule: run_batch.induct)
  case (2 now cmd r evs b)
  obtain w b' where w: "batch_reply now cmd r b = (w, b')" by force
  obtain ws b'' where ws: "run_batch evs b' = (ws, b'')" by force
  have "concat ws @ bt_buffer b'' = bt_buffer b' @ concat (accepted_frames evs b')"
    using 2 [OF w [symmetric] refl] ws by simp
  then show ?case
    using batch_reply_stream [OF w] w ws by (auto split: option.splits)
qed simp

section \<open>Bounds\<close>

definition batch_inv :: "UrbBatcher \<Rightarrow> bool" where
  "batch_inv b \<longleftrightarrow>
     length (bt_buffer b) \<le> MAX_BATCH_CAPACITY \<and> bt_count b \<le> bt_max_batch b
     \<and> (bt_buffer b = [] \<longleftrightarrow> bt_count b = 0) \<and> (bt_start b = None \<longleftrightarrow> bt_count b = 0)"

lemma reply_frame_nonempty: "reply_frame cmd r \<noteq> []"
  by (simp add: reply_frame_def serialize_reply_eq serialize_ret_submit_def UsbIpHeader_as_bytes_def
      u16_to_be_bytes_def)

lemma batch_inv_new: "batch_inv UrbBatcher_new"
  by (simp add: batch_inv_def UrbBatcher_new_def)

lemma batch_reply_inv:
  assumes "batch_inv b" "batch_reply now cmd r b = (w, b')"
  shows "batch_inv b' \<and> bt_max_batch b' = bt_max_batch b \<and>
    (case w of None \<Rightarrow> True | Some d \<Rightarrow> length d \<le> MAX_BATCH_CAPACITY)"
  using assms reply_frame_nonempty
  by (auto simp: batch_reply_eq batch_inv_def batch_flush_def batch_add_def push_accepts_def
      split: if_splits option.splits)

section \<open>Sequential submissions are lossless\<close>

text \<open>Consecutive sequence numbers, replies of at most 8 KiB, and the pace the batcher needs: the
  replies of one batch, eight submissions in a row, come within one batch timeout of the first of
  them. \<open>n\<close> counts the replies of the open batch and \<open>t0\<close> is the time of its first one; between two
  batches any time may pass.\<close>

fun consecutive :: "u32 \<Rightarrow> urb_event list \<Rightarrow> bool" where
  "consecutive s [] = True"
| "consecutive s ((now, cmd, r) # evs) = (cmd_seqnum cmd = s \<and> consecutive (s + 1) evs)"

fun paced :: "nat \<Rightarrow> nat \<Rightarrow> urb_event list \<Rightarrow> bool" where
  "paced n t0 [] = True"
| "paced n t0 ((now, cmd, r) # evs) =
     ((n = 0 \<or> now < t0 + DEFAULT_BATCH_TIMEOUT) \<and> length (reply_frame cmd r) \<le> 8192
      \<and> paced (Suc n mod DEFAULT_BATCH_SIZE) (if n = 0 then now else t0) evs)"

definition paced_state :: "nat \<Rightarrow> nat \<Rightarrow> u32 \<Rightarrow> UrbBatcher \<Rightarrow> bool" where
  "paced_state n t0 s b \<longleftrightarrow>
     bt_max_batch b = 8 \<and> bt_timeout b = DEFAULT_BATCH_TIMEOUT \<and> bt_count b = n \<and> n < 8
     \<and> length (bt_buffer b) \<le> n * 8192
     \<and> (bt_buffer b = [] \<or> bt_last_seqnum b = Some (s - 1))
     \<and> bt_start b = (if n = 0 then None else Some t0)"

lemma paced_accepts:
  assumes "paced_state n t0 (cmd_seqnum cmd) b" "paced n t0 ((now, cmd, r) # evs)"
  shows "push_accepts now cmd r b"
    and "paced_state (Suc n mod DEFAULT_BATCH_SIZE) (if n = 0 then now else t0) (cmd_seqnum cmd + 1)
      (snd (batch_reply now cmd r b))"
proof -
  have "n * 8192 \<le> 7 * 8192" using assms(1) by (simp add: paced_state_def)
  then have "length (bt_buffer b) + length (reply_frame cmd r) \<le> 65536"
    using assms by (simp add: paced_state_def)
  then show acc: "push_accepts now cmd r b"
    using assms by (auto simp: push_accepts_def paced_state_def MAX_BATCH_CAPACITY_def DEFAULT_BATCH_TIMEOUT_def)
  show "paced_state (Suc n mod DEFAULT_BATCH_SIZE) (if n = 0 then now else t0) (cmd_seqnum cmd + 1)
      (snd (batch_reply now cmd r b))"
  proof (cases "n = 7")
    case True
    then show ?thesis using assms acc
      by (simp add: batch_reply_eq paced_state_def batch_flush_def batch_add_def DEFAULT_BATCH_SIZE_def)
  next
    case False
    then show ?thesis using assms acc
      by (auto simp: batch_reply_eq paced_state_def batch_add_def DEFAULT_BATCH_SIZE_def)
  qed
qed

lemma paced_run:
  assumes "paced_state n t0 s b" "consecutive s evs" "paced n t0 evs"
  shows "accepted_frames evs b = map (\<lambda>(now, cmd, r). reply_frame cmd r) evs"
  using assms
proof (induction evs arbitrary: n t0 s b)
  case (Cons ev evs)
  obtain now cmd r where ev: "ev = (now, cmd, r)" by (cases ev) auto
  have seq: "cmd_seqnum cmd = s" using Cons.prems ev by simp
  have *: "push_accepts now cmd r b" "paced_state (Suc n mod DEFAULT_BATCH_SIZE) (if n = 0 then now else t0)
      (s + 1) (snd (batch_reply now cmd r b))"
    using paced_accepts [of n t0 cmd b now r evs] Cons.prems ev seq by simp_all
  have "accepted_frames evs (snd (batch_reply now cmd r b)) = map (\<lambda>(now, cmd, r). reply_frame cmd r) evs"
    by (rule Cons.IH [OF *(2)]) (use Cons.prems ev in simp_all)
  then show ?case using * by (simp add: ev)
qed simp

lemma paced_state_new: "paced_state 0 t0 s UrbBatcher_new"
  by (simp add: paced_state_def UrbBatcher_new_def DEFAULT_BATCH_SIZE_def)

text \<open>C13: Whatever is pushed, the bytes written by the flushes followed by what is still
  buffered are the accepted replies, whole and in the order in which they were pushed.\<close>

theorem batch_in_order:
  "concat (fst (run_batch evs UrbBatcher_new)) @ bt_buffer (snd (run_batch evs UrbBatcher_new))
     = concat (accepted_frames evs UrbBatcher_new)"
  using run_batch_stream [of evs UrbBatcher_new] by (simp add: UrbBatcher_new_def)

text \<open>Replies to URBs with consecutive sequence numbers, the eight of a batch within one timeout
  of its first and of at most 8 KiB each, are all written or still buffered: none is lost.\<close>

theorem batch_sequential_lossless:
  assumes "consecutive s evs" "paced 0 0 evs"
  shows "concat (fst (run_batch evs UrbBatcher_new)) @ bt_buffer (snd (run_batch evs UrbBatcher_new))
    = concat (map (\<lambda>(now, cmd, r). reply_frame cmd r) evs)"
  using run_batch_stream [of evs UrbBatcher_new] paced_run [OF paced_state_new assms]
  by (simp add: UrbBatcher_new_def)

definition sample_result :: UrbResult where
  "sample_result = \<lparr>ur_status = 0, ur_actual_length = 0, ur_data = []\<rparr>"

lemma length_sample_reply: "length (reply_frame (sample_cmd\<lparr>cmd_seqnum := s\<rparr>) sample_result) = 52"
proof -
  have "cmd_wf (sample_cmd\<lparr>cmd_seqnum := s\<rparr>)" by (simp add: sample_cmd_def cmd_wf_def)
  then show ?thesis by (simp add: reply_frame_def sample_result_def)
qed

theorem batch_sequential_lossless_witness:
  "consecutive 1 [(0, sample_cmd, sample_result), (5, sample_cmd\<lparr>cmd_seqnum := 2\<rparr>, sample_result)]
   \<and> concat (fst (run_batch [(0, sample_cmd, sample_result), (5, sample_cmd\<lparr>cmd_seqnum := 2\<rparr>, sample_result)]
        UrbBatcher_new))
      @ bt_buffer (snd (run_batch [(0, sample_cmd, sample_result),
          (5, sample_cmd\<lparr>cmd_seqnum := 2\<rparr>, sample_result)] UrbBatcher_new))
     = concat (map (\<lambda>(now :: nat, cmd, r). reply_frame cmd r)
        [(0, sample_cmd, sample_result), (5, sample_cmd\<lparr>cmd_seqnum := 2\<rparr>, sample_result)])"
proof -
  let ?evs = "[(0, sample_cmd, sample_result), (5, sample_cmd\<lparr>cmd_seqnum := 2\<rparr>, sample_result)]"
  have first: "sample_cmd = sample_cmd\<lparr>cmd_seqnum := 1\<rparr>" by (simp add: sample_cmd_def)
  have c: "consecutive 1 ?evs" by (simp add: sample_cmd_def)
  have len: "length (reply_frame sample_cmd sample_result) = 52"
    by (subst first) (rule length_sample_reply)
  have "paced 0 0 ?evs"
    by (simp add: DEFAULT_BATCH_TIMEOUT_def DEFAULT_BATCH_SIZE_def length_sample_reply len)
  from batch_sequential_lossless [OF c this] c show ?thesis by blast
qed

text \<open>C33: When the next sequence number is not the successor of the last one and replies are
  pending, the loop writes the pending replies and drops the new one: it is neither written nor
  buffered, and no later call can bring it back. The comment in the code says the caller must
  flush first; the caller never pushes the reply again.\<close>

theorem batch_nonsequential_reply_lost:
  assumes "bt_last_seqnum b = Some s" "cmd_seqnum cmd \<noteq> s + 1" "bt_buffer b \<noteq> []"
  shows "batch_reply now cmd r b = (Some (bt_buffer b), b\<lparr>bt_buffer := [], bt_start := None, bt_count := 0\<rparr>)"
proof -
  have "\<not> push_accepts now cmd r b" using assms by (simp add: push_accepts_def)
  then show ?thesis by (simp add: batch_reply_eq batch_flush_def)
qed

theorem batch_nonsequential_reply_lost_witness:
  "batch_reply 0 (sample_cmd\<lparr>cmd_seqnum := 7\<rparr>) sample_result (snd (batch_reply 0 sample_cmd sample_result UrbBatcher_new))
     = (Some (bt_buffer (snd (batch_reply 0 sample_cmd sample_result UrbBatcher_new))),
        (snd (batch_reply 0 sample_cmd sample_result UrbBatcher_new))\<lparr>bt_buffer := [], bt_start := None, bt_count := 0\<rparr>)"
proof -
  have len: "length (reply_frame sample_cmd sample_result) = 52"
    using length_sample_reply [of 1] by (simp add: sample_cmd_def)
  then have "push_accepts 0 sample_cmd sample_result UrbBatcher_new"
    by (simp add: push_accepts_def UrbBatcher_new_def MAX_BATCH_CAPACITY_def)
  then have b: "snd (batch_reply 0 sample_cmd sample_result UrbBatcher_new)
      = batch_add 0 sample_cmd sample_result UrbBatcher_new"
    by (simp add: batch_reply_eq UrbBatcher_new_def DEFAULT_BATCH_SIZE_def)
  show ?thesis
    unfolding b
    by (rule batch_nonsequential_reply_lost [where s = 1])
      (simp_all add: batch_add_def sample_cmd_def reply_frame_nonempty)
qed

text \<open>The same happens when the timer of the open batch has expired: the pending replies are written
  and the reply that found it expired is dropped. URBs more than 200 microseconds apart lose every
  second reply.\<close>

lemma batch_late_reply_lost:
  assumes "bt_start b = Some start" "bt_timeout b \<le> now - start" "bt_buffer b \<noteq> []"
  shows "batch_reply now cmd r b = (Some (bt_buffer b), b\<lparr>bt_buffer := [], bt_start := None, bt_count := 0\<rparr>)"
proof -
  have "\<not> push_accepts now cmd r b" using assms by (simp add: push_accepts_def)
  then show ?thesis by (simp add: batch_reply_eq batch_flush_def)
qed

text \<open>A batch that is written never exceeds 64 KiB and never holds more replies than the
  configured maximum; the batcher keeps count, start time and buffer consistent.\<close>

theorem batch_bounded:
  assumes "batch_inv b" "batch_reply now cmd r b = (w, b')"
  shows "batch_inv b' \<and> (case w of None \<Rightarrow> True | Some d \<Rightarrow> length d \<le> MAX_BATCH_CAPACITY)"
  using batch_reply_inv [OF assms] by simp

theorem batch_bounded_witness:
  "\<exists>w b'. batch_reply 0 sample_cmd sample_result UrbBatcher_new = (w, b') \<and> batch_inv b'
     \<and> (case w of None \<Rightarrow> True | Some d \<Rightarrow> length d \<le> MAX_BATCH_CAPACITY)"
proof -
  obtain w b' where "batch_reply 0 sample_cmd sample_result UrbBatcher_new = (w, b')" by force
  then show ?thesis using batch_bounded [OF batch_inv_new] by blast
qed

end
