(* ===== verification/Benchmark.thy ===== *)
theory Benchmark
  imports Pool Batcher
begin

text \<open>
  \<^verbatim>\<open>server/usbip-server/src/bin/benchmark.rs\<close>: the program whose percentiles the build checks. The
  measured times are a parameter (\<open>clk i\<close> is the sample of round \<open>i\<close> in microseconds), \<open>now i\<close>
  is the clock the batcher reads in that round, and \<open>rnd\<close> is the rounding of the \<^verbatim>\<open>f64\<close> operations.
\<close>

record BenchmarkResult =
  bm_name :: string
  bm_iterations :: u32
  bm_avg_us :: real
  bm_p50_us :: real
  bm_p95_us :: real
  bm_p99_us :: real
  bm_max_us :: real
  bm_total_time_s :: real

definition percentile_index :: "(real \<Rightarrow> real) \<Rightarrow> real \<Rightarrow> nat \<Rightarrow> nat" where
  "percentile_index rnd q n = f64_as_usize (rnd (rnd (real n) * rnd q))"

text \<open>Indexing a slice out of bounds panics; so does \<open>n - 1\<close> for an empty one, later.\<close>

definition index :: "real list \<Rightarrow> nat \<Rightarrow> real outcome" where
  "index xs i = (if i < length xs then Ret (xs ! i) else Panic)"

definition compute_stats ::
  "(real \<Rightarrow> real) \<Rightarrow> real list \<Rightarrow> string \<Rightarrow> u32 \<Rightarrow> real \<Rightarrow> BenchmarkResult outcome" where
  "compute_stats rnd samples0 name iterations total_time =
     (let samples = sort samples0; n = length samples;
          elapsed = foldl (\<lambda>a x. rnd (a + x)) 0 samples;
          avg = rnd (elapsed / rnd (real n)) in
      obind (index samples (percentile_index rnd (50 / 100) n)) (\<lambda>p50.
      obind (index samples (percentile_index rnd (95 / 100) n)) (\<lambda>p95.
      obind (index samples (percentile_index rnd (99 / 100) n)) (\<lambda>p99.
      obind (index samples (n - 1)) (\<lambda>mx.
        Ret \<lparr>bm_name = name, bm_iterations = iterations, bm_avg_us = avg, bm_p50_us = p50,
             bm_p95_us = p95, bm_p99_us = p99, bm_max_us = mx, bm_total_time_s = total_time\<rparr>)))))"

text \<open>One round of the pool benchmark: the buffer is dropped at its end.\<close>

definition pool_round :: "'q array_queue \<Rightarrow> 'q UrbBufferPool \<Rightarrow> 'q UrbBufferPool" where
  "pool_round Q p = (let (p1, h) = acquire Q p in pb_drop Q p1 h)"

definition bench_pool_acquire_release ::
  "'q array_queue \<Rightarrow> (real \<Rightarrow> real) \<Rightarrow> (nat \<Rightarrow> real) \<Rightarrow> real \<Rightarrow> u32 \<Rightarrow> nat
   \<Rightarrow> BenchmarkResult outcome \<times> 'q UrbBufferPool" where
  "bench_pool_acquire_release Q rnd clk elapsed iterations cap =
     (compute_stats rnd (map clk [0..<unat iterations]) (''pool_acquire_'' @ show_dec cap @ ''_byte'') iterations elapsed,
      (pool_round Q ^^ unat iterations) (UrbBufferPool_new Q cap 1024))"

definition bench_cmd :: UsbIpCmdSubmit where
  "bench_cmd =
     \<lparr>cmd_seqnum = 1, cmd_devid = 1, cmd_direction = 1, cmd_ep = 0x81, cmd_transfer_flags = URB_DIR_IN,
      cmd_transfer_buffer_length = 64, cmd_start_frame = 0, cmd_number_of_packets = 0, cmd_interval = 0,
      cmd_setup = replicate 8 0\<rparr>"

definition bench_result :: UrbResult where
  "bench_result = \<lparr>ur_status = 0, ur_actual_length = 64, ur_data = replicate 64 0xAB\<rparr>"

text \<open>One round of the batcher benchmark: what it flushes, if it does.\<close>

definition batcher_round :: "nat \<Rightarrow> nat \<Rightarrow> UrbBatcher \<Rightarrow> bytes list \<times> UrbBatcher" where
  "batcher_round now i b =
     (let b' = snd (batch_push now bench_cmd bench_result b) in
      if i mod 8 = 7 then (let (d, b'') = batch_flush b' in ([d], b'')) else ([], b'))"

fun batcher_rounds :: "(nat \<Rightarrow> nat) \<Rightarrow> nat \<Rightarrow> nat \<Rightarrow> UrbBatcher \<Rightarrow> bytes list \<times> UrbBatcher" where
  "batcher_rounds now i 0 b = ([], b)"
| "batcher_rounds now i (Suc k) b =
     (let (d, b') = batcher_round (now i) i b; (ds, b'') = batcher_rounds now (Suc i) k b' in (d @ ds, b''))"

definition bench_batcher_push_flush ::
  "(nat \<Rightarrow> nat) \<Rightarrow> (real \<Rightarrow> real) \<Rightarrow> (nat \<Rightarrow> real) \<Rightarrow> real \<Rightarrow> u32 \<Rightarrow> BenchmarkResult outcome \<times> bytes list" where
  "bench_batcher_push_flush now rnd clk elapsed iterations =
     (compute_stats rnd (map clk [0..<unat iterations]) ''batcher_push_flush'' iterations elapsed,
      fst (batcher_rounds now 0 (unat iterations) UrbBatcher_new))"

text \<open>The gate: the results and whether every 99th percentile is below five milliseconds.\<close>

definition p99_pass :: "BenchmarkResult list \<Rightarrow> bool" where
  "p99_pass results = list_all (\<lambda>r. bm_p99_us r < 5000) results"

definition bench_main ::
  "'q array_queue \<Rightarrow> (nat \<Rightarrow> nat) \<Rightarrow> (real \<Rightarrow> real) \<Rightarrow> (nat \<Rightarrow> nat \<Rightarrow> real) \<Rightarrow> (nat \<Rightarrow> real) \<Rightarrow> u32
   \<Rightarrow> (BenchmarkResult list \<times> bool) outcome" where
  "bench_main Q now rnd clk elapsed iterations =
     obind (fst (bench_pool_acquire_release Q rnd (clk 0) (elapsed 0) iterations 64)) (\<lambda>r1.
     obind (fst (bench_pool_acquire_release Q rnd (clk 1) (elapsed 1) iterations (16 * 1024))) (\<lambda>r2.
     obind (fst (bench_batcher_push_flush now rnd (clk 2) (elapsed 2) iterations)) (\<lambda>r3.
       Ret ([r1, r2, r3], p99_pass [r1, r2, r3]))))"

section \<open>Percentiles\<close>

text \<open>What is used of the rounding: it is monotone and the relative error is at most one part in \<open>2 ^ 52\<close>.\<close>

definition f64_rounding :: "(real \<Rightarrow> real) \<Rightarrow> bool" where
  "f64_rounding rnd \<longleftrightarrow> mono rnd \<and> (\<forall>x\<ge>0. 0 \<le> rnd x \<and> rnd x \<le> x * (1 + 1 / 2 ^ 52))"

lemma f64_as_usize_mono: "x \<le> y \<Longrightarrow> f64_as_usize x \<le> f64_as_usize y"
  unfolding f64_as_usize_def by (intro min.mono nat_mono floor_mono) simp_all

lemma percentile_index_mono:
  assumes "f64_rounding rnd" "0 \<le> q" "q \<le> q'"
  shows "percentile_index rnd q n \<le> percentile_index rnd q' n"
proof -
  have r: "mono rnd" "0 \<le> rnd (real n)" using assms(1) by (simp_all add: f64_rounding_def)
  then have "rnd (real n) * rnd q \<le> rnd (real n) * rnd q'" using assms(3) by (intro mult_left_mono monoD [OF r(1)])
  then show ?thesis unfolding percentile_index_def by (intro f64_as_usize_mono monoD [OF r(1)])
qed

lemma percentile_index_bound:
  assumes "f64_rounding rnd" "0 < n" "0 \<le> q" "q \<le> 99 / 100"
  shows "percentile_index rnd q n < n"
proof -
  let ?e = "1 + 1 / 2 ^ 52 :: real"
  have R: "0 \<le> rnd x" "rnd x \<le> x * ?e" if "0 \<le> x" for x
    using assms(1) that by (simp_all add: f64_rounding_def)
  have nn: "0 \<le> rnd (real n)" "rnd (real n) \<le> real n * ?e" by (rule R, simp)+
  have qq: "0 \<le> rnd q" "rnd q \<le> q * ?e" using R [OF assms(3)] .
  have "rnd (real n) * rnd q \<le> (real n * ?e) * (q * ?e)" using nn qq by (intro mult_mono) simp_all
  also have "\<dots> \<le> (real n * ?e) * (99 / 100 * ?e)" using assms(4) by (intro mult_left_mono mult_right_mono) simp_all
  finally have "rnd (rnd (real n) * rnd q) \<le> (real n * ?e) * (99 / 100 * ?e) * ?e"
    using R [of "rnd (real n) * rnd q"] nn qq
    by (smt (verit) mult_nonneg_nonneg mult_right_mono zero_le_divide_1_iff zero_le_power)
  also have "\<dots> = real n * (99 / 100 * (?e * ?e * ?e))" by (simp only: ac_simps)
  also have "\<dots> < real n * 1" using assms(2) by (intro mult_strict_left_mono) simp_all
  finally have less: "rnd (rnd (real n) * rnd q) < real n" by simp
  have "nat \<lfloor>rnd (rnd (real n) * rnd q)\<rfloor> < n" using less assms(2) by linarith
  then show ?thesis by (simp add: percentile_index_def f64_as_usize_def min_less_iff_disj)
qed

lemma sorted_index: "sorted xs \<Longrightarrow> i \<le> j \<Longrightarrow> j < length xs \<Longrightarrow> index xs i = Ret (xs ! i) \<and> xs ! i \<le> xs ! j"
  by (simp add: index_def sorted_nth_mono)

text \<open>With at least one sample the statistics are computed, and the percentiles are samples in order;
  without one the program panics.\<close>

lemma compute_stats_ok:
  assumes "f64_rounding rnd" "samples \<noteq> []"
  shows "\<exists>r. compute_stats rnd samples name iterations elapsed = Ret r
    \<and> bm_p50_us r \<le> bm_p95_us r \<and> bm_p95_us r \<le> bm_p99_us r \<and> bm_p99_us r \<le> bm_max_us r
    \<and> bm_max_us r = Max (set samples) \<and> {bm_p50_us r, bm_p95_us r, bm_p99_us r} \<subseteq> set samples"
proof -
  let ?s = "sort samples" and ?i = "\<lambda>q. percentile_index rnd q (length samples)"
  have n: "0 < length samples" using assms(2) by simp
  have b: "?i (99 / 100) < length ?s" using percentile_index_bound [OF assms(1) n, of "99 / 100"] by simp
  have m: "?i (50 / 100) \<le> ?i (95 / 100)" "?i (95 / 100) \<le> ?i (99 / 100)"
    by (rule percentile_index_mono [OF assms(1)]; simp)+
  have l: "length samples - 1 < length ?s" "?i (99 / 100) \<le> length samples - 1" using b n by simp_all
  note S = sorted_index [OF sorted_sort [of samples]]
  have le: "?s ! ?i (50 / 100) \<le> ?s ! ?i (95 / 100)" "?s ! ?i (95 / 100) \<le> ?s ! ?i (99 / 100)"
    "?s ! ?i (99 / 100) \<le> ?s ! (length samples - 1)"
    using S [OF m(1)] S [OF m(2)] S [OF l(2) l(1)] m b by simp_all
  have ix: "index ?s (?i (50 / 100)) = Ret (?s ! ?i (50 / 100))" "index ?s (?i (95 / 100)) = Ret (?s ! ?i (95 / 100))"
    "index ?s (?i (99 / 100)) = Ret (?s ! ?i (99 / 100))"
    "index ?s (length samples - 1) = Ret (?s ! (length samples - 1))"
    using m b l by (simp_all add: index_def)
  have mem: "?s ! i \<in> set samples" if "i < length samples" for i
    using that nth_mem [of i ?s] by simp
  have top: "?s ! (length samples - 1) = Max (set samples)"
  proof (rule Max_eqI [symmetric])
    fix x assume "x \<in> set samples"
    then obtain j where "j < length ?s" "x = ?s ! j" by (metis in_set_conv_nth set_sort)
    then show "x \<le> ?s ! (length samples - 1)" using S [of j "length samples - 1"] l(1) by simp
  qed (use mem n in auto)
  show ?thesis
    unfolding compute_stats_def Let_def length_sort ix using le top mem m b by simp
qed

lemma compute_stats_empty: "compute_stats rnd [] name iterations elapsed = Panic"
  by (simp add: compute_stats_def index_def Let_def)

text \<open>The program reports exactly when it is asked for at least one round, and the gate passes when all
  samples are below the limit.\<close>

lemma bench_main_zero: "bench_main Q now rnd clk elapsed 0 = Panic"
  by (simp add: bench_main_def bench_pool_acquire_release_def compute_stats_empty)

lemma bench_main_returns:
  assumes rnd: "f64_rounding rnd" and "iterations \<noteq> 0"
    and fast: "\<And>k i. i < unat iterations \<Longrightarrow> clk k i < 5000"
  shows "\<exists>results. bench_main Q now rnd clk elapsed iterations = Ret (results, True)"
proof -
  have pos: "0 < unat iterations" using assms(2) by (simp add: unat_gt_0)
  have ok: "\<exists>r. compute_stats rnd (map (clk k) [0..<unat iterations]) name iterations e = Ret r \<and> bm_p99_us r < 5000"
    for k name e
  proof -
    have "map (clk k) [0..<unat iterations] \<noteq> []" using pos by simp
    from compute_stats_ok [OF rnd this, of name iterations e] fast show ?thesis by fastforce
  qed
  obtain r1 where r1: "fst (bench_pool_acquire_release Q rnd (clk 0) (elapsed 0) iterations 64) = Ret r1" "bm_p99_us r1 < 5000"
    using ok [of 0] by (auto simp: bench_pool_acquire_release_def)
  obtain r2 where r2: "fst (bench_pool_acquire_release Q rnd (clk 1) (elapsed 1) iterations (16 * 1024)) = Ret r2" "bm_p99_us r2 < 5000"
    using ok [of 1] by (auto simp: bench_pool_acquire_release_def)
  obtain r3 where r3: "fst (bench_batcher_push_flush now rnd (clk 2) (elapsed 2) iterations) = Ret r3" "bm_p99_us r3 < 5000"
    using ok [of 2] by (auto simp: bench_batcher_push_flush_def)
  show ?thesis unfolding bench_main_def r1(1) r2(1) r3(1) using r1 r2 r3 by (simp add: p99_pass_def)
qed

section \<open>What is measured\<close>

context bounded_queue
begin

lemma pool_round_available:
  assumes "0 < length (content (pool_queue p))" "length (content (pool_queue p)) \<le> aq_capacity Q (pool_queue p)"
  shows "length (content (pool_queue (pool_round Q p))) = length (content (pool_queue p))
    \<and> aq_capacity Q (pool_queue (pool_round Q p)) = aq_capacity Q (pool_queue p)"
proof -
  obtain b bs where c: "content (pool_queue p) = b # bs" using assms(1) by (cases "content (pool_queue p)") auto
  then show ?thesis
    using assms(2) by (simp add: pool_round_def acquire_def pb_drop_def case_prod_beta Let_def contract_pop contract_push)
qed

text \<open>The pool is never empty in the pool benchmark: no allocation is ever measured.\<close>

lemma pool_rounds_available:
  "length (content (pool_queue ((pool_round Q ^^ k) (UrbBufferPool_new Q cap 1024)))) = 1024"
proof -
  have "length (content (pool_queue ((pool_round Q ^^ k) (UrbBufferPool_new Q cap 1024)))) = 1024
    \<and> aq_capacity Q (pool_queue ((pool_round Q ^^ k) (UrbBufferPool_new Q cap 1024))) = 4096"
  proof (induction k)
    case 0
    show ?case
      using push_fresh_content [of "aq_new Q 4096" False cap 1024]
      by (simp add: UrbBufferPool_new_def Let_def contract_new_len)
  next
    case (Suc k)
    then show ?case
      using pool_round_available [of "(pool_round Q ^^ k) (UrbBufferPool_new Q cap 1024)"] by simp
  qed
  then show ?thesis ..
qed

end

lemma bench_pool_never_allocates:
  assumes "array_queue_contract Q content"
  shows "available Q (snd (bench_pool_acquire_release Q rnd clk elapsed iterations cap)) = 1024"
  using bounded_queue.pool_rounds_available [OF bounded_queue.intro [OF assms]]
    bounded_queue.contract_new_len(3) [OF bounded_queue.intro [OF assms]]
  by (simp add: available_def bench_pool_acquire_release_def)

text \<open>
  Every submission of the batcher benchmark has the sequence number 1, which does not follow itself,
  so of eight replies one is accepted and seven are refused: every flushed batch has one reply.
\<close>

definition bench_batch :: "nat \<Rightarrow> UrbBatcher \<Rightarrow> bool" where
  "bench_batch i b \<longleftrightarrow> bt_max_batch b = 8 \<and> bt_last_seqnum b \<in> {None, Some 1}
     \<and> (if i mod 8 = 0 then bt_buffer b = [] \<and> bt_count b = 0 \<and> bt_start b = None
        else bt_buffer b = reply_frame bench_cmd bench_result \<and> bt_last_seqnum b = Some 1)"

lemma bench_batch_new: "bench_batch 0 UrbBatcher_new"
  by (simp add: bench_batch_def UrbBatcher_new_def DEFAULT_BATCH_SIZE_def)

lemma bench_cmd_seqnum [simp]: "cmd_seqnum bench_cmd = 1"
  by (simp add: bench_cmd_def)

lemma length_bench_reply: "length (reply_frame bench_cmd bench_result) = 116"
proof -
  have "cmd_wf bench_cmd" by (simp add: bench_cmd_def cmd_wf_def)
  then show ?thesis by (simp add: reply_frame_def bench_result_def)
qed

lemma batcher_round_batch:
  assumes "bench_batch i b"
  shows "bench_batch (Suc i) (snd (batcher_round now i b))
    \<and> fst (batcher_round now i b) = (if i mod 8 = 7 then [reply_frame bench_cmd bench_result] else [])"
proof -
  let ?f = "reply_frame bench_cmd bench_result"
  define b1 where "b1 = snd (batch_push now bench_cmd bench_result b)"
  have b1: "bt_buffer b1 = ?f \<and> bt_last_seqnum b1 = Some 1 \<and> bt_max_batch b1 = 8"
  proof (cases "i mod 8 = 0")
    case True
    then have "push_accepts now bench_cmd bench_result b"
      using assms length_bench_reply by (simp add: bench_batch_def push_accepts_def MAX_BATCH_CAPACITY_def)
    then show ?thesis using assms True by (simp add: b1_def batch_push_eq batch_add_def bench_batch_def)
  next
    case False
    then have "\<not> push_accepts now bench_cmd bench_result b"
      using assms reply_frame_nonempty by (simp add: bench_batch_def push_accepts_def)
    then show ?thesis using assms False by (simp add: b1_def batch_push_eq bench_batch_def)
  qed
  have "Suc i mod 8 = 0 \<longleftrightarrow> i mod 8 = 7" by presburger
  then show ?thesis
    using b1 unfolding batcher_round_def b1_def [symmetric] Let_def
    by (simp add: batch_flush_def bench_batch_def)
qed

lemma batcher_rounds_batches:
  "bench_batch i b \<Longrightarrow>
   fst (batcher_rounds now i k b) = map (\<lambda>_. reply_frame bench_cmd bench_result) (filter (\<lambda>j. j mod 8 = 7) [i..<i + k])"
proof (induction k arbitrary: i b)
  case (Suc k)
  obtain d b' where r: "batcher_round (now i) i b = (d, b')" by force
  have 1: "bench_batch (Suc i) b'" "d = (if i mod 8 = 7 then [reply_frame bench_cmd bench_result] else [])"
    using batcher_round_batch [OF Suc.prems, of "now i"] r by auto
  have "[i..<i + Suc k] = i # [Suc i..<Suc i + k]" by (simp add: upt_conv_Cons)
  then show ?case using Suc.IH [OF 1(1)] 1(2) r by (simp add: case_prod_beta)
qed simp

lemma bench_batches_of_one:
  "list_all (\<lambda>d. d = reply_frame bench_cmd bench_result) (snd (bench_batcher_push_flush now rnd clk elapsed iterations))"
  by (simp add: bench_batcher_push_flush_def batcher_rounds_batches [OF bench_batch_new] list_all_iff)

end
