(* ===== verification/Crypto.thy ===== *)
theory Crypto
  imports Wire_Codec
begin

text \<open>
  \<^verbatim>\<open>shared/usbip-core/src/crypto.rs\<close> and \<^verbatim>\<open>server/usbip-server/src/crypto_stream.rs\<close>:
  the message cipher, the key exchange, and the transport that is plain or encrypted. The
  primitives are those of the \<^verbatim>\<open>ring\<close> crate, so they are a parameter \<open>R\<close> (a
  record of the functions the code calls) with the contracts \<open>aead_contract\<close> and
  \<open>agreement_contract\<close>; random bytes are arguments (\<open>None\<close>: the source failed).
\<close>

datatype CryptoError =
  KeyGeneration | KeyAgreement | KeyDerivation | EncryptionErr | DecryptionErr | InvalidNonce

type_synonym 'a CryptoResult = "CryptoError + 'a"

fun CryptoError_fmt :: "CryptoError \<Rightarrow> string" where
  "CryptoError_fmt KeyGeneration = ''key generation failed''"
| "CryptoError_fmt KeyAgreement = ''key agreement failed''"
| "CryptoError_fmt KeyDerivation = ''key derivation failed''"
| "CryptoError_fmt EncryptionErr = ''encryption failed''"
| "CryptoError_fmt DecryptionErr = ''decryption failed''"
| "CryptoError_fmt InvalidNonce = ''invalid nonce''"

definition ENCRYPTION_OVERHEAD :: nat where "ENCRYPTION_OVERHEAD = 20"

text \<open>
  The calls into \<^verbatim>\<open>ring\<close>: ephemeral key generation (from entropy \<open>'e\<close>) and public key,
  X25519 agreement, HKDF-SHA256 extract-and-expand (salt, secret, info), AES-256-GCM key
  construction, sealing with an appended tag and opening.
\<close>

record ('e, 'priv, 'key) ring =
  ring_generate :: "'e \<Rightarrow> 'priv option"
  ring_public :: "'priv \<Rightarrow> bytes option"
  ring_agree :: "'priv \<Rightarrow> bytes \<Rightarrow> bytes option"
  ring_hkdf :: "bytes \<Rightarrow> bytes \<Rightarrow> bytes \<Rightarrow> bytes option"
  ring_key :: "bytes \<Rightarrow> 'key option"
  ring_seal :: "'key \<Rightarrow> bytes \<Rightarrow> bytes \<Rightarrow> bytes option"
  ring_open :: "'key \<Rightarrow> bytes \<Rightarrow> bytes \<Rightarrow> bytes option"

text \<open>
  Authenticated encryption: opening with a key and nonce accepts exactly what sealing with
  them produces, and the tag adds 16 bytes.
\<close>

definition aead_contract :: "('e, 'priv, 'key) ring \<Rightarrow> bool" where
  "aead_contract R \<longleftrightarrow>
     (\<forall>k n p c. ring_seal R k n p = Some c \<longrightarrow> length c = length p + 16)
     \<and> (\<forall>k n p c. ring_open R k n c = Some p \<longleftrightarrow> ring_seal R k n p = Some c)"

text \<open>Diffie-Hellman: the two sides agree on the same secret; public keys have 32 bytes.\<close>

definition agreement_contract :: "('e, 'priv, 'key) ring \<Rightarrow> bool" where
  "agreement_contract R \<longleftrightarrow>
     (\<forall>a p. ring_public R a = Some p \<longrightarrow> length p = 32)
     \<and> (\<forall>a b pa pb. ring_public R a = Some pa \<longrightarrow> ring_public R b = Some pb \<longrightarrow>
          ring_agree R a pb = ring_agree R b pa)"

section \<open>Keys\<close>

definition generate_key_pair :: "('e, 'priv, 'key) ring \<Rightarrow> 'e \<Rightarrow> (bytes \<times> 'priv) CryptoResult" where
  "generate_key_pair R rng =
     (case ring_generate R rng of
        None \<Rightarrow> Inl KeyGeneration
      | Some private_key \<Rightarrow>
        (case ring_public R private_key of
           None \<Rightarrow> Inl KeyGeneration
         | Some public_key \<Rightarrow> Inr (public_key, private_key)))"

definition hex_encode :: "bytes \<Rightarrow> string" where
  "hex_encode bs = concat (map (\<lambda>b. show_hex_pad 2 (unat b)) bs)"

definition generate_key_pair_hex :: "('e, 'priv, 'key) ring \<Rightarrow> 'e \<Rightarrow> (string \<times> 'priv) CryptoResult" where
  "generate_key_pair_hex R rng =
     (case generate_key_pair R rng of
        Inl e \<Rightarrow> Inl e | Inr (pub_bytes, priv_key) \<Rightarrow> Inr (hex_encode pub_bytes, priv_key))"

definition agree :: "('e, 'priv, 'key) ring \<Rightarrow> 'priv \<Rightarrow> bytes \<Rightarrow> bytes CryptoResult" where
  "agree R private_key peer =
     (case ring_agree R private_key peer of None \<Rightarrow> Inl KeyAgreement | Some s \<Rightarrow> Inr s)"

definition session_salt :: bytes where "session_salt = as_bytes ''USBIP-PASSTHROUGH-V1''"
definition session_info :: bytes where "session_info = as_bytes ''usbip-session-key''"

definition derive_session_key_to_bytes :: "('e, 'priv, 'key) ring \<Rightarrow> bytes \<Rightarrow> bytes CryptoResult" where
  "derive_session_key_to_bytes R shared_secret =
     (case ring_hkdf R session_salt shared_secret session_info of
        None \<Rightarrow> Inl KeyDerivation | Some out \<Rightarrow> Inr out)"

definition derive_session_key :: "('e, 'priv, 'key) ring \<Rightarrow> bytes \<Rightarrow> 'key CryptoResult" where
  "derive_session_key R shared_secret =
     (case ring_hkdf R session_salt shared_secret session_info of
        None \<Rightarrow> Inl KeyDerivation
      | Some key_bytes \<Rightarrow>
        (case ring_key R key_bytes of None \<Rightarrow> Inl KeyDerivation | Some key \<Rightarrow> Inr key))"

text \<open>
  \<open>&s[i..i + 2]\<close> panics when either end is inside a UTF-8 character; the digits of a pair
  go through \<^verbatim>\<open>u8::from_str_radix\<close>; the first failure ends the collection.
\<close>

fun hex_pairs :: "string \<Rightarrow> bytes option outcome" where
  "hex_pairs [] = Ret (Some [])"
| "hex_pairs [_] = Ret None"
| "hex_pairs (a # b # r) =
     (if is_cont (of_char a) \<or> (r \<noteq> [] \<and> is_cont (of_char (hd r))) then Panic
      else case parse_unsigned 256 16 [a, b] of
        None \<Rightarrow> Ret None
      | Some v \<Rightarrow> obind (hex_pairs r) (\<lambda>o'. Ret (map_option (\<lambda>vs. of_nat v # vs) o')))"

definition hex_decode :: "string \<Rightarrow> bytes option outcome" where
  "hex_decode s = (if odd (length s) then Ret None else hex_pairs s)"

definition derive_session_key_hex ::
  "('e, 'priv, 'key) ring \<Rightarrow> 'priv \<Rightarrow> string \<Rightarrow> bytes CryptoResult outcome" where
  "derive_session_key_hex R private_key peer_hex =
     obind (hex_decode peer_hex) (\<lambda>d. Ret (case d of
        None \<Rightarrow> Inl KeyDerivation
      | Some pub_bytes \<Rightarrow>
        (case agree R private_key pub_bytes of
           Inl e \<Rightarrow> Inl e
         | Inr shared_secret \<Rightarrow> derive_session_key_to_bytes R shared_secret)))"

section \<open>The message cipher\<close>

definition encrypt_with_nonce :: "('e, 'priv, 'key) ring \<Rightarrow> 'key \<Rightarrow> bytes \<Rightarrow> bytes \<Rightarrow> bytes CryptoResult" where
  "encrypt_with_nonce R key plaintext nonce =
     (case ring_seal R key nonce plaintext of
        None \<Rightarrow> Inl EncryptionErr
      | Some sealed \<Rightarrow> Inr (u32_to_be_bytes 12 @ nonce @ sealed))"

definition encrypt_message ::
  "('e, 'priv, 'key) ring \<Rightarrow> bytes option \<Rightarrow> 'key \<Rightarrow> bytes \<Rightarrow> bytes CryptoResult" where
  "encrypt_message R rng key plaintext =
     (case rng of None \<Rightarrow> Inl EncryptionErr | Some nonce \<Rightarrow> encrypt_with_nonce R key plaintext nonce)"

definition encrypt :: "('e, 'priv, 'key) ring \<Rightarrow> bytes option \<Rightarrow> 'key \<Rightarrow> bytes \<Rightarrow> bytes CryptoResult" where
  "encrypt R rng key plaintext =
     (case rng of None \<Rightarrow> Inl EncryptionErr | Some nonce \<Rightarrow> encrypt_with_nonce R key plaintext nonce)"

definition encrypt_with_key_bytes ::
  "('e, 'priv, 'key) ring \<Rightarrow> bytes option \<Rightarrow> bytes \<Rightarrow> bytes \<Rightarrow> bytes CryptoResult" where
  "encrypt_with_key_bytes R rng key_bytes plaintext =
     (case ring_key R key_bytes of
        None \<Rightarrow> Inl EncryptionErr | Some key \<Rightarrow> encrypt R rng key plaintext)"

definition nonce_len :: "bytes \<Rightarrow> nat" where
  "nonce_len w = unat (u32_from_be_bytes (w ! 0) (w ! 1) (w ! 2) (w ! 3))"

definition decrypt :: "('e, 'priv, 'key) ring \<Rightarrow> 'key \<Rightarrow> bytes \<Rightarrow> bytes CryptoResult" where
  "decrypt R key wire_data =
     (if length wire_data < 4 + 12 + 16 then Inl DecryptionErr
      else if nonce_len wire_data \<noteq> 12 \<or> length wire_data < 4 + 12 + 16 then Inl InvalidNonce
      else
        (let nonce = take 12 (drop 4 wire_data); sealed = drop 16 wire_data in
         case ring_open R key nonce sealed of
           None \<Rightarrow> Inl DecryptionErr | Some plaintext \<Rightarrow> Inr plaintext))"

text \<open>In place: the buffer keeps its first 16 bytes and is cut after the plaintext; the result
  is the buffer with the offset at which the returned slice starts.\<close>

definition decrypt_in_place :: "('e, 'priv, 'key) ring \<Rightarrow> 'key \<Rightarrow> bytes \<Rightarrow> (bytes \<times> bytes) CryptoResult" where
  "decrypt_in_place R key buf =
     (if length buf < 4 + 12 + 16 then Inl DecryptionErr
      else if nonce_len buf \<noteq> 12 then Inl InvalidNonce
      else
        (case ring_open R key (take 12 (drop 4 buf)) (drop 16 buf) of
           None \<Rightarrow> Inl DecryptionErr
         | Some plaintext \<Rightarrow>
           (let opened = take 16 buf @ plaintext @ replicate (length buf - 16 - length plaintext) 0;
                buf' = take (16 + length plaintext) opened
            in Inr (buf', drop 16 buf'))))"

definition decrypt_with_key_bytes ::
  "('e, 'priv, 'key) ring \<Rightarrow> bytes \<Rightarrow> bytes \<Rightarrow> bytes CryptoResult" where
  "decrypt_with_key_bytes R key_bytes wire_data =
     (case ring_key R key_bytes of
        None \<Rightarrow> Inl DecryptionErr | Some key \<Rightarrow> decrypt R key wire_data)"

section \<open>The encrypted stream\<close>

definition ENCRYPTED_MAX :: nat where "ENCRYPTED_MAX = MAX_MESSAGE_SIZE + 20 + 4"

definition lift_crypto :: "'a CryptoResult \<Rightarrow> 'a stream_op" where
  "lift_crypto r =
     (case r of Inl e \<Rightarrow> stream_fail (Encryption (CryptoError_fmt e)) | Inr a \<Rightarrow> stream_ret a)"

text \<open>Both sides send their public key before they read the peer's; only the wording of one
  error (\<open>who\<close>) differs.\<close>

definition key_exchange :: "string \<Rightarrow> ('e, 'priv, 'key) ring \<Rightarrow> 'e \<Rightarrow> 'key stream_op" where
  "key_exchange who R rng =
     stream_bind (lift_crypto (generate_key_pair R rng)) (\<lambda>(own_pub, own_priv).
     stream_bind (write_all (u32_to_be_bytes 32 @ own_pub)) (\<lambda>_.
     stream_bind (read_exact 4) (\<lambda>len_buf.
     (let peer_len = unat (u32_from_be_bytes (len_buf ! 0) (len_buf ! 1) (len_buf ! 2) (len_buf ! 3)) in
      if peer_len \<noteq> 32 then
        stream_fail (Encryption (''unexpected '' @ who @ '' pubkey length: '' @ show_dec peer_len))
      else
        stream_bind (read_exact 32) (\<lambda>peer_pub.
        stream_bind (lift_crypto (agree R own_priv peer_pub)) (\<lambda>shared.
        lift_crypto (derive_session_key R shared)))))))"

definition server_side :: "('e, 'priv, 'key) ring \<Rightarrow> 'e \<Rightarrow> 'key stream_op" where
  "server_side R rng = key_exchange ''client'' R rng"

definition client_side :: "('e, 'priv, 'key) ring \<Rightarrow> 'e \<Rightarrow> 'key stream_op" where
  "client_side R rng = key_exchange ''server'' R rng"

definition crypto_read_message :: "('e, 'priv, 'key) ring \<Rightarrow> 'key \<Rightarrow> bytes stream_op" where
  "crypto_read_message R key =
     stream_bind (read_exact 4) (\<lambda>len_buf.
     (let len = unat (u32_from_be_bytes (len_buf ! 0) (len_buf ! 1) (len_buf ! 2) (len_buf ! 3)) in
      if len = 0 \<or> len > ENCRYPTED_MAX then
        stream_fail (Encryption (''invalid encrypted frame length: '' @ show_dec len))
      else
        stream_bind (read_exact len) (\<lambda>ct.
        stream_bind (lift_crypto (decrypt_in_place R key ct)) (\<lambda>(_, plaintext).
        stream_ret plaintext))))"

definition crypto_write_message ::
  "('e, 'priv, 'key) ring \<Rightarrow> bytes option \<Rightarrow> 'key \<Rightarrow> bytes \<Rightarrow> unit stream_op" where
  "crypto_write_message R rng key plaintext =
     stream_bind (lift_crypto (encrypt_message R rng key plaintext)) (\<lambda>ct.
     write_all (u32_to_be_bytes (of_nat (length ct)) @ ct))"

text \<open>The transport of the URB loop: plain or encrypted.\<close>

datatype 'key Wire = Plain | Encrypted 'key

definition wire_plain :: "'key Wire stream_op" where
  "wire_plain = stream_ret Plain"

definition wire_encrypted :: "('e, 'priv, 'key) ring \<Rightarrow> 'e \<Rightarrow> 'key Wire stream_op" where
  "wire_encrypted R rng = stream_bind (server_side R rng) (\<lambda>key. stream_ret (Encrypted key))"

definition Wire_read_message :: "('e, 'priv, 'key) ring \<Rightarrow> 'key Wire \<Rightarrow> bytes stream_op" where
  "Wire_read_message R w =
     (case w of Plain \<Rightarrow> read_message | Encrypted key \<Rightarrow> crypto_read_message R key)"

definition Wire_write_message ::
  "('e, 'priv, 'key) ring \<Rightarrow> bytes option \<Rightarrow> 'key Wire \<Rightarrow> bytes \<Rightarrow> unit stream_op" where
  "Wire_write_message R rng w plaintext =
     (case w of
        Plain \<Rightarrow> write_message plaintext
      | Encrypted key \<Rightarrow> crypto_write_message R rng key plaintext)"


section \<open>Opening what was sealed\<close>

lemma be32_bytes_take:
  assumes "4 \<le> length w" "u32_from_be_bytes (w ! 0) (w ! 1) (w ! 2) (w ! 3) = v"
  shows "w = u32_to_be_bytes v @ drop 4 w"
proof -
  have "rd_be32 w = Some (v, drop 4 w)" using rd_enough(4) [OF assms(1)] assms(2) by simp
  then show ?thesis by (simp add: rd_be32_Some)
qed

lemma be32_bytes_read:
  "u32_from_be_bytes ((u32_to_be_bytes v @ r) ! 0) ((u32_to_be_bytes v @ r) ! 1)
     ((u32_to_be_bytes v @ r) ! 2) ((u32_to_be_bytes v @ r) ! 3) = v"
  by (simp add: u32_to_be_bytes_def)

lemmas be32_bytes_read_all = be32_bytes_read be32_bytes_read [where r = "[]", simplified append_Nil2]

lemma nonce_len_written [simp]: "nonce_len (u32_to_be_bytes v @ r) = unat v"
  by (simp add: nonce_len_def be32_bytes_read_all del: One_nat_def)

lemma decrypt_in_place_eq:
  "decrypt_in_place R key w =
     (case decrypt R key w of Inl e \<Rightarrow> Inl e | Inr p \<Rightarrow> Inr (take 16 w @ p, p))"
  by (auto simp: decrypt_in_place_def decrypt_def Let_def split: option.splits)

lemma decrypt_sealed:
  assumes "aead_contract R" "length nonce = 12" "encrypt_with_nonce R key p nonce = Inr w"
  shows "decrypt R key w = Inr p" and "length w = length p + 32"
    and "decrypt_in_place R key w = Inr (take 16 w @ p, p)"
proof -
  from assms(3) obtain c where c: "ring_seal R key nonce p = Some c"
    and w: "w = u32_to_be_bytes 12 @ nonce @ c"
    by (auto simp: encrypt_with_nonce_def split: option.splits)
  have "length c = length p + 16" "ring_open R key nonce c = Some p"
    using assms(1) c by (simp_all add: aead_contract_def)
  with w assms(2) show "decrypt R key w = Inr p" "length w = length p + 32"
    by (simp_all add: decrypt_def Let_def)
  then show "decrypt_in_place R key w = Inr (take 16 w @ p, p)" by (simp add: decrypt_in_place_eq)
qed

lemma decrypt_only_sealed:
  assumes "aead_contract R" "decrypt R key w = Inr p"
  shows "\<exists>nonce. length nonce = 12 \<and> encrypt_with_nonce R key p nonce = Inr w"
proof -
  let ?n = "take 12 (drop 4 w)"
  from assms(2) have len: "32 \<le> length w" and nl: "nonce_len w = 12"
    and op: "ring_open R key ?n (drop 16 w) = Some p"
    by (auto simp: decrypt_def Let_def split: if_splits option.splits)
  have "u32_from_be_bytes (w ! 0) (w ! 1) (w ! 2) (w ! 3) = 12"
    using nl unfolding nonce_len_def by (simp add: word_unat_eq_iff)
  then have "w = u32_to_be_bytes 12 @ drop 4 w" using len by (intro be32_bytes_take) auto
  also have "drop 4 w = ?n @ drop 16 w"
    using append_take_drop_id [of 12 "drop 4 w"] by simp
  finally have "w = u32_to_be_bytes 12 @ ?n @ drop 16 w" .
  moreover have "ring_seal R key ?n p = Some (drop 16 w)"
    using assms(1) op by (simp add: aead_contract_def)
  ultimately have "encrypt_with_nonce R key p ?n = Inr w"
    by (simp add: encrypt_with_nonce_def)
  then show ?thesis using len by (intro exI [of _ ?n]) simp
qed

text \<open>A cipher and a key agreement that meet the contracts, for the witnesses.\<close>

definition toy_ring :: "(u8, u8, bytes) ring" where
  "toy_ring = \<lparr>
     ring_generate = Some,
     ring_public = (\<lambda>a. Some (replicate 32 a)),
     ring_agree = (\<lambda>a p. if length p = 32 then Some (replicate 32 (a + hd p)) else None),
     ring_hkdf = (\<lambda>salt s info. Some s),
     ring_key = (\<lambda>k. if length k = 32 then Some k else None),
     ring_seal = (\<lambda>k n p. Some (p @ replicate 16 (hd (k @ [0])))),
     ring_open = (\<lambda>k n c. if 16 \<le> length c \<and> drop (length c - 16) c = replicate 16 (hd (k @ [0]))
        then Some (take (length c - 16) c) else None)\<rparr>"

lemma toy_ring_aead: "aead_contract toy_ring"
proof -
  have "(if 16 \<le> length c \<and> drop (length c - 16) c = t then Some (take (length c - 16) c) else None)
      = Some p \<longleftrightarrow> p @ t = c" if "length t = 16" for c p t :: bytes
  proof
    assume "(if 16 \<le> length c \<and> drop (length c - 16) c = t then Some (take (length c - 16) c) else None)
      = Some p"
    then have "drop (length c - 16) c = t" "take (length c - 16) c = p" by (simp_all split: if_splits)
    then show "p @ t = c" using append_take_drop_id by blast
  qed (use that in auto)
  from this [where t = "replicate 16 b" for b] show ?thesis
    by (simp add: aead_contract_def toy_ring_def)
qed

lemma toy_ring_agreement: "agreement_contract toy_ring"
  by (auto simp: agreement_contract_def toy_ring_def add.commute)

text \<open>C11: Decryption accepts exactly the outputs of encryption under the same key, and returns
  their plaintext: \<open>decrypt\<close> opens a wire image to a plaintext when, and only when, the image is what
  \<open>encrypt_with_nonce\<close> makes of that plaintext with some 12-byte nonce.\<close>

theorem decrypt_iff_encrypted:
  assumes "aead_contract R"
  shows "decrypt R key w = Inr p
    \<longleftrightarrow> (\<exists>nonce. length nonce = 12 \<and> encrypt_with_nonce R key p nonce = Inr w)"
  using decrypt_sealed(1) [OF assms] decrypt_only_sealed [OF assms] by blast

theorem decrypt_iff_encrypted_witness:
  "encrypt_with_nonce toy_ring (replicate 32 1) [5] (replicate 12 9)
     = Inr (u32_to_be_bytes 12 @ replicate 12 9 @ [5] @ replicate 16 1)
   \<and> decrypt toy_ring (replicate 32 1) (u32_to_be_bytes 12 @ replicate 12 9 @ [5] @ replicate 16 1) = Inr [5]
   \<and> decrypt toy_ring (replicate 32 1) (u32_to_be_bytes 12 @ replicate 12 9 @ [5] @ replicate 16 2) \<noteq> Inr [5]"
proof -
  have enc: "encrypt_with_nonce toy_ring (replicate 32 1) [5] n = Inr (u32_to_be_bytes 12 @ n @ [5] @ replicate 16 1)" for n
    by (simp add: encrypt_with_nonce_def toy_ring_def)
  have "\<not> (\<exists>nonce. length nonce = 12 \<and> encrypt_with_nonce toy_ring (replicate 32 1) [5] nonce
      = Inr (u32_to_be_bytes 12 @ replicate 12 9 @ [5] @ replicate 16 2))"
    by (auto simp: enc append_eq_append_conv)
  then show ?thesis
    using enc [of "replicate 12 9"] decrypt_iff_encrypted [OF toy_ring_aead, of "replicate 32 1"]
    by (metis length_replicate)
qed

text \<open>C12: Decryption in place returns the same plaintext or error as the copying decryption on
  every input, and leaves the buffer as its first sixteen bytes followed by the plaintext.\<close>

theorem decrypt_in_place_refines:
  "decrypt_in_place R key w =
     (case decrypt R key w of Inl e \<Rightarrow> Inl e | Inr p \<Rightarrow> Inr (take 16 w @ p, p))"
  by (rule decrypt_in_place_eq)

section \<open>Hexadecimal\<close>

lemma show_hex_byte:
  assumes "n < 256"
  shows "show_hex_pad 2 n = [digit_char (n div 16), digit_char (n mod 16)]"
proof (cases "n < 16")
  case True
  then show ?thesis
    by (simp add: show_hex_pad_def show_radix.simps [of 16 n] digit_char_def char_of_def bit_0)
next
  case False
  with assms have "show_radix 16 n = [digit_char (n div 16), digit_char (n mod 16)]"
    by (simp add: show_radix.simps [of 16 n] show_radix.simps [of 16 "n div 16"])
  then show ?thesis by (simp add: show_hex_pad_def)
qed

lemma digit_char_ascii:
  assumes "d < 16"
  shows "digit_char d \<noteq> CHR ''+''" "\<not> is_cont (of_char (digit_char d))"
  using digit_char_cases [OF assms] by (auto simp: is_cont_def)

lemma parse_hex_byte:
  assumes "n < 256"
  shows "parse_unsigned 256 16 [digit_char (n div 16), digit_char (n mod 16)] = Some n"
  using assms digit_char_ascii(1) [of "n div 16"]
  by (simp add: parse_unsigned_def char_digit_digit_char)

lemma unat_u8_less: "unat (b :: u8) < 256"
  using unsigned_less [of b, where ?'a = nat] by simp

lemma unat_u8_div: "unat (b :: u8) div 16 < 16"
  using unat_u8_less [of b] by simp

lemma unat_u32_small: "n < 4294967296 \<Longrightarrow> unat (of_nat n :: u32) = n"
  by (simp add: unat_of_nat)

lemma hex_encode_Cons:
  "hex_encode (b # bs) = digit_char (unat b div 16) # digit_char (unat b mod 16) # hex_encode bs"
  by (simp add: hex_encode_def show_hex_byte unat_u8_less)

lemma hex_encode_start: "hex_encode bs = [] \<or> \<not> is_cont (of_char (hd (hex_encode bs)))"
  by (cases bs) (auto simp: hex_encode_Cons hex_encode_def [of "[]"] unat_u8_div intro!: digit_char_ascii(2))

lemma hex_pairs_encode: "hex_pairs (hex_encode bs) = Ret (Some bs)"
proof (induction bs)
  case Nil
  then show ?case by (simp add: hex_encode_def)
next
  case (Cons b bs)
  show ?case
    using Cons unat_u8_div [of b] hex_encode_start [of bs] parse_hex_byte [OF unat_u8_less [of b]]
    by (auto simp: hex_encode_Cons digit_char_ascii)
qed

lemma even_hex_encode: "even (length (hex_encode bs))"
  by (induction bs) (simp_all add: hex_encode_Cons hex_encode_def [of "[]"])

text \<open>Decoding the hexadecimal form of any byte string gives it back: the public key one
  side prints is the key the other side parses.\<close>

theorem hex_roundtrip: "hex_decode (hex_encode bs) = Ret (Some bs)"
  by (simp add: hex_decode_def even_hex_encode hex_pairs_encode)

text \<open>Decoding hexadecimal panics on a string of even length whose pair of bytes splits a
  multi-byte character (here a two-byte character between two digits), and accepts a plus
  sign in place of a digit.\<close>

theorem hex_decode_anomalies:
  "hex_decode [CHR ''a'', CHR 0xC3, CHR 0xA9, CHR ''1''] = Panic
   \<and> hex_decode ''+f'' = Ret (Some [15])"
  by (simp add: hex_decode_def is_cont_def parse_unsigned_def char_digit_def)

section \<open>The encrypted transport\<close>

definition enc_frames :: "('e, 'priv, 'key) ring \<Rightarrow> 'key \<Rightarrow> bytes \<Rightarrow> bytes \<Rightarrow> bool" where
  "enc_frames R key p f \<longleftrightarrow>
     (\<exists>nonce ct. length nonce = 12 \<and> encrypt_with_nonce R key p nonce = Inr ct
        \<and> length p + 32 \<le> ENCRYPTED_MAX \<and> f = u32_to_be_bytes (of_nat (length ct)) @ ct)"

lemma enc_framing:
  assumes "aead_contract R"
  shows "message_framing (enc_frames R key) (crypto_read_message R key)"
proof
  fix p f t r
  assume "enc_frames R key p f"
  then obtain nonce ct where n: "length nonce = 12" "encrypt_with_nonce R key p nonce = Inr ct"
    and len: "length p + 32 \<le> ENCRYPTED_MAX" and f: "f = u32_to_be_bytes (of_nat (length ct)) @ ct"
    by (auto simp: enc_frames_def)
  note d = decrypt_sealed [OF assms n]
  have u: "unat (of_nat (length ct) :: u32) = length ct"
    by (rule unat_u32_small) (use len d(2) in \<open>simp add: ENCRYPTED_MAX_def MAX_MESSAGE_SIZE_def\<close>)
  have "read_exact 4 (t\<lparr>rx := f @ r\<rparr>) = (Inr (u32_to_be_bytes (of_nat (length ct))), t\<lparr>rx := ct @ r\<rparr>)"
    by (simp add: f)
  then show "crypto_read_message R key (t\<lparr>rx := f @ r\<rparr>) = (Inr p, t\<lparr>rx := r\<rparr>)"
    using d u len
    by (simp add: crypto_read_message_def stream_eval Let_def be32_bytes_read_all lift_crypto_def
        del: One_nat_def)
qed

fun send_all :: "('m \<Rightarrow> unit stream_op) \<Rightarrow> 'm list \<Rightarrow> unit stream_op" where
  "send_all send [] = stream_ret ()"
| "send_all send (m # ms) = stream_bind (send m) (\<lambda>_. send_all send ms)"

definition sendable :: "('e, 'priv, 'key) ring \<Rightarrow> 'key \<Rightarrow> bytes \<times> bytes \<Rightarrow> bool" where
  "sendable R key m \<longleftrightarrow>
     length (fst m) = 12 \<and> length (snd m) + 32 \<le> ENCRYPTED_MAX \<and> ring_seal R key (fst m) (snd m) \<noteq> None"

lemma send_frames:
  assumes "list_all (sendable R key) ms" "tx_ok a = None"
  shows "\<exists>a' fs. send_all (\<lambda>(n, p). crypto_write_message R (Some n) key p) ms a = (Inr (), a')
    \<and> tx a' = tx a @ concat fs \<and> list_all2 (enc_frames R key) (map snd ms) fs"
  using assms
proof (induction ms arbitrary: a)
  case Nil
  show ?case by (rule exI [of _ a], rule exI [of _ "[]"]) (simp add: stream_ret_def)
next
  case (Cons m ms)
  obtain n p where m: "m = (n, p)" by force
  from Cons.prems m obtain c where "ring_seal R key n p = Some c" "length n = 12"
    and len: "length p + 32 \<le> ENCRYPTED_MAX"
    by (auto simp: sendable_def)
  then obtain ct where ct: "encrypt_with_nonce R key p n = Inr ct" "length n = 12"
    by (simp add: encrypt_with_nonce_def)
  let ?f = "u32_to_be_bytes (of_nat (length ct)) @ ct"
  let ?a = "a\<lparr>tx := tx a @ ?f\<rparr>"
  have "crypto_write_message R (Some n) key p a = (Inr (), ?a)"
    using ct Cons.prems(2)
    by (simp add: crypto_write_message_def encrypt_message_def lift_crypto_def stream_eval write_all_def)
  moreover obtain a' fs where
    "send_all (\<lambda>(n, p). crypto_write_message R (Some n) key p) ms ?a = (Inr (), a')"
    "tx a' = tx ?a @ concat fs" "list_all2 (enc_frames R key) (map snd ms) fs"
    using Cons.IH [of ?a] Cons.prems by auto
  moreover have "enc_frames R key p ?f" using ct len by (auto simp: enc_frames_def)
  ultimately show ?case
    by (intro exI [of _ a'] exI [of _ "?f # fs"]) (simp add: m stream_bind_def)
qed

text \<open>C6: Messages written to the encrypted stream are read by the peer that holds the same key
  as exactly those messages in the same order, each with its own nonce and of at most
  \<open>ENCRYPTED_MAX - 32\<close> bytes.\<close>

theorem encrypted_transport_roundtrip:
  assumes "aead_contract R" "list_all (sendable R key) ms" "tx_ok a = None" "tx a = []"
  shows "\<exists>a'. send_all (\<lambda>(n, p). crypto_write_message R (Some n) key p) ms a = (Inr (), a')
    \<and> recv_n (length ms) (crypto_read_message R key) (b\<lparr>rx := tx a'\<rparr>)
        = (Inr (map snd ms), b\<lparr>rx := []\<rparr>)"
proof -
  obtain a' fs where 1: "send_all (\<lambda>(n, p). crypto_write_message R (Some n) key p) ms a = (Inr (), a')"
    and 2: "tx a' = concat fs @ []" and 3: "list_all2 (enc_frames R key) (map snd ms) fs"
    using send_frames [OF assms(2,3)] assms(4) by auto
  have "recv_n (length (map snd ms)) (crypto_read_message R key) (b\<lparr>rx := concat fs @ []\<rparr>)
      = (Inr (map snd ms), b\<lparr>rx := []\<rparr>)"
    by (rule message_framing.recv_frames [OF enc_framing [OF assms(1)] 3])
  then show ?thesis using 1 2 by simp
qed

theorem encrypted_transport_roundtrip_witness:
  "\<exists>a'. send_all (\<lambda>(n, p). crypto_write_message toy_ring (Some n) (replicate 32 1) p)
      [(replicate 12 1, [1, 2, 3]), (replicate 12 2, [])] (sample_tcp []) = (Inr (), a')
    \<and> recv_n 2 (crypto_read_message toy_ring (replicate 32 1)) ((sample_tcp [])\<lparr>rx := tx a'\<rparr>)
        = (Inr [[1, 2, 3], []], (sample_tcp [])\<lparr>rx := []\<rparr>)"
proof -
  have "list_all (sendable toy_ring (replicate 32 1)) [(replicate 12 1, [1, 2, 3]), (replicate 12 2, [])]"
    by (simp add: sendable_def toy_ring_def ENCRYPTED_MAX_def MAX_MESSAGE_SIZE_def)
  from encrypted_transport_roundtrip [OF toy_ring_aead this, where a = "sample_tcp []"
      and b = "sample_tcp []"]
  show ?thesis
    unfolding sample_tcp_def by (simp only: tcp.select_convs list.size list.map snd_conv numeral_2_eq_2
        add_0_right add_Suc_right One_nat_def refl simp_thms)
qed

text \<open>C40: The reader's length limit allows 24 bytes of overhead but encryption adds 32: a message
  of more than \<open>MAX_MESSAGE_SIZE - 8\<close> and at most \<open>MAX_MESSAGE_SIZE\<close> bytes is written
  without error and rejected by the reader.\<close>

theorem encrypted_limit_mismatch:
  assumes "aead_contract R" "length nonce = 12" "encrypt_with_nonce R key p nonce = Inr ct"
    and "MAX_MESSAGE_SIZE < length p + 8" "length p \<le> MAX_MESSAGE_SIZE" "tx_ok a = None" "tx a = []"
  shows "\<exists>a' msg. crypto_write_message R (Some nonce) key p a = (Inr (), a')
    \<and> fst (crypto_read_message R key (b\<lparr>rx := tx a'\<rparr>)) = Inl (Encryption msg)"
proof -
  have len: "length ct = length p + 32" by (rule decrypt_sealed(2) [OF assms(1-3)])
  have u: "unat (of_nat (length ct) :: u32) = length ct"
    by (rule unat_u32_small) (use len assms(5) in \<open>simp add: MAX_MESSAGE_SIZE_def\<close>)
  have "crypto_write_message R (Some nonce) key p a
      = (Inr (), a\<lparr>tx := u32_to_be_bytes (of_nat (length ct)) @ ct\<rparr>)"
    using assms(3,6,7)
    by (simp add: crypto_write_message_def encrypt_message_def lift_crypto_def stream_eval write_all_def)
  moreover have "length ct > ENCRYPTED_MAX" using len assms(4) by (simp add: ENCRYPTED_MAX_def)
  ultimately show ?thesis
    using u by (simp add: crypto_read_message_def stream_eval Let_def be32_bytes_read_all
        del: One_nat_def)
qed

theorem encrypted_limit_mismatch_witness:
  "\<exists>a' msg. crypto_write_message toy_ring (Some (replicate 12 1)) (replicate 32 1)
       (replicate MAX_MESSAGE_SIZE 0) (sample_tcp []) = (Inr (), a')
    \<and> fst (crypto_read_message toy_ring (replicate 32 1) ((sample_tcp [])\<lparr>rx := tx a'\<rparr>))
        = Inl (Encryption msg)"
  by (rule encrypted_limit_mismatch [OF toy_ring_aead,
        where ct = "u32_to_be_bytes 12 @ replicate 12 1 @ replicate MAX_MESSAGE_SIZE 0 @ replicate 16 1"])
    (simp_all add: encrypt_with_nonce_def toy_ring_def sample_tcp_def)

lemma key_exchange_run:
  assumes "generate_key_pair R e = Inr (own, priv)" "length peer = 32"
    and "agree R priv peer = Inr shared" "derive_session_key R shared = Inr key" "tx_ok t = None"
  shows "key_exchange who R e (t\<lparr>rx := u32_to_be_bytes 32 @ peer @ r\<rparr>)
    = (Inr key, t\<lparr>rx := r, tx := tx t @ u32_to_be_bytes 32 @ own\<rparr>)"
proof -
  let ?t = "t\<lparr>rx := u32_to_be_bytes 32 @ peer @ r, tx := tx t @ u32_to_be_bytes 32 @ own\<rparr>"
  have "write_all (u32_to_be_bytes 32 @ own) (t\<lparr>rx := u32_to_be_bytes 32 @ peer @ r\<rparr>) = (Inr (), ?t)"
    using assms(5) by (simp add: write_all_def)
  moreover have "read_exact 4 ?t = (Inr (u32_to_be_bytes 32), ?t\<lparr>rx := peer @ r\<rparr>)"
    by (rule read_exact_front) simp_all
  moreover have "read_exact 32 (?t\<lparr>rx := peer @ r\<rparr>) = (Inr peer, ?t\<lparr>rx := peer @ r, rx := r\<rparr>)"
    by (rule read_exact_front) (simp_all add: assms(2))
  ultimately show ?thesis
    using assms(1,3,4)
    by (simp add: key_exchange_def lift_crypto_def stream_eval Let_def be32_bytes_read_all
        del: One_nat_def)
qed

text \<open>C10: The key exchange: when each side's public key arrives at the other, server and client
  end with the same session key, having written exactly their own key message.\<close>

theorem key_exchange_agrees:
  assumes "agreement_contract R"
    and "generate_key_pair R es = Inr (pub_s, priv_s)" "generate_key_pair R ec = Inr (pub_c, priv_c)"
    and "agree R priv_s pub_c = Inr shared" "derive_session_key R shared = Inr key"
    and "tx_ok s = None" "tx_ok c = None"
  shows "server_side R es (s\<lparr>rx := u32_to_be_bytes 32 @ pub_c @ r\<rparr>)
      = (Inr key, s\<lparr>rx := r, tx := tx s @ u32_to_be_bytes 32 @ pub_s\<rparr>)
    \<and> client_side R ec (c\<lparr>rx := u32_to_be_bytes 32 @ pub_s @ q\<rparr>)
      = (Inr key, c\<lparr>rx := q, tx := tx c @ u32_to_be_bytes 32 @ pub_c\<rparr>)"
proof -
  from assms(2,3) have pubs: "ring_public R priv_s = Some pub_s" "ring_public R priv_c = Some pub_c"
    by (auto simp: generate_key_pair_def split: option.splits)
  with assms(1) have len: "length pub_s = 32" "length pub_c = 32"
    and sym: "ring_agree R priv_s pub_c = ring_agree R priv_c pub_s"
    unfolding agreement_contract_def by blast+
  from sym assms(4) have agree_c: "agree R priv_c pub_s = Inr shared" by (simp add: agree_def)
  show ?thesis
    unfolding server_side_def client_side_def
    using key_exchange_run [where who = "''client''" and t = s and r = r, OF assms(2) len(2) assms(4-6)]
      key_exchange_run [where who = "''server''" and t = c and r = q, OF assms(3) len(1) agree_c assms(5,7)]
    by (rule conjI)
qed

theorem key_exchange_agrees_witness:
  "server_side toy_ring 3 ((sample_tcp [])\<lparr>rx := u32_to_be_bytes 32 @ replicate 32 4 @ []\<rparr>)
      = (Inr (replicate 32 7), (sample_tcp [])\<lparr>rx := [], tx := tx (sample_tcp []) @ u32_to_be_bytes 32 @ replicate 32 3\<rparr>)
   \<and> client_side toy_ring 4 ((sample_tcp [])\<lparr>rx := u32_to_be_bytes 32 @ replicate 32 3 @ []\<rparr>)
      = (Inr (replicate 32 7), (sample_tcp [])\<lparr>rx := [], tx := tx (sample_tcp []) @ u32_to_be_bytes 32 @ replicate 32 4\<rparr>)"
  by (rule key_exchange_agrees [OF toy_ring_agreement, where priv_s = 3 and priv_c = 4
        and shared = "replicate 32 7"])
    (simp_all add: generate_key_pair_def agree_def derive_session_key_def toy_ring_def sample_tcp_def)


section \<open>What the transport consumes\<close>

lemma crypto_read_shrinks:
  "crypto_read_message R key t = (Inr m, t') \<Longrightarrow> length (rx t') + 4 \<le> length (rx t)"
  unfolding crypto_read_message_def Let_def lift_crypto_def
  by (rule read_then_shrinks [rotated], assumption) (intro stream_local_intros)

lemma Wire_read_shrinks:
  "Wire_read_message R w t = (Inr m, t') \<Longrightarrow> length (rx t') < length (rx t)"
  using read_message_shrinks [of t m t'] crypto_read_shrinks [of R _ t m t']
  by (cases w) (fastforce simp: Wire_read_message_def)+

lemma write_all_rx [simp]: "write_all bs t = (r, t') \<Longrightarrow> rx t' = rx t"
  by (auto simp: write_all_def split: option.splits if_splits)

lemma Wire_write_rx: "Wire_write_message R rng w bs t = (r, t') \<Longrightarrow> rx t' = rx t"
  by (cases w; cases "encrypt_message R rng (case w of Encrypted k \<Rightarrow> k) bs")
    (auto simp: Wire_write_message_def write_message_def crypto_write_message_def stream_eval lift_crypto_def)

end
