(* ===== verification/Bandwidth.thy ===== *)
theory Bandwidth
  imports Anyplug_Prelude Complex_Main
begin

text \<open>
  \<^verbatim>\<open>server/usbip-server/src/bandwidth.rs\<close>: the token bucket of the per-client bandwidth cap.
  Instants are nanoseconds, \<open>now\<close> is the clock reading of a call, and every \<^verbatim>\<open>f64\<close>
  operation is the exact one followed by \<open>rnd\<close>, the rounding to the nearest double
  (a parameter; \<open>rounding\<close> states what the proofs use of it).
\<close>

definition rounding :: "(real \<Rightarrow> real) \<Rightarrow> bool" where
  "rounding rnd \<longleftrightarrow> mono rnd \<and> rnd 0 = 0 \<and> (\<forall>x. rnd (rnd x) = rnd x)"

record BandwidthLimit =
  bytes_per_sec :: u64

record TokenBucket =
  tokens :: real
  max_tokens :: real
  refill_per_ns :: real
  last_refill :: nat

definition bw_unlimited :: BandwidthLimit where
  "bw_unlimited = \<lparr>bytes_per_sec = 0\<rparr>"

definition is_unlimited :: "BandwidthLimit \<Rightarrow> bool" where
  "is_unlimited l \<longleftrightarrow> bytes_per_sec l = 0"

definition TokenBucket_new :: "(real \<Rightarrow> real) \<Rightarrow> nat \<Rightarrow> u64 \<Rightarrow> TokenBucket" where
  "TokenBucket_new rnd now bps =
     (if bps = 0 then \<lparr>tokens = 0, max_tokens = 0, refill_per_ns = 0, last_refill = now\<rparr>
      else
        (let rate = rnd (real (unat bps)) in
         \<lparr>tokens = rate, max_tokens = rate, refill_per_ns = rnd (rate / 1000000000),
          last_refill = now\<rparr>))"

definition into_bucket :: "(real \<Rightarrow> real) \<Rightarrow> nat \<Rightarrow> BandwidthLimit \<Rightarrow> TokenBucket option" where
  "into_bucket rnd now l =
     (if is_unlimited l then None else Some (TokenBucket_new rnd now (bytes_per_sec l)))"

definition refill :: "(real \<Rightarrow> real) \<Rightarrow> nat \<Rightarrow> TokenBucket \<Rightarrow> TokenBucket" where
  "refill rnd now b =
     (let elapsed_ns = rnd (real (now - last_refill b)) in
      if elapsed_ns > 0 then
        b\<lparr>tokens := min (rnd (tokens b + rnd (elapsed_ns * refill_per_ns b))) (max_tokens b),
          last_refill := now\<rparr>
      else b)"

text \<open>The saturating cast to \<^verbatim>\<open>u64\<close> nanoseconds.\<close>

definition f64_as_u64 :: "real \<Rightarrow> nat" where
  "f64_as_u64 x = min (nat \<lfloor>x\<rfloor>) (2 ^ 64 - 1)"

definition consume :: "(real \<Rightarrow> real) \<Rightarrow> nat \<Rightarrow> u64 \<Rightarrow> TokenBucket \<Rightarrow> nat option \<times> TokenBucket" where
  "consume rnd now amount0 b0 =
     (if max_tokens b0 = 0 then (None, b0)
      else
        (let b = refill rnd now b0; amount = rnd (real (unat amount0)) in
         if amount \<le> tokens b then (Some 0, b\<lparr>tokens := rnd (tokens b - amount)\<rparr>)
         else
           (let deficit = rnd (amount - tokens b);
                delay_ns = f64_as_u64 (rnd (deficit / refill_per_ns b))
            in (Some delay_ns, b\<lparr>tokens := 0\<rparr>))))"

text \<open>\<open>throttle\<close> sleeps for the delay: the time at which it returns.\<close>

definition throttle :: "(real \<Rightarrow> real) \<Rightarrow> nat \<Rightarrow> u64 \<Rightarrow> TokenBucket \<Rightarrow> nat \<times> TokenBucket" where
  "throttle rnd now amount b =
     (case consume rnd now amount b of
        (None, b') \<Rightarrow> (now, b')
      | (Some d, b') \<Rightarrow> (if d > 0 then now + d else now, b'))"

section \<open>Token accounting\<close>

definition bucket_inv :: "TokenBucket \<Rightarrow> bool" where
  "bucket_inv b \<longleftrightarrow> 0 \<le> tokens b \<and> tokens b \<le> max_tokens b \<and> 0 \<le> refill_per_ns b"

lemma rounding_nonneg: "rounding rnd \<Longrightarrow> 0 \<le> x \<Longrightarrow> 0 \<le> rnd x"
  unfolding rounding_def by (metis monoD)

lemma rounding_rate: "rounding rnd \<Longrightarrow> 0 \<le> rnd (real (unat (x :: u64)))"
  by (rule rounding_nonneg [of rnd "real (unat x)"]) (assumption, rule of_nat_0_le_iff)

lemma bucket_inv_new:
  assumes R: "rounding rnd"
  shows "bucket_inv (TokenBucket_new rnd now bps)"
proof -
  have "0 \<le> rnd (rnd (real (unat bps)) / 1000000000)"
    by (rule rounding_nonneg [OF R]) (use rounding_rate [OF R] in \<open>rule divide_nonneg_nonneg, simp\<close>)
  then show ?thesis
    using rounding_rate [OF R, of bps] by (simp add: bucket_inv_def TokenBucket_new_def Let_def)
qed

lemma bucket_inv_refill:
  assumes "rounding rnd" "bucket_inv b"
  shows "bucket_inv (refill rnd now b)"
proof -
  let ?e = "rnd (real (now - last_refill b))"
  have "0 \<le> rnd (tokens b + rnd (?e * refill_per_ns b))" if "0 < ?e"
    using assms that
    by (intro rounding_nonneg [OF assms(1)] add_nonneg_nonneg mult_nonneg_nonneg)
      (simp_all add: bucket_inv_def)
  then show ?thesis using assms(2) by (simp add: bucket_inv_def refill_def Let_def)
qed

lemma refill_max [simp]:
  "max_tokens (refill rnd now b) = max_tokens b" "refill_per_ns (refill rnd now b) = refill_per_ns b"
  by (simp_all add: refill_def Let_def)

lemma bucket_inv_consume:
  assumes R: "rounding rnd" and inv: "bucket_inv b" and c: "consume rnd now amount b = (d, b')"
    and exact: "rnd (max_tokens b) = max_tokens b"
  shows "bucket_inv b' \<and> max_tokens b' = max_tokens b"
proof -
  let ?b = "refill rnd now b" and ?a = "rnd (real (unat amount))"
  have inv': "bucket_inv ?b" by (rule bucket_inv_refill [OF R inv])
  have a: "0 \<le> ?a" by (rule rounding_rate [OF R])
  have "0 \<le> rnd (tokens ?b - ?a) \<and> rnd (tokens ?b - ?a) \<le> max_tokens b" if "?a \<le> tokens ?b"
  proof
    show "0 \<le> rnd (tokens ?b - ?a)" using R that by (simp add: rounding_nonneg)
    have "tokens ?b - ?a \<le> max_tokens b" using inv' a by (simp add: bucket_inv_def)
    then show "rnd (tokens ?b - ?a) \<le> max_tokens b"
      using R exact unfolding rounding_def by (metis monoD)
  qed
  then show ?thesis
    using c inv inv' by (auto simp: consume_def Let_def bucket_inv_def split: if_splits)
qed

text \<open>The bucket never holds a negative number of tokens nor more than one second's worth,
  whatever amounts are consumed at whatever times and however the arithmetic rounds.\<close>

lemma bucket_bounds:
  assumes "rounding rnd" "bucket_inv b" "rnd (max_tokens b) = max_tokens b"
    and "consume rnd now amount b = (d, b')"
  shows "0 \<le> tokens b' \<and> tokens b' \<le> max_tokens b"
  using bucket_inv_consume [OF assms(1,2,4,3)] by (simp add: bucket_inv_def)

lemma rounding_id: "rounding (\<lambda>x. x)"
  by (simp add: rounding_def mono_def)

section \<open>The rate over a run\<close>

text \<open>
  A client that calls \<^verbatim>\<open>throttle\<close> again and again, each time some nanoseconds after the last call
  returned (a sleep that takes longer than asked is part of the next pause), with exact arithmetic:
  the time of the last return and the bucket.
\<close>

fun throttle_run :: "nat \<Rightarrow> (nat \<times> u64) list \<Rightarrow> TokenBucket \<Rightarrow> nat \<times> TokenBucket" where
  "throttle_run now [] b = (now, b)"
| "throttle_run now ((pause, amount) # calls) b =
     (let (t, b') = throttle (\<lambda>x. x) (now + pause) amount b in throttle_run t calls b')"

text \<open>What a client can still draw: the tokens and what has accrued since the last refill.\<close>

definition credit :: "nat \<Rightarrow> TokenBucket \<Rightarrow> real" where
  "credit t b = tokens b + refill_per_ns b * real (t - last_refill b)"

definition rated :: "real \<Rightarrow> nat \<Rightarrow> TokenBucket \<Rightarrow> bool" where
  "rated r t b \<longleftrightarrow> 1 \<le> r * 1000000000 \<and> max_tokens b = r * 1000000000 \<and> refill_per_ns b = r
     \<and> 0 \<le> tokens b \<and> last_refill b \<le> t"

lemma rated_later: "rated r t b \<Longrightarrow> rated r (t + d) b \<and> credit (t + d) b = credit t b + r * real d"
  by (auto simp: rated_def credit_def algebra_simps)

lemma refill_exact:
  assumes "rated r now b"
  shows "0 \<le> tokens (refill (\<lambda>x. x) now b)" "tokens (refill (\<lambda>x. x) now b) \<le> credit now b"
    "last_refill (refill (\<lambda>x. x) now b) = now"
  using assms by (auto simp: refill_def credit_def rated_def Let_def min_le_iff_disj mult.commute)

lemma f64_as_u64_floor:
  assumes "0 \<le> x" "x < 2 ^ 64"
  shows "real (f64_as_u64 x) \<le> x" "x < real (f64_as_u64 x) + 1"
proof -
  have "\<lfloor>x\<rfloor> \<le> 2 ^ 64 - 1" using assms(2) by (simp add: floor_less_iff zle_diff1_eq)
  then have "nat \<lfloor>x\<rfloor> \<le> 2 ^ 64 - 1" by (simp add: nat_le_iff)
  then have "real (f64_as_u64 x) = of_int \<lfloor>x\<rfloor>"
    using assms(1) unfolding f64_as_u64_def by (simp add: min_absorb1)
  then show "real (f64_as_u64 x) \<le> x" "x < real (f64_as_u64 x) + 1" by linarith+
qed

text \<open>One call: what it lets pass is paid for by credit and, twice, by the time it waits.\<close>

lemma throttle_step:
  assumes b: "rated r now b" and a: "unat amount < 2 ^ 32" and t: "throttle (\<lambda>x. x) now amount b = (t, b')"
  shows "rated r t b' \<and> now \<le> t \<and> real (t - now) * r \<le> real (unat amount)
    \<and> real (unat amount) + credit t b' \<le> credit now b + r * (2 * real (t - now) + 1)"
proof -
  define n where "n = unat amount"
  let ?b = "refill (\<lambda>x. x) now b"
  have r: "1 \<le> r * 1000000000" "max_tokens b = r * 1000000000" "refill_per_ns b = r" "0 < r"
    using b by (auto simp: rated_def)
  note R = refill_exact [OF b]
  note t' = t [unfolded throttle_def consume_def Let_def n_def [symmetric]]
  have "rated r t b' \<and> now \<le> t \<and> real (t - now) * r \<le> real n
    \<and> real n + credit t b' \<le> credit now b + r * (2 * real (t - now) + 1)"
  proof (cases "real n \<le> tokens ?b")
    case True
    then have "t = now" "b' = ?b\<lparr>tokens := tokens ?b - real n\<rparr>" using t' r by auto
    then show ?thesis using True R r by (simp add: rated_def credit_def)
  next
    case False
    define x where "x = (real n - tokens ?b) / r"
    have tt: "t = now + f64_as_u64 x" "b' = ?b\<lparr>tokens := 0\<rparr>"
      using t' r False by (auto simp: x_def split: if_splits)
    have x: "x * r = real n - tokens ?b" "0 \<le> x" using r False by (simp_all add: x_def)
    have "real n \<le> real n * (r * 1000000000)" using r(1) by (simp add: mult_le_cancel_left1)
    then have "x * r \<le> real n * 1000000000 * r" using x R(1) by (simp add: algebra_simps)
    then have "x \<le> real n * 1000000000" using r(4) by simp
    moreover have "real n < 2 ^ 32" using a by (simp add: n_def [symmetric])
    ultimately have "x < 2 ^ 64" by simp
    with x(2) have d: "real (f64_as_u64 x) \<le> x" "x < real (f64_as_u64 x) + 1"
      by (simp_all add: f64_as_u64_floor)
    define d where "d = real (f64_as_u64 x)"
    have "d * r \<le> x * r" "x * r \<le> (d + 1) * r" using d r(4) unfolding d_def by simp_all
    then have "d * r \<le> real n \<and> real n + r * d \<le> credit now b + r * (2 * d + 1)"
      using x(1) R by (simp add: algebra_simps)
    moreover have "real (t - now) = d" "credit t b' = r * d" using tt R r by (simp_all add: d_def credit_def)
    ultimately show ?thesis using tt R r by (simp add: rated_def)
  qed
  then show ?thesis unfolding n_def .
qed

lemma throttle_run_credit:
  assumes "rated r now b" "list_all (\<lambda>(_, a). unat a < 2 ^ 32) calls" "throttle_run now calls b = (t, b')"
  shows "rated r t b' \<and> now \<le> t
    \<and> real (t - now) * r \<le> real (\<Sum>c\<leftarrow>calls. fst c) * r + real (\<Sum>c\<leftarrow>calls. unat (snd c))
    \<and> real (\<Sum>c\<leftarrow>calls. unat (snd c)) + credit t b'
        \<le> credit now b + r * (2 * real (t - now) + real (length calls))"
  using assms
proof (induction now calls b arbitrary: t b' rule: throttle_run.induct)
  case (2 now pause amount calls b)
  obtain t1 b1 where s: "throttle (\<lambda>x. x) (now + pause) amount b = (t1, b1)" by force
  have rest: "throttle_run t1 calls b1 = (t, b')" using 2(4) s by simp
  note later = rated_later [OF 2(2), of pause]
  have one: "rated r t1 b1" "now + pause \<le> t1" "real (t1 - (now + pause)) * r \<le> real (unat amount)"
    "real (unat amount) + credit t1 b1 \<le> credit now b + r * real pause + r * (2 * real (t1 - (now + pause)) + 1)"
    using throttle_step [OF _ _ s] later 2(3) by auto
  have IH: "rated r t b'" "t1 \<le> t"
    "real (t - t1) * r \<le> real (\<Sum>c\<leftarrow>calls. fst c) * r + real (\<Sum>c\<leftarrow>calls. unat (snd c))"
    "real (\<Sum>c\<leftarrow>calls. unat (snd c)) + credit t b' \<le> credit t1 b1 + r * (2 * real (t - t1) + real (length calls))"
    using 2(1) [OF s [symmetric] refl one(1) _ rest] 2(3) by auto
  have r: "0 < r" using 2(2) by (simp add: rated_def)
  have d: "real (t - now) = real (t - t1) + real (t1 - (now + pause)) + real pause"
    using one(2) IH(2) by simp
  have "0 \<le> r * real pause" using r by simp
  then show ?case unfolding d using IH one by (simp add: algebra_simps)
qed simp

lemma rated_new: "bps \<noteq> 0 \<Longrightarrow> rated (real (unat bps) / 1000000000) now (TokenBucket_new (\<lambda>x. x) now bps)"
proof -
  assume "bps \<noteq> 0"
  then have "1 \<le> unat bps" by (simp add: unat_gt_0 Suc_le_eq)
  then have "1 \<le> real (unat bps)" by (metis of_nat_1 of_nat_le_iff)
  then show ?thesis using \<open>bps \<noteq> 0\<close> by (simp add: rated_def TokenBucket_new_def Let_def)
qed

text \<open>C28: Over any run of throttled sends of less than 4 GiB each, with exact arithmetic, the bytes let
  through are at most one second's worth (the burst) plus twice the configured rate over the time
  that passed, plus one nanosecond's worth per call for the truncated delays; and the waits are
  never longer than the bytes take at the configured rate. The factor two cannot be left out.\<close>

theorem throttled_rate:
  assumes "bps \<noteq> 0" "list_all (\<lambda>(_, a). unat a < 2 ^ 32) calls"
    and "throttle_run now calls (TokenBucket_new (\<lambda>x. x) now bps) = (t, b)"
  shows "now \<le> t
    \<and> real (\<Sum>c\<leftarrow>calls. unat (snd c)) \<le>
        real (unat bps) + real (unat bps) / 1000000000 * (2 * real (t - now) + real (length calls))
    \<and> real (t - now) * (real (unat bps) / 1000000000) \<le>
        real (\<Sum>c\<leftarrow>calls. fst c) * (real (unat bps) / 1000000000) + real (\<Sum>c\<leftarrow>calls. unat (snd c))"
proof -
  have b: "0 \<le> credit t b" if "rated r t b" for r using that by (simp add: rated_def credit_def)
  have "credit now (TokenBucket_new (\<lambda>x. x) now bps) = real (unat bps)"
    using assms(1) by (simp add: credit_def TokenBucket_new_def Let_def)
  then show ?thesis
    using throttle_run_credit [OF rated_new [OF assms(1)] assms(2,3)] b by fastforce
qed

theorem throttled_rate_witness:
  "\<exists>t b. throttle_run 7 [(0, 1000), (5, 1500)] (TokenBucket_new (\<lambda>x. x) 7 1000) = (t, b)
    \<and> t = 1500000007 \<and> 2500 \<le> 1000 + 1000 / 1000000000 * (2 * real (t - 7) + 2)"
proof -
  obtain t b where tb: "throttle_run 7 [(0, 1000), (5, 1500)] (TokenBucket_new (\<lambda>x. x) 7 1000) = (t, b)" by force
  have "t = 1500000007"
    using tb by (simp add: throttle_def consume_def refill_def TokenBucket_new_def f64_as_u64_def Let_def)
  then show ?thesis using tb throttled_rate [OF _ _ tb] by simp
qed

text \<open>
  The rate is indeed doubled: a deficit empties the bucket instead of leaving a debt, so the time
  waited for it is credited again at the next refill. At 1000 bytes per second a client that
  always has a block of 1000 bytes ready gets 2000 bytes through in every second, forever.
\<close>

definition empty_bucket :: "nat \<Rightarrow> TokenBucket" where
  "empty_bucket now = \<lparr>tokens = 0, max_tokens = 1000, refill_per_ns = 1 / 1000000, last_refill = now\<rparr>"

lemma two_blocks_a_second:
  "throttle_run now ((0, 1000) # (0, 1000) # calls) (empty_bucket now)
     = throttle_run (now + 1000000000) calls (empty_bucket (now + 1000000000))"
  by (simp add: throttle_def consume_def refill_def f64_as_u64_def empty_bucket_def Let_def)

lemma twice_the_rate:
  "throttle_run now (concat (replicate k [(0, 1000), (0, 1000)])) (empty_bucket now)
     = (now + k * 1000000000, empty_bucket (now + k * 1000000000))"
  by (induction k arbitrary: now) (simp_all only: replicate.simps concat.simps append.simps two_blocks_a_second,
      simp_all add: algebra_simps)

end
