(* ===== verification/Server.thy ===== *)
theory Server
  imports Crypto Batcher Bandwidth
begin

text \<open>
  \<^verbatim>\<open>server/usbip-server/src/server.rs\<close>: one client connection from its first header to the
  end of the URB loop. The state a handler works on is the connection, the device manager and
  the export table, which all connections share. The backend \<open>B\<close> and the cipher \<open>R\<close>
  are parameters; \<open>env\<close> holds what the outside decides: the clock reading and the nonce of
  each loop round, the nonce of the last flush and the entropy of the key exchange. Setting the no-delay option is assumed to
  succeed. Connections are first modelled one at a time and then, at the end, interleaved.
\<close>

type_synonym exports = "string \<rightharpoonup> SocketAddr \<times> UsbIpDeviceEntry"

record ServerConfig =
  bind_address :: string
  port :: u16
  allowed_vid_pid :: "(u16 \<times> u16) list"
  require_confirmation :: bool
  encryption_enabled :: bool
  tcp_nodelay :: bool
  max_bandwidth :: BandwidthLimit
  per_client_bandwidth :: "BandwidthLimit option"

definition ServerConfig_default :: ServerConfig where
  "ServerConfig_default =
     \<lparr>bind_address = ''0.0.0.0'', port = 3240, allowed_vid_pid = [], require_confirmation = True,
      encryption_enabled = False, tcp_nodelay = True, max_bandwidth = bw_unlimited,
      per_client_bandwidth = None\<rparr>"

record 'e server_env =
  env_clock :: "nat \<Rightarrow> nat"
  env_nonce :: "nat \<Rightarrow> bytes option"
  env_last_nonce :: "bytes option"
  env_entropy :: 'e

record 'b conn =
  c_tcp :: tcp
  c_usb :: "'b UsbDeviceManager"
  c_exports :: exports

section \<open>The URB loop\<close>

text \<open>
  What the loop makes of a frame: leave the loop, skip it, or execute a submission with its data.
\<close>

datatype urb_frame = UrbBreak | UrbSkip | UrbSubmit UsbIpCmdSubmit bytes

definition decode_urb :: "bytes \<Rightarrow> urb_frame" where
  "decode_urb frame =
     (if length frame < UsbIpHeader_SIZE then UrbBreak
      else case UsbIpHeader_read_from_prefix (take UsbIpHeader_SIZE frame) of
        None \<Rightarrow> UrbBreak
      | Some (header, _) \<Rightarrow>
        if command header = USBIP_CMD_SUBMIT then
          (let header_payload = drop UsbIpHeader_SIZE frame in
           if length header_payload < UsbIpCmdSubmit_HEADER_SIZE then UrbBreak
           else case UsbIpCmdSubmit_read_from_prefix (take UsbIpCmdSubmit_HEADER_SIZE header_payload) of
             None \<Rightarrow> UrbBreak
           | Some (cmd, _) \<Rightarrow>
             (let data_len = unat (cmd_data_len cmd); data_start = UsbIpCmdSubmit_HEADER_SIZE in
              if \<not> cmd_is_in cmd \<and> data_len > 0 then
                (if length header_payload < data_start + data_len then UrbBreak
                 else UrbSubmit cmd (take data_len (drop data_start header_payload)))
              else UrbSubmit cmd []))
        else UrbSkip)"

function urb_loop ::
  "('e, 'priv, 'key) ring \<Rightarrow> 'b UsbBackend \<Rightarrow> 'e server_env \<Rightarrow> 'key Wire \<Rightarrow> string \<Rightarrow> nat
   \<Rightarrow> UrbBatcher \<Rightarrow> tcp \<Rightarrow> 'b UsbDeviceManager
   \<Rightarrow> ErrorKind option \<times> UrbBatcher \<times> tcp \<times> 'b UsbDeviceManager" where
  "urb_loop R B env w bid i b t m =
     (case Wire_read_message R w t of
        (Inl _, t1) \<Rightarrow> (None, b, t1, m)
      | (Inr frame, t1) \<Rightarrow>
        (case decode_urb frame of
           UrbBreak \<Rightarrow> (None, b, t1, m)
         | UrbSkip \<Rightarrow> urb_loop R B env w bid (Suc i) b t1 m
         | UrbSubmit cmd data \<Rightarrow>
           (let (r, m1) = submit_urb B m bid cmd data in
            case batch_reply (env_clock env i) cmd r b of
              (None, b1) \<Rightarrow> urb_loop R B env w bid (Suc i) b1 t1 m1
            | (Some batch, b1) \<Rightarrow>
              (case Wire_write_message R (env_nonce env i) w batch t1 of
                 (Inl e, t2) \<Rightarrow> (Some e, b1, t2, m1)
               | (Inr _, t2) \<Rightarrow> urb_loop R B env w bid (Suc i) b1 t2 m1))))"
  by pat_completeness auto
termination
  by (relation "measure (\<lambda>(_, _, _, _, _, _, _, t, _). length (rx t))")
    (auto dest!: Wire_read_shrinks [OF sym] Wire_write_rx [OF sym])

declare urb_loop.simps [simp del]

definition handle_urb_loop ::
  "('e, 'priv, 'key) ring \<Rightarrow> 'b UsbBackend \<Rightarrow> 'e server_env \<Rightarrow> 'key Wire \<Rightarrow> string
   \<Rightarrow> 'b conn \<Rightarrow> unit UsbIpResult \<times> 'b conn" where
  "handle_urb_loop R B env w bid c =
     (case urb_loop R B env w bid 0 UrbBatcher_new (c_tcp c) (c_usb c) of
        (Some e, _, t, m) \<Rightarrow> (Inl e, c\<lparr>c_tcp := t, c_usb := m\<rparr>)
      | (None, b, t, m) \<Rightarrow>
        (let t' = (if batch_is_empty b then t
                   else snd (Wire_write_message R (env_last_nonce env) w (fst (batch_flush b)) t)) in
         case release_device B m bid of
           (Inl e, m') \<Rightarrow> (Inl e, c\<lparr>c_tcp := t', c_usb := m'\<rparr>)
         | (Inr _, m') \<Rightarrow>
           (Inr (), c\<lparr>c_tcp := t', c_usb := m', c_exports := (c_exports c)(bid := None)\<rparr>)))"

section \<open>Import and device list\<close>

text \<open>A step on the connection's stream that may fail, inside a handler.\<close>

definition on_tcp :: "'a stream_op \<Rightarrow> 'b conn \<Rightarrow> 'a UsbIpResult \<times> 'b conn" where
  "on_tcp f c = (let (r, t) = f (c_tcp c) in (r, c\<lparr>c_tcp := t\<rparr>))"

definition conn_bind ::
  "('b conn \<Rightarrow> 'x UsbIpResult \<times> 'b conn) \<Rightarrow> ('x \<Rightarrow> 'b conn \<Rightarrow> 'y UsbIpResult \<times> 'b conn)
   \<Rightarrow> 'b conn \<Rightarrow> 'y UsbIpResult \<times> 'b conn" where
  "conn_bind f g c = (case f c of (Inl e, c') \<Rightarrow> (Inl e, c') | (Inr a, c') \<Rightarrow> g a c')"

text \<open>The critical section on the export table: \<open>True\<close> when the device was free and is now
  reserved for this client.\<close>

definition reserve_export ::
  "string \<Rightarrow> SocketAddr \<Rightarrow> UsbIpDeviceEntry \<Rightarrow> exports \<Rightarrow> bool \<times> exports" where
  "reserve_export bid addr entry ex =
     (case ex bid of Some _ \<Rightarrow> (False, ex) | None \<Rightarrow> (True, ex(bid \<mapsto> (addr, entry))))"

definition requested_busid :: "bytes \<Rightarrow> string" where
  "requested_busid busid_buf = from_utf8_lossy (until_nul busid_buf)"

definition install_wire ::
  "('e, 'priv, 'key) ring \<Rightarrow> 'e server_env \<Rightarrow> bool \<Rightarrow> 'key Wire stream_op" where
  "install_wire R env encrypted =
     (if encrypted then wire_encrypted R (env_entropy env) else wire_plain)"

text \<open>The rest of the import once the device was found: reserve it, claim it, reply and enter the
  URB loop. Every error after the reservation leaves the reservation in place.\<close>

definition export_device ::
  "('e, 'priv, 'key) ring \<Rightarrow> 'b UsbBackend \<Rightarrow> 'e server_env \<Rightarrow> bool \<Rightarrow> SocketAddr \<Rightarrow> string
   \<Rightarrow> UsbIpDeviceEntry \<Rightarrow> 'b conn \<Rightarrow> unit UsbIpResult \<times> 'b conn" where
  "export_device R B env encrypted peer_addr bid entry c =
     (case reserve_export bid peer_addr entry (c_exports c) of
        (False, _) \<Rightarrow>
          on_tcp (write_all (UsbIpHeader_as_bytes (UsbIpHeader_with_status OP_REP_IMPORT STATUS_ST_DEV_BUSY))) c
      | (True, ex) \<Rightarrow>
        (case claim_device B (c_usb c) bid of
           (Inl e, m) \<Rightarrow> (Inl e, c\<lparr>c_exports := ex, c_usb := m\<rparr>)
         | (Inr _, m) \<Rightarrow>
           (case get_descriptor_tree B m bid of
              Inl e \<Rightarrow> (Inl e, c\<lparr>c_exports := ex, c_usb := m\<rparr>)
            | Inr descriptors \<Rightarrow>
              conn_bind (on_tcp (write_all (UsbIpHeader_as_bytes (UsbIpHeader_new OP_REP_IMPORT)
                  @ UsbIpDeviceEntry_as_bytes entry @ descriptors))) (\<lambda>_.
              conn_bind (on_tcp (install_wire R env encrypted)) (\<lambda>w.
              handle_urb_loop R B env w bid))
                (c\<lparr>c_exports := ex, c_usb := m\<rparr>))))"

definition handle_import ::
  "('e, 'priv, 'key) ring \<Rightarrow> 'b UsbBackend \<Rightarrow> 'e server_env \<Rightarrow> bool \<Rightarrow> SocketAddr
   \<Rightarrow> 'b conn \<Rightarrow> unit UsbIpResult \<times> 'b conn" where
  "handle_import R B env encrypted peer_addr =
     conn_bind (on_tcp (read_exact 32)) (\<lambda>busid_buf c.
     (let bid = requested_busid busid_buf in
      case get_device_entry B (c_usb c) bid of
        None \<Rightarrow>
          on_tcp (write_all (UsbIpHeader_as_bytes (UsbIpHeader_with_status OP_REP_IMPORT STATUS_ST_NODEV))) c
      | Some entry \<Rightarrow> export_device R B env encrypted peer_addr bid entry c))"

definition devlist_reply :: "UsbIpDeviceEntry list \<Rightarrow> bytes" where
  "devlist_reply devices =
     UsbIpHeader_as_bytes (UsbIpHeader_new OP_REP_DEVLIST)
     @ u32_to_be_bytes (of_nat (length devices))
     @ concat (map UsbIpDeviceEntry_as_bytes devices)"

definition handle_devlist :: "'b UsbBackend \<Rightarrow> 'b conn \<Rightarrow> unit UsbIpResult \<times> 'b conn" where
  "handle_devlist B c = on_tcp (write_all (devlist_reply (list_devices B (c_usb c)))) c"

definition handle_client ::
  "('e, 'priv, 'key) ring \<Rightarrow> 'b UsbBackend \<Rightarrow> 'e server_env \<Rightarrow> ServerConfig \<Rightarrow> SocketAddr
   \<Rightarrow> 'b conn \<Rightarrow> unit UsbIpResult \<times> 'b conn" where
  "handle_client R B env config peer_addr =
     conn_bind (on_tcp (read_exact 8)) (\<lambda>header_buf c.
     case UsbIpHeader_read_from_prefix header_buf of
       None \<Rightarrow> (Inl (Protocol ''invalid header''), c)
     | Some (header, _) \<Rightarrow>
       if command header = OP_REQ_DEVLIST then handle_devlist B c
       else if command header = OP_REQ_IMPORT then
         handle_import R B env (encryption_enabled config) peer_addr c
       else (Inr (), c))"


section \<open>Import on each branch\<close>

lemmas conn_eval = conn_bind_def on_tcp_def Let_def

lemma requested_busid_copied:
  assumes "length bid \<le> 31" "CHR 0x00 \<notin> set bid" "utf8_valid (as_bytes bid)"
  shows "requested_busid (copy_padded 32 31 bid) = bid"
  using assms by (simp add: requested_busid_def until_nul_copy_padded)

lemma handle_import_nodev:
  assumes "rx (c_tcp c) = busid_buf @ r" "length busid_buf = 32" "tx_ok (c_tcp c) = None"
    and "get_device_entry B (c_usb c) (requested_busid busid_buf) = None"
  shows "handle_import R B env enc addr c = (Inr (), c\<lparr>c_tcp := (c_tcp c)\<lparr>rx := r,
    tx := tx (c_tcp c) @ UsbIpHeader_as_bytes (UsbIpHeader_with_status OP_REP_IMPORT STATUS_ST_NODEV)\<rparr>\<rparr>)"
  using assms read_exact_front [OF assms(1,2)]
  by (simp add: handle_import_def conn_eval write_all_def)

lemma handle_import_busy:
  assumes "rx (c_tcp c) = busid_buf @ r" "length busid_buf = 32" "tx_ok (c_tcp c) = None"
    and "get_device_entry B (c_usb c) (requested_busid busid_buf) = Some entry"
    and "c_exports c (requested_busid busid_buf) \<noteq> None"
  shows "handle_import R B env enc addr c = (Inr (), c\<lparr>c_tcp := (c_tcp c)\<lparr>rx := r,
    tx := tx (c_tcp c) @ UsbIpHeader_as_bytes (UsbIpHeader_with_status OP_REP_IMPORT STATUS_ST_DEV_BUSY)\<rparr>\<rparr>)"
  using assms read_exact_front [OF assms(1,2)]
  by (auto simp: handle_import_def export_device_def conn_eval write_all_def reserve_export_def)

lemma handle_import_granted:
  assumes "rx (c_tcp c) = busid_buf @ r" "length busid_buf = 32" "tx_ok (c_tcp c) = None"
    and bid: "bid = requested_busid busid_buf"
    and "get_device_entry B (c_usb c) bid = Some entry" "c_exports c bid = None"
    and "claim_device B (c_usb c) bid = (Inr (), m)" "get_descriptor_tree B m bid = Inr tree"
  shows "handle_import R B env False addr c =
    handle_urb_loop R B env Plain bid
      (c\<lparr>c_exports := (c_exports c)(bid \<mapsto> (addr, entry)), c_usb := m,
         c_tcp := (c_tcp c)\<lparr>rx := r, tx := tx (c_tcp c) @ UsbIpHeader_as_bytes (UsbIpHeader_new OP_REP_IMPORT)
           @ UsbIpDeviceEntry_as_bytes entry @ tree\<rparr>\<rparr>)"
  using assms read_exact_front [OF assms(1,2)]
  by (simp add: handle_import_def export_device_def conn_eval write_all_def reserve_export_def install_wire_def
      wire_plain_def stream_ret_def)

section \<open>The URB loop on a stream of submissions\<close>

type_synonym submission = "UsbIpCmdSubmit \<times> bytes \<times> bytes"

definition sub_frame :: "submission \<Rightarrow> bytes" where
  "sub_frame x = (case x of (cmd, pad, data) \<Rightarrow> cmd_frame cmd pad data)"

definition sub_ok :: "submission \<Rightarrow> bool" where
  "sub_ok x = (case x of (cmd, pad, data) \<Rightarrow> cmd_wf cmd \<and> length pad = 4 \<and> cmd_data_ok cmd data)"

text \<open>The submissions executed one after another: the reply events and the device manager after.\<close>

fun urb_events ::
  "'b UsbBackend \<Rightarrow> (nat \<Rightarrow> nat) \<Rightarrow> string \<Rightarrow> nat \<Rightarrow> 'b UsbDeviceManager \<Rightarrow> submission list
   \<Rightarrow> urb_event list" where
  "urb_events B clk bid i m [] = []"
| "urb_events B clk bid i m ((cmd, pad, data) # xs) =
     (let (r, m1) = submit_urb B m bid cmd data
      in (clk i, cmd, r) # urb_events B clk bid (Suc i) m1 xs)"

fun urb_after :: "'b UsbBackend \<Rightarrow> string \<Rightarrow> 'b UsbDeviceManager \<Rightarrow> submission list \<Rightarrow> 'b UsbDeviceManager" where
  "urb_after B bid m [] = m"
| "urb_after B bid m ((cmd, pad, data) # xs) = urb_after B bid (snd (submit_urb B m bid cmd data)) xs"

lemma decode_urb_frame:
  assumes "cmd_wf cmd" "length pad = 4" "cmd_data_ok cmd data"
  shows "decode_urb (cmd_frame cmd pad data) = UrbSubmit cmd data"
proof -
  have h: "UsbIpHeader_read_from_prefix (UsbIpHeader_as_bytes (UsbIpHeader_new USBIP_CMD_SUBMIT))
      = Some (UsbIpHeader_new USBIP_CMD_SUBMIT, [])" by simp
  have "data = []" if "cmd_is_in cmd \<or> unat (cmd_data_len cmd) = 0"
    using that assms(3) by (auto simp: cmd_data_ok_def split: if_splits)
  then show ?thesis
    using assms h
    by (auto simp: decode_urb_def cmd_frame_def wire_size_defs Let_def cmd_data_ok_def)
qed

lemma read_empty: "rx t = [] \<Longrightarrow> read_message t = (Inl (Io (rx_end t)), t)"
  by (simp add: read_message_def stream_bind_def read_exact_short UsbIpHeader_SIZE_def)

lemma urb_loop_plain:
  assumes "list_all sub_ok xs" "tx_ok t = None" "rx t = concat (map sub_frame xs)"
    and "evs = urb_events B (env_clock env) bid i m xs"
  shows "urb_loop R B env Plain bid i b t m =
    (None, snd (run_batch evs b), t\<lparr>rx := [], tx := tx t @ concat (fst (run_batch evs b))\<rparr>,
     urb_after B bid m xs)"
  using assms
proof (induction xs arbitrary: i b t m evs)
  case Nil
  have "t\<lparr>rx := [], tx := tx t @ []\<rparr> = t" using Nil by simp
  then show ?case
    using Nil read_empty [of t]
    by (subst urb_loop.simps) (simp add: Wire_read_message_def)
next
  case (Cons x xs)
  obtain cmd pad data where x: "x = (cmd, pad, data)" by (cases x) auto
  let ?t1 = "t\<lparr>rx := concat (map sub_frame xs)\<rparr>"
  obtain r m1 where r: "submit_urb B m bid cmd data = (r, m1)" by force
  obtain w b1 where w: "batch_reply (env_clock env i) cmd r b = (w, b1)" by force
  let ?evs = "urb_events B (env_clock env) bid (Suc i) m1 xs"
  let ?t2 = "case w of None \<Rightarrow> ?t1 | Some d \<Rightarrow> ?t1\<lparr>tx := tx t @ d\<rparr>"
  have wf: "cmd_wf cmd" "length pad = 4" "cmd_data_ok cmd data"
    using Cons.prems(1) x by (simp_all add: sub_ok_def)
  have "rx t = cmd_frame cmd pad data @ concat (map sub_frame xs)"
    using Cons.prems(3) by (simp add: x sub_frame_def [of "(cmd, pad, data)"])
  then have "t = t\<lparr>rx := cmd_frame cmd pad data @ concat (map sub_frame xs)\<rparr>"
    by (metis tcp.surjective tcp.update_convs(1))
  then have read: "read_message t = (Inr (cmd_frame cmd pad data), ?t1)"
    using read_message_cmd [OF wf, where t = t and r = "concat (map sub_frame xs)"] by simp
  have step: "urb_loop R B env Plain bid i b t m = urb_loop R B env Plain bid (Suc i) b1 ?t2 m1"
    using Cons.prems(2) read r w decode_urb_frame [OF wf]
    by (subst urb_loop.simps)
      (simp add: Wire_read_message_def Wire_write_message_def write_message_def write_all_def
        split: option.splits)
  have "urb_loop R B env Plain bid (Suc i) b1 ?t2 m1 =
    (None, snd (run_batch ?evs b1), ?t2\<lparr>rx := [], tx := tx ?t2 @ concat (fst (run_batch ?evs b1))\<rparr>,
     urb_after B bid m1 xs)"
    by (rule Cons.IH) (use Cons.prems in \<open>auto split: option.splits\<close>)
  moreover have "evs = (env_clock env i, cmd, r) # ?evs" using Cons.prems(4) x r by simp
  ultimately show ?case
    using step w r x by (auto simp: case_prod_beta split: option.splits)
qed

lemma run_batch_inv: "batch_inv b \<Longrightarrow> batch_inv (snd (run_batch evs b))"
proof (induction evs b rule: run_batch.induct)
  case (2 now cmd r evs b)
  obtain w b' where w: "batch_reply now cmd r b = (w, b')" by force
  then show ?case
    using 2 batch_reply_inv [OF 2(2) w] by (simp add: case_prod_beta)
qed simp

lemma handle_urb_loop_plain:
  assumes "list_all sub_ok xs" "tx_ok (c_tcp c) = None" "rx (c_tcp c) = concat (map sub_frame xs)"
    and "evs = urb_events B (env_clock env) bid 0 (c_usb c) xs"
    and "release_device B (urb_after B bid (c_usb c) xs) bid = (Inr (), m')"
  shows "handle_urb_loop R B env Plain bid c = (Inr (), c\<lparr>
    c_tcp := (c_tcp c)\<lparr>rx := [], tx := tx (c_tcp c) @ concat (accepted_frames evs UrbBatcher_new)\<rparr>,
    c_usb := m', c_exports := (c_exports c)(bid := None)\<rparr>)"
proof -
  let ?run = "run_batch evs UrbBatcher_new"
  let ?t = "(c_tcp c)\<lparr>rx := [], tx := tx (c_tcp c) @ concat (fst ?run)\<rparr>"
  have loop: "urb_loop R B env Plain bid 0 UrbBatcher_new (c_tcp c) (c_usb c)
      = (None, snd ?run, ?t, urb_after B bid (c_usb c) xs)"
    by (rule urb_loop_plain [OF assms(1-4)])
  have str: "concat (fst ?run) @ bt_buffer (snd ?run) = concat (accepted_frames evs UrbBatcher_new)"
    using run_batch_stream [of evs UrbBatcher_new] by (simp add: UrbBatcher_new_def)
  have "batch_inv (snd ?run)" by (rule run_batch_inv [OF batch_inv_new])
  then have "bt_buffer (snd ?run) = []" if "batch_is_empty (snd ?run)"
    using that by (simp add: batch_inv_def batch_is_empty_def)
  then show ?thesis
    using loop str assms(2,5)
    by (auto simp: handle_urb_loop_def Wire_write_message_def write_message_def write_all_def
        batch_flush_def)
qed


section \<open>Properties of a connection\<close>

text \<open>The URB loop over the plain transport: when the client sends well-formed submissions with
  consecutive sequence numbers (the replies of each batch of eight within one batch timeout of its
  first, with at most 8 KiB each) and closes, the server executes them in order on the device, writes exactly one reply per
  submission in the same order, releases the device and frees the export.\<close>

theorem urb_session_replies:
  assumes "list_all sub_ok xs" "tx_ok (c_tcp c) = None" "rx (c_tcp c) = concat (map sub_frame xs)"
    and "evs = urb_events B (env_clock env) bid 0 (c_usb c) xs"
    and "consecutive s evs" "paced 0 0 evs"
    and "release_device B (urb_after B bid (c_usb c) xs) bid = (Inr (), m')"
  shows "handle_urb_loop R B env Plain bid c = (Inr (), c\<lparr>
    c_tcp := (c_tcp c)\<lparr>rx := [], tx := tx (c_tcp c) @ concat (map (\<lambda>(now, cmd, r). reply_frame cmd r) evs)\<rparr>,
    c_usb := m', c_exports := (c_exports c)(bid := None)\<rparr>)"
  using handle_urb_loop_plain [OF assms(1-4,7)] paced_run [OF paced_state_new assms(5,6)] by simp

definition sample_env :: "u8 server_env" where
  "sample_env = \<lparr>env_clock = (\<lambda>i. i), env_nonce = (\<lambda>_. None), env_last_nonce = None, env_entropy = 0\<rparr>"

definition sample_entry :: UsbIpDeviceEntry where
  "sample_entry = make_test_entry ''1-1'' 0x046d 0xc077"

definition sample_mgr :: "UsbIpDeviceEntry list UsbDeviceManager" where
  "sample_mgr = \<lparr>um_backend = [sample_entry], um_handles = [''1-1'' \<mapsto> True]\<rparr>"

theorem urb_session_replies_witness:
  "\<exists>c c'. rx (c_tcp c) = concat (map sub_frame [(sample_cmd, replicate 4 0, []),
        (sample_cmd\<lparr>cmd_seqnum := 2\<rparr>, replicate 4 0, [])])
     \<and> handle_urb_loop toy_ring FakeBackend sample_env Plain ''1-1'' c = (Inr (), c')
     \<and> length (tx (c_tcp c')) = 104 \<and> c_exports c' ''1-1'' = None"
proof -
  let ?c2 = "sample_cmd\<lparr>cmd_seqnum := 2\<rparr>"
  let ?xs = "[(sample_cmd, replicate 4 0, []), (?c2, replicate 4 0, [])]"
  let ?c = "\<lparr>c_tcp = sample_tcp (concat (map sub_frame ?xs)), c_usb = sample_mgr,
    c_exports = [''1-1'' \<mapsto> (''peer'', sample_entry)]\<rparr>"
  let ?evs = "[(0, sample_cmd, sample_result), (1, ?c2, sample_result)] :: urb_event list"
  have sub: "submit_urb FakeBackend sample_mgr ''1-1'' cmd d = (sample_result, sample_mgr)" for cmd d
    by (simp add: submit_urb_def execute_urb_def sample_mgr_def FakeBackend_def fake_execute_urb_def
        sample_result_def)
  have ok: "list_all sub_ok ?xs"
    by (simp add: sub_ok_def sample_cmd_def cmd_wf_def cmd_data_ok_def cmd_is_in_def URB_DIR_IN_def)
  have len: "length (reply_frame sample_cmd sample_result) = 52"
    "length (reply_frame ?c2 sample_result) = 52"
    using length_sample_reply [of 1] length_sample_reply [of 2] by (simp_all add: sample_cmd_def)
  have calm: "consecutive 1 ?evs" "paced 0 0 ?evs"
    using len by (simp_all add: sample_cmd_def DEFAULT_BATCH_TIMEOUT_def DEFAULT_BATCH_SIZE_def)
  have rel: "release_device FakeBackend (urb_after FakeBackend ''1-1'' (c_usb ?c) ?xs) ''1-1''
      = (Inr (), sample_mgr\<lparr>um_handles := Map.empty\<rparr>)"
    using sub by (simp add: release_device_def FakeBackend_def) (simp add: sample_mgr_def)
  have "handle_urb_loop toy_ring FakeBackend sample_env Plain ''1-1'' ?c = (Inr (), ?c\<lparr>
    c_tcp := (c_tcp ?c)\<lparr>rx := [], tx := tx (c_tcp ?c) @ concat (map (\<lambda>(now, cmd, r). reply_frame cmd r) ?evs)\<rparr>,
    c_usb := sample_mgr\<lparr>um_handles := Map.empty\<rparr>, c_exports := (c_exports ?c)(''1-1'' := None)\<rparr>)"
    by (rule urb_session_replies [OF ok _ _ _ calm rel]) (simp_all add: sample_tcp_def sub sample_env_def)
  then show ?thesis
    by (intro exI [of _ ?c] exI conjI) (auto simp: sample_tcp_def len)
qed

text \<open>C27: An import request for an unknown device is answered with status 4 (no such device), one
  for a device that is already exported with status 2 (busy); neither changes the export table
  or the device manager, and the connection then ends.\<close>

theorem import_refused:
  assumes "rx (c_tcp c) = busid_buf @ r" "length busid_buf = 32" "tx_ok (c_tcp c) = None"
    and "get_device_entry B (c_usb c) (requested_busid busid_buf) = None
      \<or> c_exports c (requested_busid busid_buf) \<noteq> None"
  shows "\<exists>t st. handle_import R B env enc addr c = (Inr (), c\<lparr>c_tcp := t\<rparr>)
    \<and> tx t = tx (c_tcp c) @ UsbIpHeader_as_bytes (UsbIpHeader_with_status OP_REP_IMPORT st)
    \<and> st = (if get_device_entry B (c_usb c) (requested_busid busid_buf) = None then 4 else 2)"
proof (cases "get_device_entry B (c_usb c) (requested_busid busid_buf)")
  case None
  show ?thesis
    by (intro exI conjI, rule handle_import_nodev [OF assms(1-3) None])
      (simp_all add: None STATUS_ST_NODEV_def)
next
  case (Some entry)
  then have busy: "c_exports c (requested_busid busid_buf) \<noteq> None" using assms(4) by simp
  show ?thesis
    by (intro exI conjI, rule handle_import_busy [OF assms(1-3) Some busy])
      (simp_all add: Some STATUS_ST_DEV_BUSY_def)
qed

theorem import_refused_witness:
  "\<exists>t st. handle_import toy_ring FakeBackend sample_env False ''peer''
      \<lparr>c_tcp = sample_tcp (replicate 32 0 @ []), c_usb = sample_mgr, c_exports = Map.empty\<rparr>
      = (Inr (), \<lparr>c_tcp = sample_tcp (replicate 32 0 @ []), c_usb = sample_mgr, c_exports = Map.empty\<rparr>\<lparr>c_tcp := t\<rparr>)
    \<and> tx t = [] @ UsbIpHeader_as_bytes (UsbIpHeader_with_status OP_REP_IMPORT st) \<and> st = 4"
proof -
  let ?c = "\<lparr>c_tcp = sample_tcp (replicate 32 0 @ []), c_usb = sample_mgr, c_exports = Map.empty\<rparr>"
  have "until_nul (replicate 32 0) = []" by (simp add: until_nul_def)
  then have "requested_busid (replicate 32 0) = []"
    by (simp add: requested_busid_def from_utf8_lossy_def utf8_lossy.simps str_of_bytes_def)
  then have none: "get_device_entry FakeBackend (c_usb ?c) (requested_busid (replicate 32 0)) = None"
    by (simp add: get_device_entry_def find_entry_def parse_busid_def)
  have "rx (c_tcp ?c) = replicate 32 0 @ []" "length (replicate 32 0 :: bytes) = 32" "tx_ok (c_tcp ?c) = None"
    by (simp_all add: sample_tcp_def)
  from import_refused [OF this disjI1 [OF none], where R = toy_ring and env = sample_env and enc = False
      and addr = "''peer''"] none
  show ?thesis by (simp add: sample_tcp_def)
qed

text \<open>A connection is handled the same whatever the allowlist of devices, the confirmation
  setting and the bandwidth limits are: the device list and the import of the wire protocol look
  at no part of the configuration but the encryption switch.\<close>

theorem handle_client_config:
  assumes "encryption_enabled cfg = encryption_enabled cfg'"
  shows "handle_client R B env cfg addr = handle_client R B env cfg' addr"
  unfolding handle_client_def assms by (rule refl)

theorem handle_client_config_witness:
  "handle_client toy_ring FakeBackend sample_env (ServerConfig_default\<lparr>allowed_vid_pid := [(1, 2)]\<rparr>) ''p''
    = handle_client toy_ring FakeBackend sample_env ServerConfig_default ''p''"
  by (rule handle_client_config) simp

end
