(* ===== verification/Sessions.thy ===== *)
theory Sessions
  imports Server
begin

text \<open>
  Concurrent connections of \<^verbatim>\<open>server.rs\<close>. Each accepted connection runs
  \<^verbatim>\<open>handle_client\<close> in its own task; tasks interleave at the locks of the export table and of
  the device manager. A state holds what they share and the phase of every connection that asked
  for a device; a step is one critical section of \<^verbatim>\<open>handle_import\<close> or
  \<^verbatim>\<open>handle_urb_loop\<close>; the release of the device and the removal of its export are
  two. A device is looked up by the numbers of its bus id and exported under its text, so the
  exclusion is stated for bus ids in the plain form. With \<open>api\<close> the REST handler \<^verbatim>\<open>post_disconnect\<close>
  (\<^verbatim>\<open>api.rs\<close>), which removes an entry of the same table, may step too.
\<close>

datatype phase =
    Found string UsbIpDeviceEntry
  | Reserved string
  | Claimed string
  | Active string
  | Released string
  | Finished

record 'b srv =
  sv_usb :: "'b UsbDeviceManager"
  sv_exports :: exports
  sv_conns :: "nat \<rightharpoonup> phase"

inductive srv_step :: "'b UsbBackend \<Rightarrow> bool \<Rightarrow> 'b srv \<Rightarrow> 'b srv \<Rightarrow> bool"
  for B :: "'b UsbBackend" and api :: bool where
  s_lookup: "sv_conns s k = None \<Longrightarrow> get_device_entry B (sv_usb s) bid = Some e \<Longrightarrow>
     srv_step B api s (s\<lparr>sv_conns := (sv_conns s)(k \<mapsto> Found bid e)\<rparr>)"
| s_nodev: "sv_conns s k = None \<Longrightarrow> get_device_entry B (sv_usb s) bid = None \<Longrightarrow>
     srv_step B api s (s\<lparr>sv_conns := (sv_conns s)(k \<mapsto> Finished)\<rparr>)"
| s_busy: "sv_conns s k = Some (Found bid e) \<Longrightarrow>
     reserve_export bid addr e (sv_exports s) = (False, ex) \<Longrightarrow>
     srv_step B api s (s\<lparr>sv_conns := (sv_conns s)(k \<mapsto> Finished)\<rparr>)"
| s_reserve: "sv_conns s k = Some (Found bid e) \<Longrightarrow>
     reserve_export bid addr e (sv_exports s) = (True, ex) \<Longrightarrow>
     srv_step B api s (s\<lparr>sv_exports := ex, sv_conns := (sv_conns s)(k \<mapsto> Reserved bid)\<rparr>)"
| s_claim: "sv_conns s k = Some (Reserved bid) \<Longrightarrow> claim_device B (sv_usb s) bid = (Inr (), m) \<Longrightarrow>
     srv_step B api s (s\<lparr>sv_usb := m, sv_conns := (sv_conns s)(k \<mapsto> Claimed bid)\<rparr>)"
| s_claim_fails: "sv_conns s k = Some (Reserved bid) \<Longrightarrow> claim_device B (sv_usb s) bid = (Inl err, m) \<Longrightarrow>
     srv_step B api s (s\<lparr>sv_usb := m, sv_conns := (sv_conns s)(k \<mapsto> Finished)\<rparr>)"
| s_reply: "sv_conns s k = Some (Claimed bid) \<Longrightarrow> get_descriptor_tree B (sv_usb s) bid = Inr tree \<Longrightarrow>
     srv_step B api s (s\<lparr>sv_conns := (sv_conns s)(k \<mapsto> Active bid)\<rparr>)"
| s_reply_fails: "sv_conns s k = Some (Claimed bid) \<Longrightarrow>
     srv_step B api s (s\<lparr>sv_conns := (sv_conns s)(k \<mapsto> Finished)\<rparr>)"
| s_urb: "sv_conns s k = Some (Active bid) \<Longrightarrow> submit_urb B (sv_usb s) bid cmd data = (r, m) \<Longrightarrow>
     srv_step B api s (s\<lparr>sv_usb := m\<rparr>)"
| s_write_fails: "sv_conns s k = Some (Active bid) \<Longrightarrow>
     srv_step B api s (s\<lparr>sv_conns := (sv_conns s)(k \<mapsto> Finished)\<rparr>)"
| s_release: "sv_conns s k = Some (Active bid) \<Longrightarrow> release_device B (sv_usb s) bid = (Inr (), m) \<Longrightarrow>
     srv_step B api s (s\<lparr>sv_usb := m, sv_conns := (sv_conns s)(k \<mapsto> Released bid)\<rparr>)"
| s_remove: "sv_conns s k = Some (Released bid) \<Longrightarrow>
     srv_step B api s (s\<lparr>sv_exports := (sv_exports s)(bid := None), sv_conns := (sv_conns s)(k \<mapsto> Finished)\<rparr>)"
| s_release_fails: "sv_conns s k = Some (Active bid) \<Longrightarrow> release_device B (sv_usb s) bid = (Inl err, m) \<Longrightarrow>
     srv_step B api s (s\<lparr>sv_usb := m, sv_conns := (sv_conns s)(k \<mapsto> Finished)\<rparr>)"
| s_api_disconnect: "api \<Longrightarrow> srv_step B api s (s\<lparr>sv_exports := (sv_exports s)(bid := None)\<rparr>)"

inductive_cases srv_stepE: "srv_step B api s s'"

text \<open>The bus id a connection holds, as its client wrote it: from the reservation to the removal of the
  entry or the end of the connection.\<close>

fun phase_dev :: "phase \<Rightarrow> string option" where
  "phase_dev (Found bid e) = None"
| "phase_dev (Reserved bid) = Some bid"
| "phase_dev (Claimed bid) = Some bid"
| "phase_dev (Active bid) = Some bid"
| "phase_dev (Released bid) = Some bid"
| "phase_dev Finished = None"

definition holds :: "'b srv \<Rightarrow> nat \<Rightarrow> string \<Rightarrow> bool" where
  "holds s k bid \<longleftrightarrow> (case sv_conns s k of None \<Rightarrow> False | Some p \<Rightarrow> phase_dev p = Some bid)"

definition srv_init :: "'b UsbDeviceManager \<Rightarrow> 'b srv" where
  "srv_init m = \<lparr>sv_usb = m, sv_exports = Map.empty, sv_conns = Map.empty\<rparr>"

section \<open>Mutual exclusion\<close>

definition exclusive :: "'b srv \<Rightarrow> bool" where
  "exclusive s \<longleftrightarrow>
     (\<forall>k k' bid. holds s k bid \<longrightarrow> holds s k' bid \<longrightarrow> k = k')
     \<and> (\<forall>k bid. holds s k bid \<longrightarrow> sv_exports s bid \<noteq> None)"

lemma exclusive_init: "exclusive (srv_init m)"
  by (simp add: exclusive_def holds_def srv_init_def)

lemma holds_cong: "sv_conns s' k = sv_conns s k \<Longrightarrow> holds s' k bid = holds s k bid"
  by (simp add: holds_def)

lemma holds_unique: "holds s k bid \<Longrightarrow> holds s k bid' \<Longrightarrow> bid = bid'"
  by (auto simp: holds_def split: option.splits)

lemma reserve_True:
  "reserve_export bid addr e ex = (True, ex') \<longleftrightarrow> ex bid = None \<and> ex' = ex(bid \<mapsto> (addr, e))"
  by (auto simp: reserve_export_def split: option.splits)

lemma exclusive_exports: "exclusive s \<Longrightarrow> holds s k bid \<Longrightarrow> sv_exports s bid \<noteq> None"
  unfolding exclusive_def by blast

lemma exclusive_holder: "exclusive s \<Longrightarrow> holds s k bid \<Longrightarrow> holds s j bid \<Longrightarrow> k = j"
  unfolding exclusive_def by blast

text \<open>A step of connection \<open>k\<close> that changes its phase to \<open>p\<close>, where it keeps its
  device or gives it up.\<close>

lemma exclusive_phase:
  assumes ex: "exclusive s" and conns: "sv_conns s' = (sv_conns s)(k \<mapsto> p)"
    and dev: "\<And>bid. phase_dev p = Some bid \<Longrightarrow> holds s k bid"
    and exports: "\<And>j bid. j \<noteq> k \<or> phase_dev p = Some bid \<Longrightarrow> holds s j bid \<Longrightarrow> sv_exports s' bid \<noteq> None"
  shows "exclusive s'"
proof -
  have *: "holds s j bid \<and> (j \<noteq> k \<or> phase_dev p = Some bid)" if "holds s' j bid" for j bid
    using that dev conns by (cases "j = k") (auto simp: holds_def)
  have "j = j'" if "holds s' j bid" "holds s' j' bid" for j j' bid
    using * [OF that(1)] * [OF that(2)] exclusive_holder [OF ex] by blast
  moreover have "sv_exports s' bid \<noteq> None" if "holds s' j bid" for j bid
    using * [OF that] exports by blast
  ultimately show ?thesis unfolding exclusive_def by blast
qed

lemma exclusive_keep:
  assumes "exclusive s" "sv_conns s' = (sv_conns s)(k \<mapsto> p)" "sv_exports s' = sv_exports s"
    and "\<And>bid. phase_dev p = Some bid \<Longrightarrow> holds s k bid"
  shows "exclusive s'"
  by (rule exclusive_phase [OF assms(1,2)]) (use assms(3,4) exclusive_exports [OF assms(1)] in simp_all)

lemma exclusive_reserve:
  assumes ex: "exclusive s" and conns: "sv_conns s' = (sv_conns s)(k \<mapsto> Reserved bid)"
    and free: "sv_exports s bid = None" and exports: "sv_exports s' = (sv_exports s)(bid \<mapsto> x)"
  shows "exclusive s'"
proof -
  have new: "holds s' k b \<longleftrightarrow> b = bid" for b using conns by (auto simp: holds_def)
  have old: "holds s' j b = holds s j b" if "j \<noteq> k" for j b
    by (rule holds_cong) (use conns that in simp)
  have nobody: "\<not> holds s j bid" for j using exclusive_exports [OF ex] free by blast
  have "j = j'" if "holds s' j b" "holds s' j' b" for j j' b
  proof (cases "b = bid")
    case True
    then show ?thesis using that old nobody by metis
  next
    case False
    then have "j \<noteq> k" "j' \<noteq> k" using that new by blast+
    then show ?thesis using that old exclusive_holder [OF ex] by blast
  qed
  moreover have "sv_exports s' b \<noteq> None" if "holds s' j b" for j b
  proof (cases "j = k")
    case True
    then show ?thesis using that new exports by simp
  next
    case False
    then have "sv_exports s b \<noteq> None" using that old exclusive_exports [OF ex] by blast
    then show ?thesis using exports by simp
  qed
  ultimately show ?thesis unfolding exclusive_def by blast
qed

lemma exclusive_step:
  assumes "srv_step B False s s'" and ex: "exclusive s"
  shows "exclusive s'"
  using assms(1)
proof cases
  case (s_reserve k bid e addr ex)
  then show ?thesis
    by (intro exclusive_reserve [OF assms(2), of s' k bid "(addr, e)"]) (simp_all add: reserve_True)
next
  case (s_remove k bid)
  have held: "holds s k bid" using s_remove by (simp add: holds_def)
  show ?thesis
  proof (rule exclusive_phase [OF ex])
    show "sv_conns s' = (sv_conns s)(k \<mapsto> Finished)" using s_remove by simp
    fix j b
    assume "j \<noteq> k \<or> phase_dev Finished = Some b" and j: "holds s j b"
    then have "b \<noteq> bid" using exclusive_holder [OF ex held] by auto
    then have "sv_exports s' b = sv_exports s b" using s_remove by simp
    then show "sv_exports s' b \<noteq> None" using exclusive_exports [OF ex j] by simp
  qed simp
next
  case (s_urb k bid cmd data r m)
  then show ?thesis using ex by (simp add: exclusive_def holds_def)
qed (auto intro: exclusive_keep [OF ex] simp: holds_def)

lemma exclusive_reachable:
  assumes "(srv_step B False)\<^sup>*\<^sup>* (srv_init m) s"
  shows "exclusive s"
  using assms
proof (induction rule: rtranclp_induct)
  case base
  show ?case by (rule exclusive_init)
next
  case (step y z)
  then show ?case using exclusive_step by blast
qed


section \<open>The handlers run these steps\<close>

definition srv_of :: "'b conn \<Rightarrow> (nat \<rightharpoonup> phase) \<Rightarrow> 'b srv" where
  "srv_of c cs = \<lparr>sv_usb = c_usb c, sv_exports = c_exports c, sv_conns = cs\<rparr>"

lemma urb_loop_steps:
  assumes "urb_loop R B env w bid i b t m = (res, b', t', m')" "cs k = Some (Active bid)"
  shows "(srv_step B api)\<^sup>*\<^sup>* \<lparr>sv_usb = m, sv_exports = ex, sv_conns = cs\<rparr>
    \<lparr>sv_usb = m', sv_exports = ex, sv_conns = cs\<rparr>"
  using assms
proof (induction R B env w bid i b t m rule: urb_loop.induct)
  case (1 R B env w bid i b t m)
  have one: "srv_step B api \<lparr>sv_usb = m, sv_exports = ex, sv_conns = cs\<rparr>
      \<lparr>sv_usb = m1, sv_exports = ex, sv_conns = cs\<rparr>" if "submit_urb B m bid cmd data = (r, m1)" for cmd data r m1
    using s_urb [of "\<lparr>sv_usb = m, sv_exports = ex, sv_conns = cs\<rparr>" k bid B cmd data r m1 api] that 1(5) by simp
  show ?case
  proof (cases "Wire_read_message R w t")
    case rd: (Pair a t1)
    show ?thesis
    proof (cases a)
      case (Inl e)
      then show ?thesis using 1(4) rd by (simp add: urb_loop.simps [of R B env w bid i b t m])
    next
      case (Inr frame)
      show ?thesis
      proof (cases "decode_urb frame")
        case UrbBreak
        then show ?thesis using 1(4) rd Inr by (simp add: urb_loop.simps [of R B env w bid i b t m])
      next
        case UrbSkip
        then have "urb_loop R B env w bid (Suc i) b t1 m = (res, b', t', m')"
          using 1(4) rd Inr by (simp add: urb_loop.simps [of R B env w bid i b t m])
        then show ?thesis using 1(1) [OF rd [symmetric] Inr UrbSkip] 1(5) by blast
      next
        case (UrbSubmit cmd data)
        obtain r m1 where sub: "submit_urb B m bid cmd data = (r, m1)" by force
        obtain wr b1 where br: "batch_reply (env_clock env i) cmd r b = (wr, b1)" by force
        note eqn = urb_loop.simps [of R B env w bid i b t m]
        show ?thesis
        proof (cases wr)
          case None
          have "urb_loop R B env w bid (Suc i) b1 t1 m1 = (res, b', t', m')"
            using 1(4) rd Inr UrbSubmit sub br None by (simp add: eqn)
          then show ?thesis
            using 1(2) [OF rd [symmetric] Inr UrbSubmit sub [symmetric] refl br [symmetric] None] 1(5)
              one [OF sub] by (meson converse_rtranclp_into_rtranclp)
        next
          case (Some batch)
          obtain x t2 where wm: "Wire_write_message R (env_nonce env i) w batch t1 = (x, t2)" by force
          show ?thesis
          proof (cases x)
            case (Inl e)
            then have "m' = m1" using 1(4) rd Inr UrbSubmit sub br Some wm \<open>a = Inr frame\<close> by (simp add: eqn)
            then show ?thesis using one [OF sub] by blast
          next
            case (Inr u)
            have "urb_loop R B env w bid (Suc i) b1 t2 m1 = (res, b', t', m')"
              using 1(4) rd \<open>a = Inr frame\<close> UrbSubmit sub br Some wm Inr by (simp add: eqn)
            then show ?thesis
              using 1(3) [OF rd [symmetric] \<open>a = Inr frame\<close> UrbSubmit sub [symmetric] refl br [symmetric]
                  Some wm [symmetric] Inr] 1(5) one [OF sub] by (meson converse_rtranclp_into_rtranclp)
          qed
        qed
      qed
    qed
  qed
qed


lemma srv_of_simps [simp]:
  "sv_usb (srv_of c cs) = c_usb c" "sv_exports (srv_of c cs) = c_exports c" "sv_conns (srv_of c cs) = cs"
  "srv_of (c\<lparr>c_tcp := t\<rparr>) cs = srv_of c cs"
  by (simp_all add: srv_of_def)

lemma handle_urb_loop_steps:
  assumes run: "handle_urb_loop R B env w bid c = (r, c')" and k: "cs k = Some (Active bid)"
  shows "(srv_step B api)\<^sup>*\<^sup>* (srv_of c cs) (srv_of c' (cs(k \<mapsto> Finished)))"
proof -
  obtain res b t m where loop: "urb_loop R B env w bid 0 UrbBatcher_new (c_tcp c) (c_usb c) = (res, b, t, m)"
    by (metis prod_cases4)
  let ?s = "\<lparr>sv_usb = m, sv_exports = c_exports c, sv_conns = cs\<rparr>"
  have steps: "(srv_step B api)\<^sup>*\<^sup>* (srv_of c cs) ?s"
    using urb_loop_steps [where cs = cs and k = k, OF loop k] by (simp add: srv_of_def)
  obtain x m' where rel: "release_device B m bid = (x, m')" by force
  have "(srv_step B api)\<^sup>*\<^sup>* ?s (srv_of c' (cs(k \<mapsto> Finished)))"
  proof (cases res)
    case (Some e)
    then have "srv_of c' (cs(k \<mapsto> Finished)) = ?s\<lparr>sv_conns := (sv_conns ?s)(k \<mapsto> Finished)\<rparr>"
      using run loop by (auto simp: handle_urb_loop_def srv_of_def)
    then show ?thesis using s_write_fails [of ?s k bid B api] k by auto
  next
    case None
    show ?thesis
    proof (cases x)
      case (Inl e)
      then have "srv_of c' (cs(k \<mapsto> Finished)) = ?s\<lparr>sv_usb := m', sv_conns := (sv_conns ?s)(k \<mapsto> Finished)\<rparr>"
        using run loop None rel by (auto simp: handle_urb_loop_def srv_of_def Let_def)
      then show ?thesis using s_release_fails [of ?s k bid B e m' api] k rel Inl by auto
    next
      case (Inr u)
      let ?s1 = "?s\<lparr>sv_usb := m', sv_conns := (sv_conns ?s)(k \<mapsto> Released bid)\<rparr>"
      have "srv_step B api ?s ?s1" using s_release [of ?s k bid B m' api] k rel Inr by simp
      moreover have "srv_step B api ?s1 (?s1\<lparr>sv_exports := (sv_exports ?s1)(bid := None),
          sv_conns := (sv_conns ?s1)(k \<mapsto> Finished)\<rparr>)"
        by (rule s_remove) simp
      moreover have "?s1\<lparr>sv_exports := (sv_exports ?s1)(bid := None), sv_conns := (sv_conns ?s1)(k \<mapsto> Finished)\<rparr>
          = srv_of c' (cs(k \<mapsto> Finished))"
        using run loop None rel Inr by (auto simp: handle_urb_loop_def srv_of_def Let_def)
      ultimately show ?thesis by (metis converse_rtranclp_into_rtranclp r_into_rtranclp)
    qed
  qed
  with steps show ?thesis by simp
qed

lemma handle_reply_steps:
  assumes "conn_bind (on_tcp f) (\<lambda>_. conn_bind (on_tcp g) (\<lambda>w. handle_urb_loop R B env w bid)) c = (r, c')"
    and k: "cs k = Some (Claimed bid)" and tree: "get_descriptor_tree B (c_usb c) bid = Inr tree"
  shows "(srv_step B api)\<^sup>*\<^sup>* (srv_of c cs) (srv_of c' (cs(k \<mapsto> Finished)))"
proof -
  have fails: "srv_step B api (srv_of c cs) (srv_of c (cs(k \<mapsto> Finished)))"
    using s_reply_fails [of "srv_of c cs" k bid B api] k by (simp add: srv_of_def)
  have active: "srv_step B api (srv_of c cs) (srv_of c (cs(k \<mapsto> Active bid)))"
    using s_reply [of "srv_of c cs" k bid B tree api] k tree by (simp add: srv_of_def)
  obtain x t1 where f: "f (c_tcp c) = (x, t1)" by force
  obtain y t2 where g: "g t1 = (y, t2)" by force
  consider (fail) t where "c' = c\<lparr>c_tcp := t\<rparr>"
    | (loop) w t where "handle_urb_loop R B env w bid (c\<lparr>c_tcp := t\<rparr>) = (r, c')"
    using assms(1) f g by (cases x; cases y) (auto simp: conn_eval)
  then show ?thesis
  proof cases
    case fail
    then show ?thesis using fails by auto
  next
    case (loop w t)
    have "(srv_step B api)\<^sup>*\<^sup>* (srv_of (c\<lparr>c_tcp := t\<rparr>) (cs(k \<mapsto> Active bid)))
        (srv_of c' ((cs(k \<mapsto> Active bid))(k \<mapsto> Finished)))"
      by (rule handle_urb_loop_steps [OF loop]) simp
    then show ?thesis using active by (simp add: converse_rtranclp_into_rtranclp)
  qed
qed

text \<open>From a found device to the end of the connection.\<close>

lemma export_device_steps:
  assumes run: "export_device R B env enc addr bid e c = (r, c')"
  shows "(srv_step B api)\<^sup>*\<^sup>* (srv_of c (cs(k \<mapsto> Found bid e))) (srv_of c' (cs(k \<mapsto> Finished)))"
proof -
  let ?s1 = "srv_of c (cs(k \<mapsto> Found bid e))"
  obtain ok ex where res: "reserve_export bid addr e (c_exports c) = (ok, ex)" by force
  show ?thesis
  proof (cases ok)
    case False
    then have "srv_of c' cs' = srv_of c cs'" for cs'
      using run res by (auto simp: export_device_def on_tcp_def split: prod.splits)
    then show ?thesis
      using s_busy [of ?s1 k bid e addr ex B api] res False by (auto simp: srv_of_def)
  next
    case True
    let ?c1 = "c\<lparr>c_exports := ex\<rparr>"
    have s2: "srv_step B api ?s1 (srv_of ?c1 (cs(k \<mapsto> Reserved bid)))"
      using s_reserve [of ?s1 k bid e addr ex B api] res True by (simp add: srv_of_def)
    obtain x m where cl: "claim_device B (c_usb c) bid = (x, m)" by force
    let ?c2 = "?c1\<lparr>c_usb := m\<rparr>"
    have "(srv_step B api)\<^sup>*\<^sup>* (srv_of ?c1 (cs(k \<mapsto> Reserved bid))) (srv_of c' (cs(k \<mapsto> Finished)))"
    proof (cases x)
      case (Inl err)
      then have "c' = ?c2" using run res True cl by (simp add: export_device_def)
      then show ?thesis
        using s_claim_fails [of "srv_of ?c1 (cs(k \<mapsto> Reserved bid))" k bid B err m api] cl Inl
        by (auto simp: srv_of_def)
    next
      case (Inr u)
      have s3: "srv_step B api (srv_of ?c1 (cs(k \<mapsto> Reserved bid))) (srv_of ?c2 (cs(k \<mapsto> Claimed bid)))"
        using s_claim [of "srv_of ?c1 (cs(k \<mapsto> Reserved bid))" k bid B m api] cl Inr by (simp add: srv_of_def)
      have "(srv_step B api)\<^sup>*\<^sup>* (srv_of ?c2 (cs(k \<mapsto> Claimed bid)))
          (srv_of c' ((cs(k \<mapsto> Claimed bid))(k \<mapsto> Finished)))"
      proof (cases "get_descriptor_tree B m bid")
        case (Inl err)
        then have "c' = ?c2" using run res True cl Inr by (simp add: export_device_def)
        then show ?thesis
          using s_reply_fails [of "srv_of ?c2 (cs(k \<mapsto> Claimed bid))" k bid B api] by (auto simp: srv_of_def)
      next
        case tree: (Inr tree)
        show ?thesis
          using run res True cl Inr tree
          by (intro handle_reply_steps [where tree = tree]) (auto simp: export_device_def)
      qed
      then show ?thesis using s3 by (simp add: converse_rtranclp_into_rtranclp)
    qed
    then show ?thesis using s2 by (meson converse_rtranclp_into_rtranclp)
  qed
qed

lemma handle_import_steps:
  assumes run: "handle_import R B env enc addr c = (r, c')" and k: "cs k = None"
  shows "\<exists>cs'. (cs' = cs \<or> cs' = cs(k \<mapsto> Finished)) \<and> (srv_step B api)\<^sup>*\<^sup>* (srv_of c cs) (srv_of c' cs')"
proof -
  obtain x t1 where rd: "read_exact 32 (c_tcp c) = (x, t1)" by force
  show ?thesis
  proof (cases x)
    case (Inl e)
    then show ?thesis using run rd by (auto simp: handle_import_def conn_eval)
  next
    case (Inr buf)
    let ?c = "c\<lparr>c_tcp := t1\<rparr>" and ?bid = "requested_busid buf"
    show ?thesis
    proof (cases "get_device_entry B (c_usb c) ?bid")
      case None
      then have "srv_of c' cs' = srv_of c cs'" for cs'
        using run rd Inr by (auto simp: handle_import_def conn_eval split: prod.splits)
      moreover have "srv_step B api (srv_of c cs) (srv_of c (cs(k \<mapsto> Finished)))"
        using s_nodev [of "srv_of c cs" k B ?bid api] k None by (simp add: srv_of_def)
      ultimately show ?thesis by auto
    next
      case (Some e)
      let ?cs1 = "cs(k \<mapsto> Found ?bid e)"
      have found: "srv_step B api (srv_of c cs) (srv_of c ?cs1)"
        using s_lookup [of "srv_of c cs" k B ?bid e api] k Some by (simp add: srv_of_def)
      have "(srv_step B api)\<^sup>*\<^sup>* (srv_of ?c ?cs1) (srv_of c' (cs(k \<mapsto> Finished)))"
        using run rd Inr Some
        by (intro export_device_steps [where addr = addr]) (auto simp: handle_import_def conn_eval)
      then have "(srv_step B api)\<^sup>*\<^sup>* (srv_of c ?cs1) (srv_of c' (cs(k \<mapsto> Finished)))" by simp
      with found have "(srv_step B api)\<^sup>*\<^sup>* (srv_of c cs) (srv_of c' (cs(k \<mapsto> Finished)))"
        by (rule converse_rtranclp_into_rtranclp)
      then show ?thesis by blast
    qed
  qed
qed


section \<open>Exports that nobody holds\<close>

definition leaked :: "'b srv \<Rightarrow> string \<Rightarrow> bool" where
  "leaked s bid \<longleftrightarrow> sv_exports s bid \<noteq> None \<and> (\<forall>k. \<not> holds s k bid)"

lemma leaked_step:
  assumes "srv_step B False s s'" "leaked s bid"
  shows "leaked s' bid"
proof -
  have free: "sv_conns s k \<noteq> Some p" if "phase_dev p = Some bid" for k p
  proof
    assume "sv_conns s k = Some p"
    then have "holds s k bid" using that by (simp add: holds_def)
    then show False using assms(2) by (simp add: leaked_def)
  qed
  have ph: "\<not> holds s' j bid" if "sv_conns s' = (sv_conns s)(k \<mapsto> p)" "phase_dev p \<noteq> Some bid" for k p j
    using that assms(2) by (cases "j = k") (auto simp: leaked_def holds_def)
  show ?thesis
    using assms(1)
  proof cases
    case (s_reserve k b e addr ex)
    then have "b \<noteq> bid" using assms(2) by (auto simp: leaked_def reserve_True)
    then show ?thesis using s_reserve ph [of k "Reserved b"] assms(2) by (auto simp: leaked_def reserve_True)
  next
    case (s_release k b m)
    then have "b \<noteq> bid" using free [of "Active b" k] by auto
    then show ?thesis using s_release ph [of k "Released b"] assms(2) by (auto simp: leaked_def)
  next
    case (s_remove k b)
    then have "b \<noteq> bid" using free [of "Released b" k] by auto
    then show ?thesis using s_remove ph [of k Finished] assms(2) by (auto simp: leaked_def)
  next
    case (s_claim k b m)
    then have "b \<noteq> bid" using free [of "Reserved b" k] by auto
    then show ?thesis using s_claim ph [of k "Claimed b"] assms(2) by (auto simp: leaked_def)
  next
    case (s_reply k b tree)
    then have "b \<noteq> bid" using free [of "Claimed b" k] by auto
    then show ?thesis using s_reply ph [of k "Active b"] assms(2) by (auto simp: leaked_def)
  next
    case (s_urb k b cmd data r m)
    then show ?thesis using assms(2) by (simp add: leaked_def holds_def)
  next
    case (s_lookup k b e)
    then show ?thesis using ph [of k "Found b e"] assms(2) by (auto simp: leaked_def)
  qed (use ph [where p = Finished] assms(2) in \<open>auto simp: leaked_def\<close>)
qed

lemma leaked_forever: "(srv_step B False)\<^sup>*\<^sup>* s s' \<Longrightarrow> leaked s bid \<Longrightarrow> leaked s' bid"
  by (induction rule: rtranclp_induct) (auto intro: leaked_step)

text \<open>The steps that end a connection before it released its device.\<close>

lemma failing_step_leaks:
  assumes ex: "exclusive s" and step: "srv_step B False s s1" and held: "holds s k bid"
    and end_phase: "sv_conns s k \<noteq> Some (Released bid)" "sv_conns s1 k = Some Finished"
  shows "leaked s1 bid"
proof -
  have alone: "\<not> holds s1 j bid" if c: "sv_conns s1 = (sv_conns s)(k \<mapsto> Finished)" for j
  proof (cases "j = k")
    case False
    then have "holds s1 j bid = holds s j bid" by (intro holds_cong) (simp add: c)
    then show ?thesis using exclusive_holder [OF ex held, of j] False by blast
  qed (simp add: holds_def c)
  have exported: "sv_exports s bid \<noteq> None" by (rule exclusive_exports [OF ex held])
  obtain p where p: "sv_conns s k = Some p" "phase_dev p = Some bid" "p \<noteq> Released bid"
    using held end_phase(1) by (auto simp: holds_def split: option.splits)
  then have nf: "p \<noteq> Finished" by auto
  have "sv_conns s1 = (sv_conns s)(k \<mapsto> Finished) \<and> sv_exports s1 = sv_exports s"
    using step p nf end_phase(2) by cases (auto split: if_splits)
  then show ?thesis using alone exported by (auto simp: leaked_def)
qed

section \<open>Properties of the interleaved connections\<close>

text \<open>A bus id in the form in which the server lists it: the two numbers without further characters.\<close>

definition plain_busid :: "string \<Rightarrow> bool" where
  "plain_busid bid = (case parse_busid bid of Inl _ \<Rightarrow> False | Inr (bn, dn) \<Rightarrow> bid = format_busid bn dn)"

lemma plain_busid_unique: "plain_busid bid \<Longrightarrow> plain_busid bid' \<Longrightarrow> parse_busid bid = parse_busid bid' \<Longrightarrow> bid = bid'"
  by (auto simp: plain_busid_def split: sum.splits)

text \<open>C2: At any moment of any interleaving of connections whose clients name their devices by the bus
  ids the server lists, at most one connection holds a device (two bus ids name the same device
  when they have the same bus and device number), and a further import of it is answered busy. The
  control API does not step here.\<close>

theorem device_mutual_exclusion:
  assumes "(srv_step B False)\<^sup>*\<^sup>* (srv_init m) s" "holds s j bid" "holds s k bid'"
    and "plain_busid bid" "plain_busid bid'" "parse_busid bid = parse_busid bid'"
  shows "j = k \<and> fst (reserve_export bid' addr e (sv_exports s)) = False"
proof -
  have ex: "exclusive s" by (rule exclusive_reachable [OF assms(1)])
  have bid: "bid' = bid" using plain_busid_unique [OF assms(4-6)] by simp
  have "sv_exports s bid \<noteq> None" using exclusive_exports [OF ex assms(2)] .
  then show ?thesis
    using exclusive_holder [OF ex assms(2)] assms(3) bid by (auto simp: reserve_export_def)
qed

text \<open>A run of two connections on the fake backend, for the witnesses.\<close>

definition run_mgr :: "UsbIpDeviceEntry list UsbDeviceManager" where
  "run_mgr = with_backend [sample_entry]"

lemma run_lookup: "get_device_entry FakeBackend run_mgr ''1-1'' = Some sample_entry"
proof -
  have "parse_busid ''1-1'' = Inr (1, 1)"
    by (simp add: parse_busid_def parse_unsigned_def char_digit_def)
  then show ?thesis
    by (simp add: get_device_entry_def find_entry_def list_devices_def FakeBackend_def run_mgr_def
        with_backend_def sample_entry_def make_test_entry_def)
qed

lemma plain_1_1: "plain_busid ''1-1''"
proof -
  have f: "format_busid 1 1 = ''1-1''"
    by (simp add: format_busid_def show_radix.simps digit_char_def char_of_def bit_0)
  then have "parse_busid ''1-1'' = Inr (1, 1)" using parse_busid_format_eq [of 1 1] by simp
  then show ?thesis using f by (simp add: plain_busid_def)
qed

lemma run_reserved:
  assumes "cs k = None" "ex ''1-1'' = None" "get_device_entry FakeBackend m ''1-1'' = Some sample_entry"
  shows "(srv_step FakeBackend api)\<^sup>*\<^sup>* \<lparr>sv_usb = m, sv_exports = ex, sv_conns = cs\<rparr>
    \<lparr>sv_usb = m, sv_exports = ex(''1-1'' \<mapsto> (''peer'', sample_entry)), sv_conns = cs(k \<mapsto> Reserved ''1-1'')\<rparr>"
proof -
  let ?s0 = "\<lparr>sv_usb = m, sv_exports = ex, sv_conns = cs\<rparr>"
  let ?s1 = "\<lparr>sv_usb = m, sv_exports = ex, sv_conns = cs(k \<mapsto> Found ''1-1'' sample_entry)\<rparr>"
  have 1: "srv_step FakeBackend api ?s0 ?s1"
    using s_lookup [of ?s0 k FakeBackend "''1-1''" sample_entry api] assms by simp
  have 2: "srv_step FakeBackend api ?s1 \<lparr>sv_usb = m,
      sv_exports = ex(''1-1'' \<mapsto> (''peer'', sample_entry)), sv_conns = cs(k \<mapsto> Reserved ''1-1'')\<rparr>"
    using s_reserve [of ?s1 k "''1-1''" sample_entry "''peer''" "ex(''1-1'' \<mapsto> (''peer'', sample_entry))"
        FakeBackend api] assms(2) by (simp add: reserve_True)
  show ?thesis using 1 2 by auto
qed

text \<open>The manager after the claim; claiming again leaves it as it is.\<close>

definition claimed_mgr :: "UsbIpDeviceEntry list UsbDeviceManager" where
  "claimed_mgr = run_mgr\<lparr>um_handles := (um_handles run_mgr)(''1-1'' \<mapsto> True)\<rparr>"

lemma claimed_lookup: "get_device_entry FakeBackend claimed_mgr ''1-1'' = Some sample_entry"
  using run_lookup by (simp add: claimed_mgr_def get_device_entry_def list_devices_def)

lemma run_busid: "busid_str sample_entry = ''1-1''"
  by (rule busid_str_copied) (simp_all add: sample_entry_def make_test_entry_def as_bytes_def)

lemma run_claim:
  "claim_device FakeBackend run_mgr ''1-1'' = (Inr (), claimed_mgr)"
  "claim_device FakeBackend claimed_mgr ''1-1'' = (Inr (), claimed_mgr)"
  by (simp_all add: claim_device_def FakeBackend_def claimed_mgr_def run_mgr_def with_backend_def
      fake_claim_device_def run_busid)

lemma run_tree: "\<exists>tree. get_descriptor_tree FakeBackend claimed_mgr ''1-1'' = Inr tree"
  by (simp add: get_descriptor_tree_def FakeBackend_def fake_get_descriptor_tree_def claimed_mgr_def
      run_mgr_def with_backend_def run_busid)

lemma run_claimed_step:
  assumes "cs k = Some (Reserved ''1-1'')" "claim_device FakeBackend m ''1-1'' = (Inr (), claimed_mgr)"
  shows "srv_step FakeBackend api \<lparr>sv_usb = m, sv_exports = ex, sv_conns = cs\<rparr>
    \<lparr>sv_usb = claimed_mgr, sv_exports = ex, sv_conns = cs(k \<mapsto> Claimed ''1-1'')\<rparr>"
  using s_claim [of "\<lparr>sv_usb = m, sv_exports = ex, sv_conns = cs\<rparr>" k "''1-1''" FakeBackend claimed_mgr api] assms by simp

lemma run_claimed:
  assumes "cs k = None" "ex ''1-1'' = None"
  shows "(srv_step FakeBackend api)\<^sup>*\<^sup>* \<lparr>sv_usb = run_mgr, sv_exports = ex, sv_conns = cs\<rparr>
    \<lparr>sv_usb = claimed_mgr, sv_exports = ex(''1-1'' \<mapsto> (''peer'', sample_entry)), sv_conns = cs(k \<mapsto> Claimed ''1-1'')\<rparr>"
  using run_reserved [where cs = cs and k = k and ex = ex and m = run_mgr and api = api] assms run_lookup
    run_claimed_step [of "cs(k \<mapsto> Reserved ''1-1'')" k run_mgr api "ex(''1-1'' \<mapsto> (''peer'', sample_entry))"] run_claim(1)
  by (simp add: rtranclp.rtrancl_into_rtrancl)

lemma run_claimed_again:
  assumes "cs k = None" "ex ''1-1'' = None"
  shows "(srv_step FakeBackend api)\<^sup>*\<^sup>* \<lparr>sv_usb = claimed_mgr, sv_exports = ex, sv_conns = cs\<rparr>
    \<lparr>sv_usb = claimed_mgr, sv_exports = ex(''1-1'' \<mapsto> (''peer'', sample_entry)), sv_conns = cs(k \<mapsto> Claimed ''1-1'')\<rparr>"
  using run_reserved [where cs = cs and k = k and ex = ex and m = claimed_mgr and api = api] assms claimed_lookup
    run_claimed_step [of "cs(k \<mapsto> Reserved ''1-1'')" k claimed_mgr api "ex(''1-1'' \<mapsto> (''peer'', sample_entry))"] run_claim(2)
  by (simp add: rtranclp.rtrancl_into_rtrancl)

theorem device_mutual_exclusion_witness:
  "\<exists>s. (srv_step FakeBackend False)\<^sup>*\<^sup>* (srv_init run_mgr) s \<and> holds s 0 ''1-1''
     \<and> fst (reserve_export ''1-1'' ''other'' sample_entry (sv_exports s)) = False"
proof -
  let ?s = "\<lparr>sv_usb = run_mgr, sv_exports = [''1-1'' \<mapsto> (''peer'', sample_entry)],
    sv_conns = [0 \<mapsto> Reserved ''1-1'']\<rparr>"
  have r: "(srv_step FakeBackend False)\<^sup>*\<^sup>* (srv_init run_mgr) ?s"
    using run_reserved [of Map.empty 0 Map.empty run_mgr False] run_lookup by (simp add: srv_init_def)
  have h: "holds ?s 0 ''1-1''" by (simp add: holds_def)
  from device_mutual_exclusion [OF r h h plain_1_1 plain_1_1 refl] r h show ?thesis by blast
qed

text \<open>C34: A connection that ends while it holds a device and did not release it (the claim fails, the
  descriptors cannot be read, writing the reply, the key exchange or a URB reply fails, or the
  release itself fails) leaves the export behind: whatever other connections do afterwards, the
  entry stays and no connection can ever hold that bus id again.\<close>

theorem failed_session_blocks_device:
  assumes "(srv_step B False)\<^sup>*\<^sup>* (srv_init m) s" "srv_step B False s s1"
    and "sv_conns s k = Some p" "phase_dev p = Some bid" "p \<noteq> Released bid" "sv_conns s1 k = Some Finished"
    and "(srv_step B False)\<^sup>*\<^sup>* s1 s'"
  shows "sv_exports s' bid \<noteq> None \<and> (\<forall>j. \<not> holds s' j bid) \<and> fst (reserve_export bid addr e (sv_exports s')) = False"
proof -
  have ex: "exclusive s" by (rule exclusive_reachable [OF assms(1)])
  have held: "holds s k bid" using assms(3,4) by (simp add: holds_def)
  have "leaked s1 bid" using failing_step_leaks [OF ex assms(2) held] assms(3,5,6) by simp
  then have "leaked s' bid" by (rule leaked_forever [OF assms(7)])
  then show ?thesis by (auto simp: leaked_def reserve_export_def)
qed

theorem failed_session_blocks_device_witness:
  "\<exists>s s1. (srv_step FakeBackend False)\<^sup>*\<^sup>* (srv_init run_mgr) s \<and> srv_step FakeBackend False s s1
     \<and> sv_conns s 0 = Some (Claimed ''1-1'') \<and> sv_conns s1 0 = Some Finished
     \<and> sv_exports s1 ''1-1'' \<noteq> None \<and> (\<forall>j. \<not> holds s1 j ''1-1'')"
proof -
  let ?s = "\<lparr>sv_usb = claimed_mgr, sv_exports = [''1-1'' \<mapsto> (''peer'', sample_entry)],
    sv_conns = [0 \<mapsto> Claimed ''1-1'']\<rparr>"
  let ?s1 = "?s\<lparr>sv_conns := (sv_conns ?s)(0 \<mapsto> Finished)\<rparr>"
  have r: "(srv_step FakeBackend False)\<^sup>*\<^sup>* (srv_init run_mgr) ?s"
    using run_claimed [of Map.empty 0 Map.empty False] by (simp add: srv_init_def)
  have f: "srv_step FakeBackend False ?s ?s1" by (rule s_reply_fails [of ?s 0 "''1-1''"]) simp
  from failed_session_blocks_device [OF r f _ _ _ _ rtranclp.rtrancl_refl, of 0 "Claimed ''1-1''" "''1-1''"] r f
  show ?thesis by (intro exI [of _ ?s] exI [of _ ?s1]) simp
qed

text \<open>C35: With the control API stepping too, exclusion is lost: after \<^verbatim>\<open>POST /api/disconnect\<close>
  removed the entry of a device whose connection is forwarding URBs, a second connection reserves
  and claims the same device while the first still forwards.\<close>

theorem api_disconnect_breaks_exclusion:
  "\<exists>s. (srv_step FakeBackend True)\<^sup>*\<^sup>* (srv_init run_mgr) s
     \<and> sv_conns s 0 = Some (Active ''1-1'') \<and> sv_conns s 1 = Some (Claimed ''1-1'')"
proof -
  let ?ex = "[''1-1'' \<mapsto> (''peer'', sample_entry)]"
  let ?s1 = "\<lparr>sv_usb = claimed_mgr, sv_exports = ?ex, sv_conns = [0 \<mapsto> Claimed ''1-1'']\<rparr>"
  let ?s2 = "\<lparr>sv_usb = claimed_mgr, sv_exports = ?ex, sv_conns = [0 \<mapsto> Active ''1-1'']\<rparr>"
  let ?s3 = "\<lparr>sv_usb = claimed_mgr, sv_exports = Map.empty, sv_conns = [0 \<mapsto> Active ''1-1'']\<rparr>"
  let ?s4 = "\<lparr>sv_usb = claimed_mgr, sv_exports = ?ex, sv_conns = [0 \<mapsto> Active ''1-1'', 1 \<mapsto> Claimed ''1-1'']\<rparr>"
  have 1: "(srv_step FakeBackend True)\<^sup>*\<^sup>* (srv_init run_mgr) ?s1"
    using run_claimed [of Map.empty 0 Map.empty True] by (simp add: srv_init_def)
  have 2: "srv_step FakeBackend True ?s1 ?s2"
    using s_reply [of ?s1 0 "''1-1''" FakeBackend _ True] run_tree by auto
  have "?s2\<lparr>sv_exports := (sv_exports ?s2)(''1-1'' := None)\<rparr> = ?s3" by (simp add: fun_eq_iff)
  then have 3: "srv_step FakeBackend True ?s2 ?s3"
    using s_api_disconnect [of True FakeBackend ?s2 "''1-1''"] by simp
  have 4: "(srv_step FakeBackend True)\<^sup>*\<^sup>* ?s3 ?s4"
    using run_claimed_again [of "[0 \<mapsto> Active ''1-1'']" 1 Map.empty True] by simp
  have "(srv_step FakeBackend True)\<^sup>*\<^sup>* (srv_init run_mgr) ?s4"
    using 1 2 3 4 by (meson rtranclp.rtrancl_into_rtrancl rtranclp_trans)
  then show ?thesis by (intro exI [of _ ?s4]) simp
qed

text \<open>Exclusion is by the text of the bus id: another spelling of the same numbers is another entry, and
  two connections hold one device.\<close>

lemma alias_breaks_exclusion:
  "parse_busid ''01-1'' = parse_busid ''1-1''
   \<and> (\<exists>s. (srv_step FakeBackend False)\<^sup>*\<^sup>* (srv_init run_mgr) s \<and> holds s 0 ''1-1'' \<and> holds s 1 ''01-1'')"
proof
  show eq: "parse_busid ''01-1'' = parse_busid ''1-1''"
    by (simp add: parse_busid_def parse_unsigned_def char_digit_def)
  let ?s1 = "\<lparr>sv_usb = run_mgr, sv_exports = [''1-1'' \<mapsto> (''peer'', sample_entry)], sv_conns = [0 \<mapsto> Reserved ''1-1'']\<rparr>"
  let ?s2 = "?s1\<lparr>sv_conns := (sv_conns ?s1)(1 \<mapsto> Found ''01-1'' sample_entry)\<rparr>"
  have 1: "(srv_step FakeBackend False)\<^sup>*\<^sup>* (srv_init run_mgr) ?s1"
    using run_reserved [of Map.empty 0 Map.empty run_mgr False] run_lookup by (simp add: srv_init_def)
  have 2: "srv_step FakeBackend False ?s1 ?s2"
    by (rule s_lookup) (use run_lookup eq in \<open>simp_all add: get_device_entry_def find_entry_def\<close>)
  have 3: "srv_step FakeBackend False ?s2 (?s2\<lparr>sv_exports := (sv_exports ?s2)(''01-1'' \<mapsto> (''other'', sample_entry)),
      sv_conns := (sv_conns ?s2)(1 \<mapsto> Reserved ''01-1'')\<rparr>)"
    by (rule s_reserve [where e = sample_entry and addr = "''other''"]) (simp_all add: reserve_True)
  have "holds (?s2\<lparr>sv_exports := (sv_exports ?s2)(''01-1'' \<mapsto> (''other'', sample_entry)),
      sv_conns := (sv_conns ?s2)(1 \<mapsto> Reserved ''01-1'')\<rparr>) 0 ''1-1''"
    "holds (?s2\<lparr>sv_exports := (sv_exports ?s2)(''01-1'' \<mapsto> (''other'', sample_entry)),
      sv_conns := (sv_conns ?s2)(1 \<mapsto> Reserved ''01-1'')\<rparr>) 1 ''01-1''"
    by (simp_all add: holds_def)
  moreover have "(srv_step FakeBackend False)\<^sup>*\<^sup>* (srv_init run_mgr)
      (?s2\<lparr>sv_exports := (sv_exports ?s2)(''01-1'' \<mapsto> (''other'', sample_entry)),
      sv_conns := (sv_conns ?s2)(1 \<mapsto> Reserved ''01-1'')\<rparr>)"
    using 1 2 3 by (meson rtranclp.rtrancl_into_rtrancl)
  ultimately show "\<exists>s. (srv_step FakeBackend False)\<^sup>*\<^sup>* (srv_init run_mgr) s \<and> holds s 0 ''1-1'' \<and> holds s 1 ''01-1''"
    by blast
qed

text \<open>C7: Every run of the import handler, to whatever result, is a sequence of the interleaving
  model's steps of one connection: it ends with the connection finished (or not started, when the
  request could not be read) and the shared state the handler returned. So what holds of all
  interleavings holds of the handler.\<close>

theorem handle_import_simulated:
  assumes "handle_import R B env enc addr c = (r, c')" "cs k = None"
  shows "\<exists>cs'. (cs' = cs \<or> cs' = cs(k \<mapsto> Finished)) \<and> (srv_step B api)\<^sup>*\<^sup>* (srv_of c cs) (srv_of c' cs')"
  by (rule handle_import_steps [where cs = cs and k = k, OF assms])

theorem handle_import_simulated_witness:
  "\<exists>r c'. handle_import toy_ring FakeBackend sample_env False ''peer''
      \<lparr>c_tcp = sample_tcp (as_bytes ''1-1'' @ replicate 29 0), c_usb = run_mgr, c_exports = Map.empty\<rparr> = (r, c')
    \<and> (\<exists>cs'. (cs' = Map.empty \<or> cs' = Map.empty(0 \<mapsto> Finished)) \<and>
       (srv_step FakeBackend False)\<^sup>*\<^sup>* (srv_of \<lparr>c_tcp = sample_tcp (as_bytes ''1-1'' @ replicate 29 0),
           c_usb = run_mgr, c_exports = Map.empty\<rparr> Map.empty) (srv_of c' cs'))"
proof -
  let ?c = "\<lparr>c_tcp = sample_tcp (as_bytes ''1-1'' @ replicate 29 0), c_usb = run_mgr, c_exports = Map.empty\<rparr>"
  obtain r c' where run: "handle_import toy_ring FakeBackend sample_env False ''peer'' ?c = (r, c')" by force
  from handle_import_simulated [OF run, of Map.empty 0 False] run show ?thesis by blast
qed

end
