(* ===== verification/Device_Locks.thy ===== *)
theory Device_Locks
  imports Sessions
begin

text \<open>
  What the export table of \<^verbatim>\<open>server.rs\<close> promises, as an abstract specification: one lock per bus id,
  which is the text a client sends, not the device it names. A connection without a bus id may take
  a free one; the holder gives it back when its session ends in order, and otherwise it is
  abandoned, after which no step applies to it. The interleaved connections of \<open>Sessions\<close> refine this
  specification.
\<close>

datatype lock = Free | Held nat | Abandoned

inductive lock_step :: "(string \<Rightarrow> lock) \<Rightarrow> (string \<Rightarrow> lock) \<Rightarrow> bool" where
  l_take: "l bid = Free \<Longrightarrow> (\<And>b. l b \<noteq> Held k) \<Longrightarrow> lock_step l (l(bid := Held k))"
| l_give_back: "l bid = Held k \<Longrightarrow> lock_step l (l(bid := Free))"
| l_abandon: "l bid = Held k \<Longrightarrow> lock_step l (l(bid := Abandoned))"

inductive_cases lock_stepE: "lock_step l l'"

lemma abandoned_forever: "lock_step\<^sup>*\<^sup>* l l' \<Longrightarrow> l bid = Abandoned \<Longrightarrow> l' bid = Abandoned"
  by (induction rule: rtranclp_induct) (auto elim!: lock_stepE)

lemma one_lock_per_holder:
  "lock_step\<^sup>*\<^sup>* l l' \<Longrightarrow> (\<And>b b' k. l b = Held k \<Longrightarrow> l b' = Held k \<Longrightarrow> b = b') \<Longrightarrow>
   l' b = Held k \<Longrightarrow> l' b' = Held k \<Longrightarrow> b = b'"
  by (induction arbitrary: b b' k rule: rtranclp_induct) (auto elim!: lock_stepE split: if_splits)

text \<open>The abstraction: the table tells whether a bus id is free, the phases tell who holds it.\<close>

definition lock_of :: "'b srv \<Rightarrow> string \<Rightarrow> lock" where
  "lock_of s bid =
     (if sv_exports s bid = None then Free
      else if \<exists>k. holds s k bid then Held (THE k. holds s k bid)
      else Abandoned)"

lemma lock_of_iff:
  assumes "exclusive s"
  shows "lock_of s bid = Free \<longleftrightarrow> sv_exports s bid = None"
    "lock_of s bid = Held k \<longleftrightarrow> holds s k bid"
    "lock_of s bid = Abandoned \<longleftrightarrow> leaked s bid"
proof -
  have the: "(THE k. holds s k bid) = j" if "holds s j bid" for j
    using that exclusive_holder [OF assms] by blast
  show "lock_of s bid = Free \<longleftrightarrow> sv_exports s bid = None" by (simp add: lock_of_def)
  show "lock_of s bid = Held k \<longleftrightarrow> holds s k bid"
  proof (cases "holds s k bid")
    case True
    then show ?thesis using the [OF True] exclusive_exports [OF assms True] by (auto simp: lock_of_def)
  next
    case False
    then show ?thesis using the by (auto simp: lock_of_def)
  qed
  show "lock_of s bid = Abandoned \<longleftrightarrow> leaked s bid"
    by (auto simp: lock_of_def leaked_def)
qed

lemma lock_of_eqI:
  assumes "exclusive s" "exclusive s'"
    and "\<And>b. b \<noteq> bid \<Longrightarrow> sv_exports s' b = sv_exports s b"
    and "\<And>b j. b \<noteq> bid \<Longrightarrow> holds s' j b = holds s j b"
    and "lock_of s' bid = v"
  shows "lock_of s' = (lock_of s)(bid := v)"
proof (rule ext)
  show "lock_of s' b = ((lock_of s)(bid := v)) b" for b
    using assms(3-5) by (cases "b = bid") (simp_all add: lock_of_def)
qed

text \<open>A connection changes its phase, keeping the device it has or not having one.\<close>

lemma lock_of_same:
  assumes "sv_conns s' = (sv_conns s)(k \<mapsto> p)" "sv_exports s' = sv_exports s"
    and "\<And>bid. phase_dev p = Some bid \<longleftrightarrow> holds s k bid"
  shows "lock_of s' = lock_of s"
proof -
  have "holds s' j b = holds s j b" for j b
    using assms(1,3) by (cases "j = k") (auto simp: holds_def)
  then show ?thesis using assms(2) by (simp add: lock_of_def fun_eq_iff)
qed

lemma holds_finished:
  assumes "sv_conns s' = (sv_conns s)(k \<mapsto> Finished)" "holds s k bid" "b \<noteq> bid"
  shows "holds s' j b = holds s j b"
  using assms holds_unique [of s k bid b] by (cases "j = k") (auto simp: holds_def)

lemma lock_of_abandon:
  assumes ex: "exclusive s" "exclusive s'" and c: "sv_conns s' = (sv_conns s)(k \<mapsto> Finished)"
    and e: "sv_exports s' = sv_exports s" and h: "holds s k bid"
  shows "lock_step (lock_of s) (lock_of s')"
proof -
  note other = holds_finished [OF c h]
  have "\<not> holds s' j bid" for j
  proof (cases "j = k")
    case False
    then show ?thesis using c exclusive_holder [OF ex(1) h, of j] by (auto simp: holds_def)
  qed (simp add: holds_def c)
  then have "leaked s' bid" using e exclusive_exports [OF ex(1) h] by (simp add: leaked_def)
  then have "lock_of s' bid = Abandoned" by (simp add: lock_of_iff [OF ex(2)])
  then have "lock_of s' = (lock_of s)(bid := Abandoned)"
    using lock_of_eqI [OF ex] e other by simp
  moreover have "lock_of s bid = Held k" using h by (simp add: lock_of_iff [OF ex(1)])
  ultimately show ?thesis using l_abandon by metis
qed

lemma lock_of_release:
  assumes ex: "exclusive s" "exclusive s'" and c: "sv_conns s' = (sv_conns s)(k \<mapsto> Finished)"
    and e: "sv_exports s' = (sv_exports s)(bid := None)" and h: "holds s k bid"
  shows "lock_step (lock_of s) (lock_of s')"
proof -
  note other = holds_finished [OF c h]
  have "lock_of s' = (lock_of s)(bid := Free)"
    by (rule lock_of_eqI [OF ex]) (use e other in \<open>simp_all add: lock_of_def\<close>)
  moreover have "lock_of s bid = Held k" using h by (simp add: lock_of_iff [OF ex(1)])
  ultimately show ?thesis using l_give_back by metis
qed

lemma lock_of_reserve:
  assumes ex: "exclusive s" "exclusive s'" and c: "sv_conns s' = (sv_conns s)(k \<mapsto> Reserved bid)"
    and e: "sv_exports s bid = None" "sv_exports s' = (sv_exports s)(bid \<mapsto> x)"
    and h: "\<And>b. \<not> holds s k b"
  shows "lock_step (lock_of s) (lock_of s')"
proof -
  have "holds s' k bid" using c by (simp add: holds_def)
  moreover have other: "holds s' j b = holds s j b" if "b \<noteq> bid" for j b
    using c h that by (cases "j = k") (auto simp: holds_def)
  ultimately have "lock_of s' = (lock_of s)(bid := Held k)"
    by (intro lock_of_eqI [OF ex]) (simp_all add: e(2) lock_of_iff [OF ex(2)])
  moreover have "lock_of s bid = Free" "\<And>b. lock_of s b \<noteq> Held k"
    using e(1) h by (simp_all add: lock_of_iff [OF ex(1)])
  ultimately show ?thesis using l_take by metis
qed

lemma srv_step_locks:
  assumes step: "srv_step B False s s'" and ex: "exclusive s"
  shows "lock_step\<^sup>=\<^sup>= (lock_of s) (lock_of s')"
proof -
  have ex': "exclusive s'" by (rule exclusive_step [OF step ex])
  show ?thesis
    using step
  proof cases
    case (s_reserve k bid e addr exs)
    then show ?thesis
      using lock_of_reserve [OF ex ex', of k bid "(addr, e)"] by (simp add: reserve_True holds_def)
  next
    case (s_release k bid m)
    then show ?thesis using lock_of_same [of s' s k "Released bid"] by (simp add: holds_def)
  next
    case (s_remove k bid)
    then show ?thesis using lock_of_release [OF ex ex', of k bid] by (simp add: holds_def)
  next
    case (s_claim_fails k bid err m)
    then show ?thesis using lock_of_abandon [OF ex ex', of k bid] by (simp add: holds_def)
  next
    case (s_reply_fails k bid)
    then show ?thesis using lock_of_abandon [OF ex ex', of k bid] by (simp add: holds_def)
  next
    case (s_write_fails k bid)
    then show ?thesis using lock_of_abandon [OF ex ex', of k bid] by (simp add: holds_def)
  next
    case (s_release_fails k bid err m)
    then show ?thesis using lock_of_abandon [OF ex ex', of k bid] by (simp add: holds_def)
  next
    case (s_urb k bid cmd data r m)
    then show ?thesis by (simp add: lock_of_def holds_def fun_eq_iff)
  next
    case (s_lookup k bid e)
    then show ?thesis using lock_of_same [of s' s k "Found bid e"] by (simp add: holds_def)
  next
    case (s_nodev k bid)
    then show ?thesis using lock_of_same [of s' s k Finished] by (simp add: holds_def)
  next
    case (s_busy k bid e addr exs)
    then show ?thesis using lock_of_same [of s' s k Finished] by (simp add: holds_def)
  next
    case (s_claim k bid m)
    then show ?thesis using lock_of_same [of s' s k "Claimed bid"] by (simp add: holds_def)
  next
    case (s_reply k bid tree)
    then show ?thesis using lock_of_same [of s' s k "Active bid"] by (simp add: holds_def)
  qed simp
qed

lemma srv_steps_locks:
  assumes "(srv_step B False)\<^sup>*\<^sup>* s s'" "exclusive s"
  shows "exclusive s' \<and> lock_step\<^sup>*\<^sup>* (lock_of s) (lock_of s')"
  using assms
proof (induction rule: rtranclp_induct)
  case (step y z)
  then have "exclusive z" "lock_step\<^sup>=\<^sup>= (lock_of y) (lock_of z)"
    using exclusive_step srv_step_locks by blast+
  then show ?case using step by (auto intro: rtranclp.rtrancl_into_rtrancl)
qed simp

text \<open>C8: The connections of a server implement one lock per bus id, the text by which clients ask for a
  device (two spellings of the same numbers are two locks). Every interleaving of connections, seen
  through the export table and the phases of the connections, is a run of the lock specification
  from all locks free; the lock of a bus id is held by a connection exactly when that connection is
  between reserving it and removing its entry, and it is abandoned exactly when the table still has
  the entry and no connection holds it.\<close>

theorem sessions_refine_locks:
  assumes "(srv_step B False)\<^sup>*\<^sup>* (srv_init m) s" "(srv_step B False)\<^sup>*\<^sup>* s s'"
  shows "lock_of (srv_init m) = (\<lambda>_. Free)
    \<and> lock_step\<^sup>*\<^sup>* (lock_of (srv_init m)) (lock_of s) \<and> lock_step\<^sup>*\<^sup>* (lock_of s) (lock_of s')
    \<and> (lock_of s bid = Held k \<longleftrightarrow> holds s k bid)
    \<and> (lock_of s bid = Abandoned \<longleftrightarrow> sv_exports s bid \<noteq> None \<and> (\<forall>j. \<not> holds s j bid))"
proof -
  have ex: "exclusive s" by (rule exclusive_reachable [OF assms(1)])
  moreover have "lock_of (srv_init m) = (\<lambda>_. Free)" by (simp add: lock_of_def srv_init_def fun_eq_iff)
  ultimately show ?thesis
    using srv_steps_locks [OF assms(1) exclusive_init] srv_steps_locks [OF assms(2) ex]
    by (simp add: lock_of_iff [OF ex] leaked_def)
qed

theorem sessions_refine_locks_witness:
  "\<exists>s. (srv_step FakeBackend False)\<^sup>*\<^sup>* (srv_init run_mgr) s
     \<and> lock_step\<^sup>*\<^sup>* (\<lambda>_. Free) (lock_of s) \<and> lock_of s ''1-1'' = Held 0"
proof -
  let ?s = "\<lparr>sv_usb = run_mgr, sv_exports = [''1-1'' \<mapsto> (''peer'', sample_entry)],
    sv_conns = [0 \<mapsto> Reserved ''1-1'']\<rparr>"
  have r: "(srv_step FakeBackend False)\<^sup>*\<^sup>* (srv_init run_mgr) ?s"
    using run_reserved [of Map.empty 0 Map.empty run_mgr False] run_lookup by (simp add: srv_init_def)
  have "holds ?s 0 ''1-1''" by (simp add: holds_def)
  with sessions_refine_locks [OF r rtranclp.rtrancl_refl, of "''1-1''" 0] r show ?thesis by metis
qed

end
