(* ===== verification/Vhci.thy ===== *)
theory Vhci
  imports Wire_Codec
begin

text \<open>
  The virtual host controller of the client: \<^verbatim>\<open>client/usbip-client/src/vhci/mod.rs\<close> with the
  trait and the choice of a backend, \<^verbatim>\<open>vhci_linux.rs\<close> over sysfs and \<^verbatim>\<open>vhci_windows.rs\<close>
  over the driver's IOCTL. The trait is a record of operations on a state \<open>'v\<close>. What the
  backends ask of the operating system (files, \<^verbatim>\<open>modprobe\<close>, the IOCTL) is the parameter
  \<open>E\<close>, a record of functions on that state.
\<close>

section \<open>The trait\<close>

record VhciDevice =
  vd_port :: u32
  vd_devid :: u32
  vd_busid :: string
  vd_vid :: u16
  vd_pid :: u16

record 'v VhciBackend =
  vb_create_device :: "'v \<Rightarrow> UsbIpDeviceEntry \<Rightarrow> bytes \<Rightarrow> VhciDevice UsbIpResult \<times> 'v"
  vb_complete_urb :: "'v \<Rightarrow> u32 \<Rightarrow> u32 \<Rightarrow> i32 \<Rightarrow> u32 \<Rightarrow> bytes \<Rightarrow> unit UsbIpResult \<times> 'v"
  vb_cancel_urb :: "'v \<Rightarrow> u32 \<Rightarrow> u32 \<Rightarrow> unit UsbIpResult \<times> 'v"
  vb_remove_device :: "'v \<Rightarrow> u32 \<Rightarrow> unit UsbIpResult \<times> 'v"

text \<open>
  What the client asks of a backend during forwarding, and the promise of a backend that works:
  every request succeeds and adds its record \<open>rec\<close> to what the operating system was given.
\<close>

datatype vhci_event = Completed u32 u32 i32 u32 bytes | Cancelled u32 u32

locale vhci_sink =
  fixes V :: "'v VhciBackend"
    and ok :: "'v \<Rightarrow> bool"
    and log :: "'v \<Rightarrow> 'l list"
    and rec :: "vhci_event \<Rightarrow> 'l list"
  assumes complete_log: "ok v \<Longrightarrow> vb_complete_urb V v s d st n data = (r, v') \<Longrightarrow>
      r = Inr () \<and> ok v' \<and> log v' = log v @ rec (Completed s d st n data)"
    and cancel_log: "ok v \<Longrightarrow> vb_cancel_urb V v s d = (r', v') \<Longrightarrow>
      r' = Inr () \<and> ok v' \<and> log v' = log v @ rec (Cancelled s d)"

section \<open>The operating system\<close>

record 'v os_env =
  os_exists :: "'v \<Rightarrow> string \<Rightarrow> bool"
  os_dir_count :: "'v \<Rightarrow> string \<Rightarrow> nat option"
  os_modprobe :: "'v \<Rightarrow> string \<Rightarrow> bool \<times> 'v"
  os_read_to_string :: "'v \<Rightarrow> string \<Rightarrow> string option"
  os_write :: "'v \<Rightarrow> string \<Rightarrow> bytes \<Rightarrow> (io_error + unit) \<times> 'v"
  win_open :: "'v \<Rightarrow> string \<Rightarrow> bool \<times> 'v"
  win_ioctl :: "'v \<Rightarrow> u32 \<Rightarrow> bytes \<Rightarrow> bool \<times> 'v"

definition fs_write :: "'v os_env \<Rightarrow> string \<Rightarrow> bytes \<Rightarrow> 'v \<Rightarrow> unit UsbIpResult \<times> 'v" where
  "fs_write E path bs v =
     (case os_write E v path bs of (Inl e, v') \<Rightarrow> (Inl (Io e), v') | (Inr _, v') \<Rightarrow> (Inr (), v'))"

text \<open>\<^verbatim>\<open>Path::join\<close> with a relative path.\<close>

definition path_join :: "string \<Rightarrow> string \<Rightarrow> string" where
  "path_join base p = base @ ''/'' @ p"

text \<open>
  \<^verbatim>\<open>str::lines\<close>: a final line feed ends the last line, and a carriage return is dropped only
  in front of a line feed.
\<close>

definition strip_cr :: "string \<Rightarrow> string" where
  "strip_cr l = (if l \<noteq> [] \<and> last l = CHR 0x0D then butlast l else l)"

definition str_lines :: "string \<Rightarrow> string list" where
  "str_lines s =
     (let ls = split_on (CHR 0x0A) s in
      map strip_cr (butlast ls) @ (if last ls = [] then [] else [last ls]))"

section \<open>Linux\<close>

record LinuxVhciBackend =
  sysfs_path :: string
  num_ports :: u32

definition LinuxVhciBackend_new :: "'v os_env \<Rightarrow> 'v \<Rightarrow> LinuxVhciBackend UsbIpResult \<times> 'v" where
  "LinuxVhciBackend_new E v =
     (let vhci_path = ''/sys/devices/platform/vhci_hcd.0'' in
      if os_exists E v vhci_path then
        (Inr \<lparr>sysfs_path = vhci_path,
              num_ports = (case os_dir_count E v (path_join vhci_path ''status'') of
                             Some n \<Rightarrow> of_nat n | None \<Rightarrow> 8)\<rparr>, v)
      else
        (case os_modprobe E v ''vhci-hcd'' of
           (False, v') \<Rightarrow>
             (Inl (NotSupported (''vhci-hcd kernel module not available. Install with: ''
                @ ''sudo modprobe vhci-hcd'')), v')
         | (True, v') \<Rightarrow> (Inr \<lparr>sysfs_path = vhci_path, num_ports = 8\<rparr>, v')))"

definition port_free :: "string \<Rightarrow> bool" where
  "port_free line \<longleftrightarrow> contains_str ''Port'' line \<and> \<not> contains_str ''Attached'' line"

fun first_free_from :: "nat \<Rightarrow> string list \<Rightarrow> u32" where
  "first_free_from i [] = 0"
| "first_free_from i (l # ls) = (if port_free l then of_nat i else first_free_from (Suc i) ls)"

definition first_free_port_in_sysfs :: "'v os_env \<Rightarrow> LinuxVhciBackend \<Rightarrow> 'v \<Rightarrow> u32" where
  "first_free_port_in_sysfs E L v =
     first_free_from 0 (str_lines
       (case os_read_to_string E v (path_join (sysfs_path L) ''status'') of
          None \<Rightarrow> '''' | Some status \<Rightarrow> status))"

definition linux_create_device ::
  "'v os_env \<Rightarrow> LinuxVhciBackend \<Rightarrow> 'v \<Rightarrow> UsbIpDeviceEntry \<Rightarrow> bytes \<Rightarrow> VhciDevice UsbIpResult \<times> 'v" where
  "linux_create_device E L v entry descriptors =
     (let port = first_free_port_in_sysfs E L v;
          devid = port;
          attach_str = show_dec (unat port) @ '' '' @ show_dec (unat devid) @ '' ''
            @ show_dec (unat (speed_val entry)) @ [CHR 0x0A] in
      case fs_write E (path_join (sysfs_path L) ''attach'') (as_bytes attach_str) v of
        (Inl e, v') \<Rightarrow> (Inl e, v')
      | (Inr _, v') \<Rightarrow>
        (Inr \<lparr>vd_port = port, vd_devid = devid, vd_busid = busid_str entry,
              vd_vid = entry_vid entry, vd_pid = entry_pid entry\<rparr>, v'))"

definition urb_complete_bytes :: "u32 \<Rightarrow> i32 \<Rightarrow> u32 \<Rightarrow> bytes \<Rightarrow> bytes" where
  "urb_complete_bytes seqnum status actual_length data =
     u32_to_be_bytes seqnum @ u32_to_be_bytes status @ u32_to_be_bytes actual_length @ data"

definition port_file :: "LinuxVhciBackend \<Rightarrow> u32 \<Rightarrow> string \<Rightarrow> string" where
  "port_file L p file = path_join (sysfs_path L) (''port'' @ show_dec (unat p) @ ''/'' @ file)"

definition linux_complete_urb ::
  "'v os_env \<Rightarrow> LinuxVhciBackend \<Rightarrow> 'v \<Rightarrow> u32 \<Rightarrow> u32 \<Rightarrow> i32 \<Rightarrow> u32 \<Rightarrow> bytes \<Rightarrow> unit UsbIpResult \<times> 'v" where
  "linux_complete_urb E L v seqnum devid status actual_length data =
     fs_write E (port_file L devid ''urb_complete'')
       (urb_complete_bytes seqnum status actual_length data) v"

definition linux_cancel_urb ::
  "'v os_env \<Rightarrow> LinuxVhciBackend \<Rightarrow> 'v \<Rightarrow> u32 \<Rightarrow> u32 \<Rightarrow> unit UsbIpResult \<times> 'v" where
  "linux_cancel_urb E L v seqnum devid =
     (Inr (), snd (fs_write E (port_file L devid ''urb_unlink'') (u32_to_be_bytes seqnum) v))"

definition linux_remove_device ::
  "'v os_env \<Rightarrow> LinuxVhciBackend \<Rightarrow> 'v \<Rightarrow> u32 \<Rightarrow> unit UsbIpResult \<times> 'v" where
  "linux_remove_device E L v port =
     fs_write E (path_join (sysfs_path L) ''detach'') (as_bytes (show_dec (unat port) @ [CHR 0x0A])) v"

definition linux_ops :: "'v os_env \<Rightarrow> LinuxVhciBackend \<Rightarrow> 'v VhciBackend" where
  "linux_ops E L = \<lparr>vb_create_device = linux_create_device E L, vb_complete_urb = linux_complete_urb E L,
     vb_cancel_urb = linux_cancel_urb E L, vb_remove_device = linux_remove_device E L\<rparr>"

section \<open>Windows\<close>

definition IOCTL_USBIP_VHCI_ATTACH :: u32 where "IOCTL_USBIP_VHCI_ATTACH = 0x220004"

definition build_windows_descriptor_block :: "UsbIpDeviceEntry \<Rightarrow> bytes \<Rightarrow> bytes" where
  "build_windows_descriptor_block entry descriptors =
     u32_to_le_bytes (of_nat (length descriptors)) @ descriptors"

definition windows_create_device ::
  "'v os_env \<Rightarrow> 'v \<Rightarrow> UsbIpDeviceEntry \<Rightarrow> bytes \<Rightarrow> VhciDevice UsbIpResult \<times> 'v" where
  "windows_create_device E v entry descriptors =
     (let port = 0; devid = port; desc_block = build_windows_descriptor_block entry descriptors in
      case win_open E v ([CHR 0x5C, CHR 0x5C, CHR ''.'', CHR 0x5C] @ ''USBIP-VHCI'') of
        (False, v1) \<Rightarrow>
          (Inl (NotSupported (''Cannot open '' @ [CHR 0x5C, CHR 0x5C, CHR ''.'', CHR 0x5C]
             @ ''USBIP-VHCI. Is usbip-win2 driver installed?'')), v1)
      | (True, v1) \<Rightarrow>
        (let input = u32_to_le_bytes port @ u32_to_le_bytes devid @ u32_to_le_bytes (speed_val entry)
           @ desc_block in
         case win_ioctl E v1 IOCTL_USBIP_VHCI_ATTACH input of
           (False, v2) \<Rightarrow> (Inl (NotSupported ''VHCI attach IOCTL failed''), v2)
         | (True, v2) \<Rightarrow>
           (Inr \<lparr>vd_port = port, vd_devid = devid, vd_busid = busid_str entry,
                 vd_vid = entry_vid entry, vd_pid = entry_pid entry\<rparr>, v2)))"

definition windows_ops :: "'v os_env \<Rightarrow> 'v VhciBackend" where
  "windows_ops E = \<lparr>vb_create_device = windows_create_device E,
     vb_complete_urb = (\<lambda>v _ _ _ _ _. (Inr (), v)), vb_cancel_urb = (\<lambda>v _ _. (Inr (), v)),
     vb_remove_device = (\<lambda>v _. (Inr (), v))\<rparr>"

section \<open>The choice of a backend\<close>

datatype target_os = OS_Linux | OS_Windows | OS_Other

definition detect_backend :: "target_os \<Rightarrow> 'v os_env \<Rightarrow> 'v \<Rightarrow> 'v VhciBackend UsbIpResult \<times> 'v" where
  "detect_backend os E v =
     (case os of
        OS_Linux \<Rightarrow>
          (case LinuxVhciBackend_new E v of
             (Inl e, v') \<Rightarrow> (Inl e, v') | (Inr inner, v') \<Rightarrow> (Inr (linux_ops E inner), v'))
      | OS_Windows \<Rightarrow> (Inr (windows_ops E), v)
      | OS_Other \<Rightarrow> (Inl (NotSupported ''VHCI is only supported on Linux and Windows''), v))"

section \<open>A file system that accepts every write\<close>

record recording_fs =
  rf_status :: "string option"
  rf_writes :: "(string \<times> bytes) list"

definition recording_os :: "recording_fs os_env" where
  "recording_os = \<lparr>
     os_exists = (\<lambda>_ _. True),
     os_dir_count = (\<lambda>_ _. None),
     os_modprobe = (\<lambda>v _. (True, v)),
     os_read_to_string = (\<lambda>v _. rf_status v),
     os_write = (\<lambda>v path bs. (Inr (), v\<lparr>rf_writes := rf_writes v @ [(path, bs)]\<rparr>)),
     win_open = (\<lambda>v _. (True, v)),
     win_ioctl = (\<lambda>v _ _. (True, v))\<rparr>"

fun linux_record :: "LinuxVhciBackend \<Rightarrow> vhci_event \<Rightarrow> (string \<times> bytes) list" where
  "linux_record L (Completed s d st n data) =
     [(port_file L d ''urb_complete'', urb_complete_bytes s st n data)]"
| "linux_record L (Cancelled s d) = [(port_file L d ''urb_unlink'', u32_to_be_bytes s)]"

text \<open>The writes of the Linux backend are a log of the requests, on every system whose writes are.\<close>

locale logging_os =
  fixes E :: "'v os_env" and ok :: "'v \<Rightarrow> bool" and writes :: "'v \<Rightarrow> (string \<times> bytes) list"
  assumes write_log: "ok v \<Longrightarrow> os_write E v path bs = (r, v') \<Longrightarrow>
    r = Inr () \<and> ok v' \<and> writes v' = writes v @ [(path, bs)]"
begin

lemma fs_write_log:
  "ok v \<Longrightarrow> fs_write E path bs v = (r, v') \<Longrightarrow>
   r = Inr () \<and> ok v' \<and> writes v' = writes v @ [(path, bs)]"
  using write_log [of v path bs "fst (os_write E v path bs)" "snd (os_write E v path bs)"]
  by (simp add: fs_write_def split: prod.splits sum.splits)

lemma linux_sink: "vhci_sink (linux_ops E L) ok writes (linux_record L)"
proof
  show "ok v \<Longrightarrow> vb_complete_urb (linux_ops E L) v s d st n data = (r, v') \<Longrightarrow>
      r = Inr () \<and> ok v' \<and> writes v' = writes v @ linux_record L (Completed s d st n data)"
    for v s d st n data r v'
    by (simp add: linux_ops_def linux_complete_urb_def fs_write_log)
  show "ok v \<Longrightarrow> vb_cancel_urb (linux_ops E L) v s d = (r', v') \<Longrightarrow>
      r' = Inr () \<and> ok v' \<and> writes v' = writes v @ linux_record L (Cancelled s d)" for v s d r' v'
    using fs_write_log [OF _ prod.collapse [symmetric], of v]
    by (auto simp: linux_ops_def linux_cancel_urb_def)
qed

end

interpretation recorded: logging_os recording_os "\<lambda>_. True" rf_writes
  by unfold_locales (auto simp: recording_os_def)

interpretation recorded_linux: vhci_sink "linux_ops recording_os L" "\<lambda>_. True" rf_writes "linux_record L"
  for L
  by (rule recorded.linux_sink)

interpretation windows: vhci_sink "windows_ops E" "\<lambda>_. True" "\<lambda>_. [] :: unit list" "\<lambda>_. []" for E
  by unfold_locales (auto simp: windows_ops_def)

section \<open>Port allocation\<close>

lemma first_free_from_least:
  assumes "j < length ls" "port_free (ls ! j)" "\<And>k. k < j \<Longrightarrow> \<not> port_free (ls ! k)"
  shows "first_free_from i ls = of_nat (i + j)"
  using assms
proof (induction ls arbitrary: i j)
  case (Cons l ls)
  show ?case
  proof (cases j)
    case 0
    then show ?thesis using Cons.prems by simp
  next
    case (Suc j')
    then have "\<not> port_free l" using Cons.prems(3) [of 0] by simp
    moreover have "first_free_from (Suc i) ls = of_nat (Suc i + j')"
      using Cons.prems(1,2) Cons.prems(3) [of "Suc k" for k] Suc by (intro Cons.IH) auto
    ultimately show ?thesis using Suc by simp
  qed
qed simp

lemma first_free_from_none: "\<not> list_ex port_free ls \<Longrightarrow> first_free_from i ls = 0"
  by (induction ls arbitrary: i) auto

text \<open>The port for a device, given the lines of the status file: the number of the first line that
  names a port and is not marked attached, and 0 when there is none.\<close>

definition port_choice :: "string list \<Rightarrow> nat \<Rightarrow> bool" where
  "port_choice lines p \<longleftrightarrow>
     p < length lines \<and> port_free (lines ! p) \<and> (\<forall>k<p. \<not> port_free (lines ! k))
     \<or> \<not> list_ex port_free lines \<and> p = 0"

lemma first_free_choice:
  assumes "length lines < 2 ^ 32"
  shows "port_choice lines (unat (first_free_from 0 lines))"
proof (cases "list_ex port_free lines")
  case True
  define j where "j = (LEAST j. j < length lines \<and> port_free (lines ! j))"
  have ex: "\<exists>j. j < length lines \<and> port_free (lines ! j)" using True by (auto simp: list_ex_length)
  have j: "j < length lines" "port_free (lines ! j)" using LeastI_ex [OF ex] by (auto simp: j_def)
  have least: "\<not> port_free (lines ! k)" if "k < j" for k
    using not_less_Least [of k "\<lambda>j. j < length lines \<and> port_free (lines ! j)"] that j(1) by (auto simp: j_def)
  have "first_free_from 0 lines = of_nat j" using first_free_from_least [OF j] least by simp
  then have "unat (first_free_from 0 lines) = j" using j(1) assms by (simp add: unat_of_nat)
  then show ?thesis using j least by (simp add: port_choice_def)
qed (simp add: port_choice_def first_free_from_none)

text \<open>C31: The Linux backend attaches a device to the first port of the status file that is not marked
  attached: it writes to the attach file one line with exactly that port, the same number as the
  device id, and the speed, and gives the device that port and id; the only error is the one of the
  write. When no line is free, or the status cannot be read, it does the same with port 0.\<close>

theorem linux_port_choice:
  assumes "lines = str_lines (case os_read_to_string E v (path_join (sysfs_path L) ''status'') of None \<Rightarrow> '''' | Some status \<Rightarrow> status)"
    and "length lines < 2 ^ 32"
  shows "\<exists>p. port_choice lines p \<and> linux_create_device E L v entry descriptors =
    (case os_write E v (path_join (sysfs_path L) ''attach'')
        (as_bytes (show_dec p @ '' '' @ show_dec p @ '' '' @ show_dec (unat (speed_val entry)) @ [CHR 0x0A])) of
       (Inl e, v') \<Rightarrow> (Inl (Io e), v')
     | (Inr _, v') \<Rightarrow>
       (Inr \<lparr>vd_port = of_nat p, vd_devid = of_nat p, vd_busid = busid_str entry,
             vd_vid = entry_vid entry, vd_pid = entry_pid entry\<rparr>, v'))"
proof -
  let ?w = "first_free_from 0 lines"
  have "first_free_port_in_sysfs E L v = ?w" using assms(1) by (simp add: first_free_port_in_sysfs_def)
  then have "linux_create_device E L v entry descriptors =
    (case os_write E v (path_join (sysfs_path L) ''attach'')
        (as_bytes (show_dec (unat ?w) @ '' '' @ show_dec (unat ?w) @ '' '' @ show_dec (unat (speed_val entry)) @ [CHR 0x0A])) of
       (Inl e, v') \<Rightarrow> (Inl (Io e), v')
     | (Inr _, v') \<Rightarrow>
       (Inr \<lparr>vd_port = of_nat (unat ?w), vd_devid = of_nat (unat ?w), vd_busid = busid_str entry,
             vd_vid = entry_vid entry, vd_pid = entry_pid entry\<rparr>, v'))"
    by (simp add: linux_create_device_def fs_write_def Let_def split: prod.splits sum.splits)
  then show ?thesis using first_free_choice [OF assms(2)] by blast
qed

definition sample_status :: string where
  "sample_status = ''Port 0: Attached'' @ [CHR 0x0A] @ ''Port 1: Available'' @ [CHR 0x0A]"

definition sample_linux :: LinuxVhciBackend where
  "sample_linux = \<lparr>sysfs_path = ''/sys/devices/platform/vhci_hcd.0'', num_ports = 8\<rparr>"

definition sample_fs :: recording_fs where
  "sample_fs = \<lparr>rf_status = Some sample_status, rf_writes = []\<rparr>"

definition sample_remote :: UsbIpDeviceEntry where
  "sample_remote = \<lparr>dev_path = copy_padded 256 255 ''/sys/bus/usb/devices/1-1'',
     dev_busid = copy_padded 32 31 ''1-1'', busnum = 1, devnum = 1, speed = 3, id_vendor = 0x1234,
     id_product = 0x5678, bcd_device = 0x0100, b_device_class = 0, b_device_sub_class = 0,
     b_device_protocol = 0, b_configuration_value = 1, b_num_configurations = 1,
     b_num_interfaces = 1\<rparr>"

lemma sample_lines:
  "str_lines sample_status = [''Port 0: Attached'', ''Port 1: Available'']"
  by (simp add: sample_status_def str_lines_def strip_cr_def Let_def)

lemma sample_port: "first_free_port_in_sysfs recording_os sample_linux sample_fs = 1"
  by (simp add: first_free_port_in_sysfs_def recording_os_def sample_fs_def sample_lines port_free_def)

theorem linux_port_choice_witness:
  "\<exists>dev v'. linux_create_device recording_os sample_linux sample_fs sample_remote [] = (Inr dev, v')
     \<and> vd_port dev = 1 \<and> vd_devid dev = 1
     \<and> rf_writes v' = [(''/sys/devices/platform/vhci_hcd.0/attach'', as_bytes (''1 1 3'' @ [CHR 0x0A]))]"
proof -
  have lines: "[''Port 0: Attached'', ''Port 1: Available'']
      = str_lines (case os_read_to_string recording_os sample_fs (path_join (sysfs_path sample_linux) ''status'') of
          None \<Rightarrow> '''' | Some status \<Rightarrow> status)"
    by (simp add: recording_os_def sample_fs_def sample_lines)
  have free: "\<not> port_free ''Port 0: Attached''" "port_free ''Port 1: Available''" by (simp_all add: port_free_def)
  have one: "p = Suc 0" if "port_choice [''Port 0: Attached'', ''Port 1: Available''] p" for p
    using that free by (auto simp: port_choice_def less_Suc_eq)
  have dec: "show_dec (Suc 0) = ''1''" "show_dec (unat (speed_val sample_remote)) = ''3''"
    by (simp_all add: show_radix.simps [of 10 "Suc 0"] show_radix.simps [of 10 3] digit_char_def char_of_def bit_0
        sample_remote_def speed_val_def)
  have "length [''Port 0: Attached'', ''Port 1: Available''] < 2 ^ 32" by simp
  from linux_port_choice [OF lines this, of sample_remote "[]"] obtain p where
    "port_choice [''Port 0: Attached'', ''Port 1: Available''] p" and
    create: "linux_create_device recording_os sample_linux sample_fs sample_remote [] =
      (Inr \<lparr>vd_port = of_nat p, vd_devid = of_nat p, vd_busid = busid_str sample_remote,
            vd_vid = entry_vid sample_remote, vd_pid = entry_pid sample_remote\<rparr>,
       sample_fs\<lparr>rf_writes := rf_writes sample_fs @ [(path_join (sysfs_path sample_linux) ''attach'',
         as_bytes (show_dec p @ '' '' @ show_dec p @ '' '' @ show_dec (unat (speed_val sample_remote)) @ [CHR 0x0A]))]\<rparr>)"
    by (auto simp: recording_os_def)
  then have "p = Suc 0" using one by blast
  then show ?thesis using create unfolding dec
    by (simp add: dec sample_fs_def) (simp add: sample_linux_def path_join_def)
qed

end
