(* ===== verification/Reconnect.thy ===== *)
theory Reconnect
  imports Usbip_Errors Bandwidth
begin

text \<open>
  \<^verbatim>\<open>client/usbip-client/src/reconnect.rs\<close>: the backoff state machine. Delays are seconds as
  reals; \<open>rnd\<close> rounds each \<^verbatim>\<open>f64\<close> operation as in \<open>Bandwidth\<close>, \<open>powi\<close> is
  the standard library's power (its precision is unspecified), and \<open>jit\<close> is the random draw.
  Drawing from an empty range panics. Attempts are counted in \<^typ>\<open>nat\<close>: the \<^verbatim>\<open>u32\<close>
  would overflow after four billion failures.
\<close>

record ReconnectConfig =
  max_retries :: "nat option"
  initial_delay_secs :: nat
  max_delay_secs :: nat
  backoff_multiplier :: real

definition ReconnectConfig_default :: ReconnectConfig where
  "ReconnectConfig_default =
     \<lparr>max_retries = None, initial_delay_secs = 1, max_delay_secs = 30, backoff_multiplier = 2\<rparr>"

definition no_retry :: ReconnectConfig where
  "no_retry = ReconnectConfig_default\<lparr>max_retries := Some 0\<rparr>"

definition with_max_retries :: "nat \<Rightarrow> ReconnectConfig" where
  "with_max_retries n = ReconnectConfig_default\<lparr>max_retries := Some n\<rparr>"

record f64_env =
  f_rnd :: "real \<Rightarrow> real"
  f_powi :: "real \<Rightarrow> nat \<Rightarrow> real"

definition delay_for_attempt :: "f64_env \<Rightarrow> real \<Rightarrow> ReconnectConfig \<Rightarrow> nat \<Rightarrow> real outcome" where
  "delay_for_attempt F jit cfg attempt =
     (let raw_secs = f_rnd F (f_rnd F (real (initial_delay_secs cfg))
                        * f_powi F (backoff_multiplier cfg) attempt);
          capped_secs = min raw_secs (f_rnd F (real (max_delay_secs cfg)));
          jitter_range = f_rnd F (capped_secs * (1 / 4)) in
      if jitter_range \<le> 0 then Panic
      else Ret (max (f_rnd F (capped_secs + jit)) (f_rnd F (1 / 10))))"

definition should_retry :: "ReconnectConfig \<Rightarrow> nat \<Rightarrow> bool" where
  "should_retry cfg attempt = (case max_retries cfg of None \<Rightarrow> True | Some m \<Rightarrow> attempt < m)"

datatype ReconnectState = RsActive | BackOff nat real | RsStopped

definition on_error ::
  "f64_env \<Rightarrow> real \<Rightarrow> ReconnectConfig \<Rightarrow> ErrorCategory \<Rightarrow> ReconnectState \<Rightarrow> ReconnectState outcome" where
  "on_error F jit cfg cat s =
     (case cat of
        Transient \<Rightarrow>
          (let attempt = (case s of RsActive \<Rightarrow> 0 | RsStopped \<Rightarrow> 0 | BackOff a _ \<Rightarrow> a + 1) in
           if should_retry cfg attempt
           then obind (delay_for_attempt F jit cfg attempt) (\<lambda>d. Ret (BackOff attempt d))
           else Ret RsStopped)
      | Permanent \<Rightarrow> Ret RsStopped
      | Fatal \<Rightarrow> Ret RsStopped)"

text \<open>The result of the forwarding task is \<open>None\<close> for success or the category of its error.\<close>

definition classify_and_backoff ::
  "f64_env \<Rightarrow> real \<Rightarrow> ErrorCategory option \<Rightarrow> ReconnectConfig \<Rightarrow> ReconnectState
   \<Rightarrow> (real option \<times> ReconnectState) outcome" where
  "classify_and_backoff F jit res cfg s =
     (case res of
        None \<Rightarrow> Ret (None, RsStopped)
      | Some cat \<Rightarrow>
        obind (on_error F jit cfg cat s) (\<lambda>s'.
          Ret (case s' of BackOff _ d \<Rightarrow> (Some d, s') | _ \<Rightarrow> (None, s'))))"

datatype ReconnectDecision = RetryAfter real | StopRetrying

definition decide_reconnect ::
  "f64_env \<Rightarrow> real \<Rightarrow> ErrorCategory option \<Rightarrow> ReconnectConfig \<Rightarrow> ReconnectState
   \<Rightarrow> (ReconnectDecision \<times> ReconnectState) outcome" where
  "decide_reconnect F jit res cfg s =
     (case res of
        None \<Rightarrow> Ret (StopRetrying, s)
      | Some cat \<Rightarrow>
        obind (on_error F jit cfg cat s) (\<lambda>s'.
          Ret (case s' of BackOff _ d \<Rightarrow> (RetryAfter d, s') | _ \<Rightarrow> (StopRetrying, s'))))"

section \<open>Delays\<close>

definition exact_f64 :: f64_env where
  "exact_f64 = \<lparr>f_rnd = (\<lambda>x. x), f_powi = (\<lambda>x n. x ^ n)\<rparr>"

lemma rounding_mono: "rounding f \<Longrightarrow> x \<le> y \<Longrightarrow> f x \<le> f y"
  unfolding rounding_def by (metis monoD)

lemma delay_for_attempt_bounds:
  assumes F: "rounding (f_rnd F)" and d: "delay_for_attempt F jit cfg attempt = Ret d"
    and jit: "jit \<le> f_rnd F (min (f_rnd F (f_rnd F (real (initial_delay_secs cfg))
      * f_powi F (backoff_multiplier cfg) attempt)) (f_rnd F (real (max_delay_secs cfg))) * (1 / 4))"
  shows "f_rnd F (1 / 10) \<le> d" and
    "d \<le> max (f_rnd F (f_rnd F (real (max_delay_secs cfg))
        + f_rnd F (f_rnd F (real (max_delay_secs cfg)) * (1 / 4)))) (f_rnd F (1 / 10))"
proof -
  define M where "M = f_rnd F (real (max_delay_secs cfg))"
  define c where "c = min (f_rnd F (f_rnd F (real (initial_delay_secs cfg))
      * f_powi F (backoff_multiplier cfg) attempt)) M"
  have d': "d = max (f_rnd F (c + jit)) (f_rnd F (1 / 10))"
    using d by (simp add: delay_for_attempt_def c_def M_def Let_def split: if_splits)
  then show "f_rnd F (1 / 10) \<le> d" by simp
  have "c \<le> M" by (simp add: c_def)
  then have "f_rnd F (c * (1 / 4)) \<le> f_rnd F (M * (1 / 4))"
    by (intro rounding_mono [OF F]) simp
  moreover have "jit \<le> f_rnd F (c * (1 / 4))" using jit by (simp add: c_def M_def)
  ultimately have "c + jit \<le> M + f_rnd F (M * (1 / 4))" using \<open>c \<le> M\<close> by linarith
  then have "f_rnd F (c + jit) \<le> f_rnd F (M + f_rnd F (M * (1 / 4)))" by (rule rounding_mono [OF F])
  then show "d \<le> max (f_rnd F (f_rnd F (real (max_delay_secs cfg))
        + f_rnd F (f_rnd F (real (max_delay_secs cfg)) * (1 / 4)))) (f_rnd F (1 / 10))"
    by (auto simp: d' M_def)
qed

section \<open>Retries\<close>

text \<open>A number of consecutive transient errors.\<close>

fun transient_errors :: "f64_env \<Rightarrow> real \<Rightarrow> ReconnectConfig \<Rightarrow> nat \<Rightarrow> ReconnectState \<Rightarrow> ReconnectState outcome" where
  "transient_errors F jit cfg 0 s = Ret s"
| "transient_errors F jit cfg (Suc n) s =
     obind (transient_errors F jit cfg n s) (on_error F jit cfg Transient)"

definition never_panics :: "f64_env \<Rightarrow> real \<Rightarrow> ReconnectConfig \<Rightarrow> bool" where
  "never_panics F jit cfg \<longleftrightarrow> (\<forall>a. delay_for_attempt F jit cfg a \<noteq> Panic)"

lemma transient_backoff:
  assumes "never_panics F jit cfg" "\<And>a. a \<le> n \<Longrightarrow> should_retry cfg a"
  shows "\<exists>d. transient_errors F jit cfg (Suc n) RsActive = Ret (BackOff n d)
    \<and> delay_for_attempt F jit cfg n = Ret d"
  using assms(2)
proof (induction n)
  case 0
  obtain d where "delay_for_attempt F jit cfg 0 = Ret d"
    using assms(1) unfolding never_panics_def by (metis outcome.exhaust)
  then show ?case using 0 by (simp add: on_error_def)
next
  case (Suc n)
  then obtain d where "transient_errors F jit cfg (Suc n) RsActive = Ret (BackOff n d)" by auto
  moreover obtain d' where "delay_for_attempt F jit cfg (Suc n) = Ret d'"
    using assms(1) unfolding never_panics_def by (metis outcome.exhaust)
  ultimately show ?case using Suc.prems [of "Suc n"] by (simp add: on_error_def)
qed

text \<open>C30: Every delay the backoff prescribes is at least 0.1 seconds and at most 125 percent of the
  configured maximum, whatever the attempt number, the multiplier and the random draw (up to the
  rounding of the arithmetic).\<close>

theorem backoff_delay_bounds:
  assumes "rounding (f_rnd F)" "delay_for_attempt F jit cfg attempt = Ret d"
    and "jit \<le> f_rnd F (min (f_rnd F (f_rnd F (real (initial_delay_secs cfg))
      * f_powi F (backoff_multiplier cfg) attempt)) (f_rnd F (real (max_delay_secs cfg))) * (1 / 4))"
  shows "f_rnd F (1 / 10) \<le> d \<and>
    d \<le> max (f_rnd F (f_rnd F (real (max_delay_secs cfg))
        + f_rnd F (f_rnd F (real (max_delay_secs cfg)) * (1 / 4)))) (f_rnd F (1 / 10))"
  using delay_for_attempt_bounds [OF assms] by blast

theorem backoff_delay_bounds_witness:
  "\<exists>d. delay_for_attempt exact_f64 1 ReconnectConfig_default 7 = Ret d
     \<and> f_rnd exact_f64 (1 / 10) \<le> d
     \<and> d \<le> max (f_rnd exact_f64 (f_rnd exact_f64 (real (max_delay_secs ReconnectConfig_default))
        + f_rnd exact_f64 (f_rnd exact_f64 (real (max_delay_secs ReconnectConfig_default)) * (1 / 4))))
          (f_rnd exact_f64 (1 / 10))"
proof -
  have F: "rounding (f_rnd exact_f64)" by (simp add: exact_f64_def rounding_id)
  have d: "delay_for_attempt exact_f64 1 ReconnectConfig_default 7 = Ret 31"
    by (simp add: delay_for_attempt_def exact_f64_def ReconnectConfig_default_def)
  from backoff_delay_bounds [OF F d] d show ?thesis
    by (simp add: exact_f64_def ReconnectConfig_default_def)
qed

text \<open>With exact arithmetic and no jitter the default configuration waits 1, 2, 4, 8, 16 and then
  30 seconds for every further attempt.\<close>

theorem backoff_default_schedule:
  "map (delay_for_attempt exact_f64 0 ReconnectConfig_default) [0, 1, 2, 3, 4]
     = map Ret [1, 2, 4, 8, 16]
   \<and> (\<forall>a. 5 \<le> a \<longrightarrow> delay_for_attempt exact_f64 0 ReconnectConfig_default a = Ret 30)"
proof
  show "map (delay_for_attempt exact_f64 0 ReconnectConfig_default) [0, 1, 2, 3, 4]
     = map Ret [1, 2, 4, 8, 16]"
    by (simp add: delay_for_attempt_def exact_f64_def ReconnectConfig_default_def)
  have "(30 :: real) \<le> 2 ^ a" if "5 \<le> a" for a :: nat
  proof -
    have "(2 :: real) ^ 5 \<le> 2 ^ a" by (rule power_increasing [OF that]) simp
    then show ?thesis by simp
  qed
  then have "min (2 ^ a) 30 = (30 :: real)" if "5 \<le> a" for a :: nat using that by simp
  then show "\<forall>a. 5 \<le> a \<longrightarrow> delay_for_attempt exact_f64 0 ReconnectConfig_default a = Ret 30"
    by (simp add: delay_for_attempt_def exact_f64_def ReconnectConfig_default_def)
qed

theorem backoff_default_schedule_witness:
  "delay_for_attempt exact_f64 0 ReconnectConfig_default 9 = Ret 30"
  using backoff_default_schedule by simp

text \<open>With a limit of \<open>n\<close> retries, \<open>n\<close> consecutive transient errors each lead to
  another attempt and the next one stops the machine; a permanent or fatal error stops it in
  every state.\<close>

theorem retry_limit:
  assumes "max_retries cfg = Some n" "never_panics F jit cfg"
  shows "(\<forall>k<n. \<exists>d. transient_errors F jit cfg (Suc k) RsActive = Ret (BackOff k d))
    \<and> transient_errors F jit cfg (Suc n) RsActive = Ret RsStopped
    \<and> (\<forall>s. on_error F jit cfg Permanent s = Ret RsStopped \<and> on_error F jit cfg Fatal s = Ret RsStopped)"
proof -
  have retry: "should_retry cfg a \<longleftrightarrow> a < n" for a using assms(1) by (simp add: should_retry_def)
  have backoff: "\<exists>d. transient_errors F jit cfg (Suc k) RsActive = Ret (BackOff k d)" if "k < n" for k
    using transient_backoff [OF assms(2), of k] that retry by auto
  have "transient_errors F jit cfg (Suc n) RsActive = Ret RsStopped"
  proof (cases n)
    case 0
    then show ?thesis using retry [of 0] by (simp add: on_error_def)
  next
    case (Suc k)
    then obtain d where "transient_errors F jit cfg n RsActive = Ret (BackOff k d)" using backoff [of k] by auto
    then show ?thesis using retry [of n] Suc by (simp add: on_error_def)
  qed
  then show ?thesis using backoff by (simp add: on_error_def)
qed

theorem retry_limit_witness:
  "(\<exists>d. transient_errors exact_f64 0 (with_max_retries 2) (Suc 1) RsActive = Ret (BackOff 1 d))
   \<and> transient_errors exact_f64 0 (with_max_retries 2) (Suc 2) RsActive = Ret RsStopped
   \<and> (\<forall>s. on_error exact_f64 0 (with_max_retries 2) Permanent s = Ret RsStopped
        \<and> on_error exact_f64 0 (with_max_retries 2) Fatal s = Ret RsStopped)"
proof -
  have "max_retries (with_max_retries 2) = Some 2" by (simp add: with_max_retries_def)
  moreover have "never_panics exact_f64 0 (with_max_retries 2)"
    by (simp add: never_panics_def delay_for_attempt_def exact_f64_def with_max_retries_def
        ReconnectConfig_default_def min_def Let_def not_le)
  ultimately have limit: "(\<forall>k<2. \<exists>d. transient_errors exact_f64 0 (with_max_retries 2) (Suc k) RsActive = Ret (BackOff k d))
    \<and> transient_errors exact_f64 0 (with_max_retries 2) (Suc 2) RsActive = Ret RsStopped
    \<and> (\<forall>s. on_error exact_f64 0 (with_max_retries 2) Permanent s = Ret RsStopped
      \<and> on_error exact_f64 0 (with_max_retries 2) Fatal s = Ret RsStopped)"
    by (rule retry_limit)
  have "(1 :: nat) < 2" by simp
  with limit have "\<exists>d. transient_errors exact_f64 0 (with_max_retries 2) (Suc 1) RsActive = Ret (BackOff 1 d)" by blast
  with limit show ?thesis by blast
qed

text \<open>A configuration with an initial or a maximal delay of zero seconds makes the first retry
  panic: the jitter is drawn from an empty range.\<close>

theorem backoff_zero_delay_panics:
  assumes "initial_delay_secs cfg = 0" "rounding (f_rnd F)"
  shows "delay_for_attempt F jit cfg attempt = Panic"
proof -
  have z: "f_rnd F 0 = 0" using assms(2) by (simp add: rounding_def)
  have "f_rnd F (min 0 (f_rnd F (real (max_delay_secs cfg))) * (1 / 4)) \<le> 0"
    using rounding_mono [OF assms(2), of "min 0 (f_rnd F (real (max_delay_secs cfg))) * (1 / 4)" 0] z by simp
  then show ?thesis using assms(1) z by (simp add: delay_for_attempt_def Let_def)
qed

theorem backoff_zero_delay_panics_witness:
  "delay_for_attempt exact_f64 0 (ReconnectConfig_default\<lparr>initial_delay_secs := 0\<rparr>) 0 = Panic"
  by (rule backoff_zero_delay_panics) (simp_all add: exact_f64_def rounding_id)

end
