(* ===== verification/Client.thy ===== *)
theory Client
  imports Descriptor Vhci Reconnect
begin

text \<open>
  \<^verbatim>\<open>client/usbip-client/src/client.rs\<close>: listing and importing devices, the forwarding loop and
  the reconnect loop around it. A connection attempt is a parameter (\<open>net i\<close> is the outcome
  of the \<open>i\<close>-th \<^verbatim>\<open>TcpStream::connect\<close> of a task), as are the VHCI backend \<open>V\<close>, the number
  of bytes each \<^verbatim>\<open>read\<close> delivers (\<open>chunk\<close>) and the moment the user interrupts
  (\<open>stop\<close>). The stream of a connection is what arrives until the peer closes; a connection
  that never ends has a value of its own where it matters. Setting the no-delay option and allocating the device list are assumed to
  succeed. Where the code parses descriptors it may panic or not return, so \<open>do_import\<close> has
  the result type of \<open>parse_descriptor_tree\<close>.
\<close>

record ClientConfig =
  cc_server_addr :: "SocketAddr option"
  cc_use_mdns :: bool
  cc_auto_reconnect :: bool
  cc_reconnect :: ReconnectConfig
  cc_tcp_nodelay :: bool

definition ClientConfig_default :: ClientConfig where
  "ClientConfig_default = \<lparr>cc_server_addr = None, cc_use_mdns = True, cc_auto_reconnect = True,
     cc_reconnect = ReconnectConfig_default, cc_tcp_nodelay = True\<rparr>"

record ActiveConnection =
  ac_busid :: string
  ac_device_entry :: UsbIpDeviceEntry
  ac_descriptors :: bytes

record ImportedDevice =
  im_busid :: string
  im_device_entry :: UsbIpDeviceEntry

record 'v Client =
  cl_config :: ClientConfig
  cl_vhci :: 'v
  cl_connections :: "ActiveConnection list"

definition new_with_vhci :: "ClientConfig \<Rightarrow> 'v \<Rightarrow> 'v Client" where
  "new_with_vhci config v = \<lparr>cl_config = config, cl_vhci = v, cl_connections = []\<rparr>"

section \<open>Listing devices\<close>

fun read_entries :: "nat \<Rightarrow> UsbIpDeviceEntry list stream_op" where
  "read_entries 0 = stream_ret []"
| "read_entries (Suc n) =
     stream_bind (read_exact UsbIpDeviceEntry_SIZE) (\<lambda>entry_buf.
     stream_bind (read_entries n) (\<lambda>devices.
     stream_ret (case UsbIpDeviceEntry_read_from_prefix entry_buf of
                   Some (entry, _) \<Rightarrow> entry # devices | None \<Rightarrow> devices)))"

definition list_session :: "UsbIpDeviceEntry list stream_op" where
  "list_session =
     stream_bind (write_all (UsbIpHeader_as_bytes (UsbIpHeader_new OP_REQ_DEVLIST))) (\<lambda>_.
     stream_bind (read_exact 8) (\<lambda>header_buf.
     case UsbIpHeader_read_from_prefix header_buf of
       None \<Rightarrow> stream_fail (Protocol ''invalid reply header'')
     | Some (rep_header, _) \<Rightarrow>
       if command rep_header \<noteq> OP_REP_DEVLIST then stream_fail (Protocol ''unexpected reply'')
       else
         stream_bind (read_exact 4) (\<lambda>ndev_buf.
         read_entries (unat (u32_from_be_bytes (ndev_buf ! 0) (ndev_buf ! 1) (ndev_buf ! 2) (ndev_buf ! 3))))))"

definition list_remote_devices ::
  "(nat \<Rightarrow> tcp UsbIpResult) \<Rightarrow> UsbIpDeviceEntry list UsbIpResult" where
  "list_remote_devices net =
     (case net 0 of Inl e \<Rightarrow> Inl e | Inr t \<Rightarrow> fst (list_session t))"

section \<open>Importing a device\<close>

definition show_i32 :: "i32 \<Rightarrow> string" where
  "show_i32 s = (if sint s < 0 then ''-'' @ show_dec (nat (- sint s)) else show_dec (nat (sint s)))"

text \<open>The request and the check of the reply header, the same in both import functions.\<close>

definition import_handshake :: "string \<Rightarrow> unit stream_op" where
  "import_handshake bid =
     stream_bind (write_all (UsbIpHeader_as_bytes (UsbIpHeader_new OP_REQ_IMPORT))) (\<lambda>_.
     stream_bind (write_all (copy_padded 32 31 bid)) (\<lambda>_.
     stream_bind (read_exact 8) (\<lambda>header_buf.
     case UsbIpHeader_read_from_prefix header_buf of
       None \<Rightarrow> stream_fail (Protocol ''invalid import reply'')
     | Some (rep_header, _) \<Rightarrow>
       if command rep_header \<noteq> OP_REP_IMPORT then stream_fail (Protocol ''unexpected reply'')
       else if hdr_status rep_header \<noteq> STATUS_SUCCESS then
         stream_fail (DeviceBusy (''server rejected import (status='' @ show_i32 (hdr_status rep_header) @ '')''))
       else stream_ret ())))"

definition read_device_entry :: "UsbIpDeviceEntry stream_op" where
  "read_device_entry =
     stream_bind (read_exact UsbIpDeviceEntry_SIZE) (\<lambda>entry_buf.
     case UsbIpDeviceEntry_read_from_prefix entry_buf of
       Some (entry, _) \<Rightarrow> stream_ret entry
     | None \<Rightarrow> stream_fail (Protocol ''invalid device entry''))"

text \<open>
  The descriptor loop: at most 512 bytes in all, and a parse after every read. A read into a full
  buffer returns zero bytes, as does one at the end of the stream; a failing read ends the loop
  as well.
\<close>

definition tree_estimate :: nat where "tree_estimate = 512"

definition read_size :: "nat \<Rightarrow> nat \<Rightarrow> tcp \<Rightarrow> nat" where
  "read_size want room t = (if room = 0 \<or> rx t = [] then 0 else max 1 (min want (min room (length (rx t)))))"

lemma read_size_shrinks: "n = read_size want room t \<Longrightarrow> n \<noteq> 0 \<Longrightarrow> length (drop n (rx t)) < length (rx t)"
  by (cases "room = 0 \<or> rx t = []") (auto simp: read_size_def)

function read_descriptors ::
  "(nat \<Rightarrow> nat) \<Rightarrow> bool \<Rightarrow> nat \<Rightarrow> bytes \<Rightarrow> tcp \<Rightarrow> (bytes \<times> tcp) outcome option" where
  "read_descriptors chunk ovf i descriptors t =
     (let n = read_size (chunk i) (tree_estimate - length descriptors) t in
      if n = 0 then Some (Ret (descriptors, t))
      else
        (let descriptors' = descriptors @ take n (rx t); t' = t\<lparr>rx := drop n (rx t)\<rparr> in
         case parse_descriptor_tree ovf descriptors' of
           None \<Rightarrow> None
         | Some Panic \<Rightarrow> Some Panic
         | Some (Ret (Some _)) \<Rightarrow> Some (Ret (descriptors', t'))
         | Some (Ret None) \<Rightarrow> read_descriptors chunk ovf (Suc i) descriptors' t'))"
  by pat_completeness auto
termination
proof (relation "measure (\<lambda>(_, _, _, _, t). length (rx t))", goal_cases)
  case (2 chunk ovf i descriptors t n)
  then show ?case using read_size_shrinks by simp
qed simp

declare read_descriptors.simps [simp del]

definition do_import ::
  "(nat \<Rightarrow> nat) \<Rightarrow> bool \<Rightarrow> 'v VhciBackend \<Rightarrow> tcp UsbIpResult \<Rightarrow> string \<Rightarrow> 'v
   \<Rightarrow> ((UsbIpDeviceEntry \<times> bytes) UsbIpResult \<times> 'v) outcome option" where
  "do_import chunk ovf V conn bid v =
     (case conn of
        Inl e \<Rightarrow> Some (Ret (Inl e, v))
      | Inr t \<Rightarrow>
        (case stream_bind (import_handshake bid) (\<lambda>_. read_device_entry) t of
           (Inl e, _) \<Rightarrow> Some (Ret (Inl e, v))
         | (Inr device_entry, t1) \<Rightarrow>
           map_option (\<lambda>r. obind r (\<lambda>(descriptors, _).
               Ret (case vb_create_device V v device_entry descriptors of
                      (Inl e, v') \<Rightarrow> (Inl e, v')
                    | (Inr _, v') \<Rightarrow> (Inr (device_entry, descriptors), v'))))
             (read_descriptors chunk ovf 0 [] t1)))"

definition import_device_once ::
  "(nat \<Rightarrow> nat) \<Rightarrow> bool \<Rightarrow> 'v VhciBackend \<Rightarrow> tcp UsbIpResult \<Rightarrow> string \<Rightarrow> 'v Client
   \<Rightarrow> (ImportedDevice UsbIpResult \<times> 'v Client) outcome option" where
  "import_device_once chunk ovf V conn bid c =
     map_option (\<lambda>r. obind r (\<lambda>(res, v').
         Ret (case res of
                Inl e \<Rightarrow> (Inl e, c\<lparr>cl_vhci := v'\<rparr>)
              | Inr (device_entry, descriptors) \<Rightarrow>
                (Inr \<lparr>im_busid = bid, im_device_entry = device_entry\<rparr>,
                 c\<lparr>cl_vhci := v', cl_connections := cl_connections c @
                   [\<lparr>ac_busid = bid, ac_device_entry = device_entry, ac_descriptors = descriptors\<rparr>]\<rparr>))))
       (do_import chunk ovf V conn bid (cl_vhci c))"

definition tcp_connect_and_import :: "tcp UsbIpResult \<Rightarrow> string \<Rightarrow> tcp UsbIpResult" where
  "tcp_connect_and_import conn bid =
     (case conn of
        Inl e \<Rightarrow> Inl e
      | Inr t \<Rightarrow>
        (case stream_bind (import_handshake bid) (\<lambda>_. read_exact UsbIpDeviceEntry_SIZE) t of
           (Inl e, _) \<Rightarrow> Inl e | (Inr _, t1) \<Rightarrow> Inr t1))"

section \<open>Forwarding\<close>

text \<open>One frame: an error, or whether the loop goes on.\<close>

definition forward_frame :: "'v VhciBackend \<Rightarrow> bytes \<Rightarrow> 'v \<Rightarrow> bool UsbIpResult \<times> 'v" where
  "forward_frame V frame v =
     (if length frame < UsbIpHeader_SIZE then (Inr False, v)
      else case UsbIpHeader_read_from_prefix (take UsbIpHeader_SIZE frame) of
        None \<Rightarrow> (Inr False, v)
      | Some (header, _) \<Rightarrow>
        (let payload = drop UsbIpHeader_SIZE frame in
         if command header = USBIP_CMD_SUBMIT then (Inr True, v)
         else if command header = USBIP_RET_SUBMIT then
           (if length payload < UsbIpRetSubmit_HEADER_SIZE then (Inl (Protocol ''invalid RET_SUBMIT''), v)
            else case UsbIpRetSubmit_read_from_prefix (take UsbIpRetSubmit_HEADER_SIZE payload) of
              None \<Rightarrow> (Inl (Protocol ''invalid RET_SUBMIT''), v)
            | Some (ret, _) \<Rightarrow>
              (let in_data = (if ret_has_data ret then drop UsbIpRetSubmit_HEADER_SIZE payload else []) in
               case vb_complete_urb V v (ret_seqnum ret) (ret_devid ret) (ret_status ret)
                      (ret_actual_length ret) in_data of
                 (Inl e, v') \<Rightarrow> (Inl e, v') | (Inr _, v') \<Rightarrow> (Inr True, v')))
         else if command header = USBIP_RET_UNLINK then
           (if length payload < UsbIpRetUnlink_SIZE then (Inl (Protocol ''invalid RET_UNLINK''), v)
            else case UsbIpRetUnlink_read_from_prefix (take UsbIpRetUnlink_SIZE payload) of
              None \<Rightarrow> (Inl (Protocol ''invalid RET_UNLINK''), v)
            | Some (unlink, _) \<Rightarrow>
              (case vb_cancel_urb V v (ul_seqnum unlink) (ul_devid unlink) of
                 (Inl e, v') \<Rightarrow> (Inl e, v') | (Inr _, v') \<Rightarrow> (Inr True, v')))
         else (Inr True, v)))"

function urb_forwarding_loop ::
  "'v VhciBackend \<Rightarrow> (nat \<Rightarrow> bool) \<Rightarrow> nat \<Rightarrow> tcp \<Rightarrow> 'v \<Rightarrow> unit UsbIpResult \<times> 'v" where
  "urb_forwarding_loop V stop i t v =
     (if stop i then (Inr (), v)
      else case read_message t of
        (Inl _, _) \<Rightarrow> (Inr (), v)
      | (Inr frame, t1) \<Rightarrow>
        (case forward_frame V frame v of
           (Inl e, v') \<Rightarrow> (Inl e, v')
         | (Inr False, v') \<Rightarrow> (Inr (), v')
         | (Inr True, v') \<Rightarrow> urb_forwarding_loop V stop (Suc i) t1 v'))"
  by pat_completeness auto
termination
  by (relation "measure (\<lambda>(_, _, _, t, _). length (rx t))") (auto dest!: read_message_shrinks [OF sym])

declare urb_forwarding_loop.simps [simp del]

definition urb_forwarding_task ::
  "'v VhciBackend \<Rightarrow> (nat \<Rightarrow> bool) \<Rightarrow> tcp UsbIpResult \<Rightarrow> string \<Rightarrow> 'v \<Rightarrow> unit UsbIpResult \<times> 'v" where
  "urb_forwarding_task V stop conn bid v =
     (case tcp_connect_and_import conn bid of
        Inl e \<Rightarrow> (Inl e, v)
      | Inr t \<Rightarrow> urb_forwarding_loop V stop 0 t v)"

definition run_urb_forwarding ::
  "'v VhciBackend \<Rightarrow> (nat \<Rightarrow> bool) \<Rightarrow> tcp UsbIpResult \<Rightarrow> string \<Rightarrow> 'v Client
   \<Rightarrow> unit UsbIpResult \<times> 'v Client" where
  "run_urb_forwarding V stop conn bid c =
     (let (r, v') = urb_forwarding_task V stop conn bid (cl_vhci c) in (r, c\<lparr>cl_vhci := v'\<rparr>))"

section \<open>The reconnect loop\<close>

text \<open>
  What the outside decides for a background task: the arithmetic, the jitter, the connections and
  the interrupts of its rounds. A connection is \<open>None\<close> when its session never ends: connecting does
  not return, or the peer keeps the connection up. Otherwise it is the error of connecting, or the
  stream of a peer that closes at its end.
\<close>

record task_env =
  te_f64 :: f64_env
  te_jitter :: "nat \<Rightarrow> real"
  te_net :: "nat \<Rightarrow> tcp UsbIpResult option"
  te_stop :: "nat \<Rightarrow> nat \<Rightarrow> bool"

text \<open>The result is the number of connections that were tried, the state and the backend.\<close>

partial_function (option) reconnect_loop ::
  "task_env \<Rightarrow> 'v VhciBackend \<Rightarrow> ClientConfig \<Rightarrow> string \<Rightarrow> nat \<Rightarrow> ReconnectState \<Rightarrow> 'v
   \<Rightarrow> (nat \<times> ReconnectState \<times> 'v) outcome option" where
  "reconnect_loop T V config bid i s v =
     (case te_net T i of
        None \<Rightarrow> None
      | Some conn \<Rightarrow>
        (case urb_forwarding_task V (te_stop T i) conn bid v of
           (Inr _, v') \<Rightarrow> Some (Ret (Suc i, s, v'))
         | (Inl e, v') \<Rightarrow>
           if \<not> cc_auto_reconnect config then Some (Ret (Suc i, s, v'))
           else case decide_reconnect (te_f64 T) (te_jitter T i) (Some (ErrorKind_category e))
                       (cc_reconnect config) s of
             Panic \<Rightarrow> Some Panic
           | Ret (RetryAfter _, s') \<Rightarrow> reconnect_loop T V config bid (Suc i) s' v'
           | Ret (StopRetrying, s') \<Rightarrow> Some (Ret (Suc i, s', v'))))"

text \<open>
  \<^verbatim>\<open>import_device\<close>: the import and, when it succeeded, the task it spawns, run from the
  state the import left. The task itself may never end.
\<close>

definition import_device ::
  "(nat \<Rightarrow> nat) \<Rightarrow> bool \<Rightarrow> task_env \<Rightarrow> 'v VhciBackend \<Rightarrow> tcp UsbIpResult \<Rightarrow> string \<Rightarrow> 'v Client
   \<Rightarrow> (ImportedDevice UsbIpResult \<times> 'v Client \<times> (nat \<times> ReconnectState \<times> 'v) outcome option option)
      outcome option" where
  "import_device chunk ovf T V conn bid c =
     map_option (\<lambda>r. obind r (\<lambda>(res, v').
         Ret (case res of
                Inl e \<Rightarrow> (Inl e, c\<lparr>cl_vhci := v'\<rparr>, None)
              | Inr (device_entry, descriptors) \<Rightarrow>
                (Inr \<lparr>im_busid = bid, im_device_entry = device_entry\<rparr>,
                 c\<lparr>cl_vhci := v', cl_connections := cl_connections c @
                   [\<lparr>ac_busid = bid, ac_device_entry = device_entry, ac_descriptors = descriptors\<rparr>]\<rparr>,
                 Some (reconnect_loop T V (cl_config c) bid 0 RsActive v')))))
       (do_import chunk ovf V conn bid (cl_vhci c))"

section \<open>The forwarding loop on a stream of replies\<close>

text \<open>The frames a server sends in this phase, and what each asks of the backend.\<close>

datatype server_frame = FrRet UsbIpRetSubmit bytes | FrUnlink UsbIpRetUnlink

fun fr_bytes :: "server_frame \<Rightarrow> bytes" where
  "fr_bytes (FrRet ret data) = serialize_ret_submit ret data"
| "fr_bytes (FrUnlink u) = unlink_frame u"

fun fr_ok :: "server_frame \<Rightarrow> bool" where
  "fr_ok (FrRet ret data) = (ret_wf ret \<and> ret_data_ok ret data)"
| "fr_ok (FrUnlink u) = True"

fun fr_event :: "server_frame \<Rightarrow> vhci_event" where
  "fr_event (FrRet ret data) =
     Completed (ret_seqnum ret) (ret_devid ret) (ret_status ret) (ret_actual_length ret) data"
| "fr_event (FrUnlink u) = Cancelled (ul_seqnum u) (ul_devid u)"

lemma fr_is_frame: "fr_ok f \<Longrightarrow> is_frame (fr_bytes f)"
  by (cases f) (auto simp: is_frame_def)

fun deliver :: "'v VhciBackend \<Rightarrow> vhci_event \<Rightarrow> 'v \<Rightarrow> unit UsbIpResult \<times> 'v" where
  "deliver V (Completed s d st n data) v = vb_complete_urb V v s d st n data"
| "deliver V (Cancelled s d) v = vb_cancel_urb V v s d"

lemma forward_frame_event:
  assumes "fr_ok f"
  shows "forward_frame V (fr_bytes f) v =
    (case deliver V (fr_event f) v of (Inl e, v') \<Rightarrow> (Inl e, v') | (Inr _, v') \<Rightarrow> (Inr True, v'))"
proof (cases f)
  case (FrRet ret data)
  have h: "UsbIpHeader_read_from_prefix (UsbIpHeader_as_bytes (UsbIpHeader_new USBIP_RET_SUBMIT))
      = Some (UsbIpHeader_new USBIP_RET_SUBMIT, [])" by simp
  have d: "data = []" if "\<not> ret_has_data ret" using that assms FrRet by (simp add: ret_data_ok_def)
  show ?thesis
    using assms FrRet h d
    by (auto simp: forward_frame_def serialize_ret_submit_def wire_size_defs Let_def)
next
  case (FrUnlink u)
  have h: "UsbIpHeader_read_from_prefix (UsbIpHeader_as_bytes (UsbIpHeader_new USBIP_RET_UNLINK))
      = Some (UsbIpHeader_new USBIP_RET_UNLINK, [])" by simp
  show ?thesis
    using FrUnlink h by (auto simp: forward_frame_def unlink_frame_def wire_size_defs Let_def)
qed

context vhci_sink
begin

lemma deliver_log:
  assumes "ok v"
  shows "\<exists>v'. deliver V e v = (Inr (), v') \<and> ok v' \<and> log v' = log v @ rec e"
  using complete_log [OF assms] cancel_log [OF assms] by (cases e) (simp, metis surj_pair)+

lemma forward_frame_log:
  assumes "fr_ok f" "ok v"
  shows "\<exists>v'. forward_frame V (fr_bytes f) v = (Inr True, v') \<and> ok v' \<and> log v' = log v @ rec (fr_event f)"
  using deliver_log [OF assms(2), of "fr_event f"] by (auto simp: forward_frame_event [OF assms(1)])

lemma forwarding_log:
  assumes "list_all fr_ok fs" "ok v" "\<And>k. \<not> stop k"
  shows "\<exists>v'. urb_forwarding_loop V stop i (t\<lparr>rx := concat (map fr_bytes fs) @ r\<rparr>) v
      = urb_forwarding_loop V stop (i + length fs) (t\<lparr>rx := r\<rparr>) v'
    \<and> ok v' \<and> log v' = log v @ concat (map (rec \<circ> fr_event) fs)"
  using assms(1,2)
proof (induction fs arbitrary: i v)
  case (Cons f fs)
  obtain v1 where v1: "forward_frame V (fr_bytes f) v = (Inr True, v1)" "ok v1"
      "log v1 = log v @ rec (fr_event f)"
    using forward_frame_log [of f v] Cons.prems by auto
  have rd: "read_message (t\<lparr>rx := fr_bytes f @ concat (map fr_bytes fs) @ r\<rparr>)
      = (Inr (fr_bytes f), t\<lparr>rx := concat (map fr_bytes fs) @ r\<rparr>)"
    using read_message_frame [OF fr_is_frame] Cons.prems(1) by simp
  have "urb_forwarding_loop V stop i (t\<lparr>rx := concat (map fr_bytes (f # fs)) @ r\<rparr>) v
      = urb_forwarding_loop V stop (Suc i) (t\<lparr>rx := concat (map fr_bytes fs) @ r\<rparr>) v1"
    using rd v1(1) assms(3) by (subst urb_forwarding_loop.simps) simp
  then show ?case using Cons.IH [of v1 "Suc i"] Cons.prems(1) v1 by simp
qed auto

end

section \<open>The handshake\<close>

lemmas handshake_eval = import_handshake_def read_device_entry_def stream_bind_def stream_ret_def
  stream_fail_def write_all_def

definition import_ok_reply :: "UsbIpDeviceEntry \<Rightarrow> bytes" where
  "import_ok_reply entry =
     UsbIpHeader_as_bytes (UsbIpHeader_new OP_REP_IMPORT) @ UsbIpDeviceEntry_as_bytes entry"

definition import_request :: "string \<Rightarrow> bytes" where
  "import_request bid = UsbIpHeader_as_bytes (UsbIpHeader_new OP_REQ_IMPORT) @ copy_padded 32 31 bid"

lemma handshake_granted:
  assumes "rx t = UsbIpHeader_as_bytes (UsbIpHeader_new OP_REP_IMPORT) @ r" "tx_ok t = None"
  shows "import_handshake bid t = (Inr (), t\<lparr>rx := r, tx := tx t @ import_request bid\<rparr>)"
  using assms
  by (simp add: handshake_eval read_exact_def UsbIpHeader_new_def STATUS_SUCCESS_def import_request_def
      UsbIpHeader_read_written [where r = "[]", simplified])

lemma handshake_rejected:
  assumes "rx t = UsbIpHeader_as_bytes (UsbIpHeader_with_status OP_REP_IMPORT st) @ r" "tx_ok t = None"
    and "st \<noteq> STATUS_SUCCESS"
  shows "\<exists>m t'. import_handshake bid t = (Inl (DeviceBusy m), t')"
  using assms
  by (simp add: handshake_eval read_exact_def UsbIpHeader_with_status_def
      UsbIpHeader_read_written [where r = "[]", simplified])

lemma handshake_entry_granted:
  assumes "rx t = import_ok_reply entry @ r" "tx_ok t = None" "entry_wf entry"
  shows "stream_bind (import_handshake bid) (\<lambda>_. read_device_entry) t
      = (Inr entry, t\<lparr>rx := r, tx := tx t @ import_request bid\<rparr>)"
    and "tcp_connect_and_import (Inr t) bid = Inr (t\<lparr>rx := r, tx := tx t @ import_request bid\<rparr>)"
proof -
  have h: "import_handshake bid t
      = (Inr (), t\<lparr>rx := UsbIpDeviceEntry_as_bytes entry @ r, tx := tx t @ import_request bid\<rparr>)"
    using handshake_granted [of t "UsbIpDeviceEntry_as_bytes entry @ r"] assms
    by (simp add: import_ok_reply_def)
  show "stream_bind (import_handshake bid) (\<lambda>_. read_device_entry) t
      = (Inr entry, t\<lparr>rx := r, tx := tx t @ import_request bid\<rparr>)"
    using assms(3)
    by (simp add: stream_bind_def h read_device_entry_def read_exact_def UsbIpDeviceEntry_SIZE_def
        stream_ret_def entry_read_written [where r = "[]", simplified])
  show "tcp_connect_and_import (Inr t) bid = Inr (t\<lparr>rx := r, tx := tx t @ import_request bid\<rparr>)"
    using assms(3)
    by (simp add: tcp_connect_and_import_def stream_bind_def h read_exact_def UsbIpDeviceEntry_SIZE_def)
qed

section \<open>Descriptors\<close>

lemma read_descriptors_once:
  assumes "0 < n" "n \<le> length (rx t)" "n \<le> tree_estimate"
    and "min (chunk 0) (min tree_estimate (length (rx t))) = n"
    and "parse_descriptor_tree ovf (take n (rx t)) = Some (Ret (Some info))"
  shows "read_descriptors chunk ovf 0 [] t = Some (Ret (take n (rx t), t\<lparr>rx := drop n (rx t)\<rparr>))"
proof -
  have "read_size (chunk 0) tree_estimate t = n"
    using assms(1,2,4) by (auto simp: read_size_def tree_estimate_def)
  then show ?thesis using assms(1,5) by (subst read_descriptors.simps) simp
qed

lemma do_import_descriptors:
  assumes "rx t = import_ok_reply entry @ r" "tx_ok t = None" "entry_wf entry"
    and "read_descriptors chunk ovf 0 [] (t\<lparr>rx := r, tx := tx t @ import_request bid\<rparr>)
      = Some (Ret (descriptors, t'))"
  shows "do_import chunk ovf V (Inr t) bid v = Some (Ret
    (case vb_create_device V v entry descriptors of
       (Inl e, v') \<Rightarrow> (Inl e, v') | (Inr _, v') \<Rightarrow> (Inr (entry, descriptors), v')))"
  using handshake_entry_granted [OF assms(1-3), where bid = bid] assms(4) by (simp add: do_import_def)

lemma parse_device_only:
  "length raw = 18 \<Longrightarrow> \<exists>info. parse_descriptor_tree ovf raw = Some (Ret (Some info))"
  by (simp add: parse_descriptor_tree_def DeviceDescriptor_parse_def DeviceDescriptor_SIZE_def
      parse_configs.simps)

text \<open>When the server grants the import and one read delivers its whole descriptor tree, of at
  most 512 bytes, the import returns the server's entry and exactly that tree, and hands both to
  the virtual host controller.\<close>

theorem import_gets_tree:
  assumes "rx t = import_ok_reply entry @ serialize_descriptor_tree u" "tx_ok t = None" "entry_wf entry"
    and "tree_wf u" "length (serialize_descriptor_tree u) \<le> tree_estimate"
    and "length (serialize_descriptor_tree u) \<le> chunk 0"
    and "vb_create_device V v entry (serialize_descriptor_tree u) = (Inr dev, v')"
  shows "do_import chunk ovf V (Inr t) bid v
    = Some (Ret (Inr (entry, serialize_descriptor_tree u), v'))"
proof -
  let ?tree = "serialize_descriptor_tree u"
  have "0 < length ?tree" by (simp add: serialize_descriptor_tree_def)
  then have "read_descriptors chunk ovf 0 [] (t\<lparr>rx := ?tree, tx := tx t @ import_request bid\<rparr>)
      = Some (Ret (?tree, t\<lparr>rx := [], tx := tx t @ import_request bid\<rparr>))"
    using read_descriptors_once [where n = "length ?tree" and info = u
        and t = "t\<lparr>rx := ?tree, tx := tx t @ import_request bid\<rparr>" and chunk = chunk and ovf = ovf]
      assms(5,6) parse_serialized [OF assms(4)]
    by simp
  from do_import_descriptors [OF assms(1-3) this, where V = V and v = v] assms(7) show ?thesis by simp
qed

lemma sample_remote_wf: "entry_wf sample_remote"
  by (simp add: entry_wf_def sample_remote_def)

lemma sample_create: "\<exists>dev v'. linux_create_device recording_os sample_linux v e bs = (Inr dev, v')"
  by (simp add: linux_create_device_def fs_write_def recording_os_def Let_def)

lemma sample_vhci: "\<exists>dev v'. vb_create_device (linux_ops recording_os sample_linux) v e bs = (Inr dev, v')"
  using sample_create by (simp add: linux_ops_def)

lemma sample_import:
  "\<exists>v'. do_import (\<lambda>_. 100) True (linux_ops recording_os sample_linux)
      (Inr (sample_tcp (import_ok_reply sample_remote @ serialize_descriptor_tree sample_tree)))
      bid v = Some (Ret (Inr (sample_remote, serialize_descriptor_tree sample_tree), v'))"
proof -
  obtain dev v' where "vb_create_device (linux_ops recording_os sample_linux) v sample_remote
      (serialize_descriptor_tree sample_tree) = (Inr dev, v')" using sample_vhci by blast
  moreover have "length (serialize_descriptor_tree sample_tree) = 52"
    by (simp add: sample_tree_def serialize_descriptor_tree_def serialize_config_def serialize_interface_def)
  ultimately show ?thesis
    using import_gets_tree [where t = "sample_tcp (import_ok_reply sample_remote @ serialize_descriptor_tree sample_tree)"
        and entry = sample_remote and u = sample_tree and chunk = "\<lambda>_. 100" and bid = bid and ovf = True
        and V = "linux_ops recording_os sample_linux" and v = v and dev = dev and v' = v']
      sample_remote_wf sample_tree_wf
    by (simp add: sample_tcp_def tree_estimate_def)
qed

text \<open>When the first read delivers exactly the 18 bytes of the device descriptor, the import
  accepts them as the whole tree: the configurations that follow in the stream are lost, and the
  device is attached without them.\<close>

theorem import_truncates_tree:
  assumes "rx t = import_ok_reply entry @ r" "tx_ok t = None" "entry_wf entry"
    and "18 \<le> length r" "chunk 0 = 18"
    and "vb_create_device V v entry (take 18 r) = (Inr dev, v')"
  shows "do_import chunk ovf V (Inr t) bid v = Some (Ret (Inr (entry, take 18 r), v'))"
proof -
  let ?t = "t\<lparr>rx := r, tx := tx t @ import_request bid\<rparr>"
  obtain info where "parse_descriptor_tree ovf (take 18 r) = Some (Ret (Some info))"
    using parse_device_only [of "take 18 r"] assms(4) by auto
  then have "read_descriptors chunk ovf 0 [] ?t = Some (Ret (take 18 r, ?t\<lparr>rx := drop 18 r\<rparr>))"
    using read_descriptors_once [where n = 18 and t = ?t and chunk = chunk and ovf = ovf] assms(4,5)
    by (simp add: tree_estimate_def)
  from do_import_descriptors [OF assms(1-3) this, where V = V and v = v] assms(6) show ?thesis by simp
qed

theorem import_truncates_tree_witness:
  "\<exists>v'. do_import (\<lambda>_. 18) True (linux_ops recording_os sample_linux)
      (Inr (sample_tcp (import_ok_reply sample_remote @ replicate 18 1 @ [9, 2, 9, 0, 0, 0, 0, 0, 0])))
      ''1-1'' sample_fs = Some (Ret (Inr (sample_remote, replicate 18 1), v'))"
proof -
  let ?r = "replicate 18 1 @ [9, 2, 9, 0, 0, 0, 0, 0, 0] :: bytes"
  obtain dev v' where "vb_create_device (linux_ops recording_os sample_linux) sample_fs sample_remote
      (take 18 ?r) = (Inr dev, v')" using sample_vhci by blast
  then show ?thesis
    using import_truncates_tree [where t = "sample_tcp (import_ok_reply sample_remote @ ?r)"
        and entry = sample_remote and r = ?r and chunk = "\<lambda>_. 18" and bid = "''1-1''" and ovf = True
        and V = "linux_ops recording_os sample_linux" and v = sample_fs and dev = dev and v' = v']
      sample_remote_wf
    by (simp add: sample_tcp_def)
qed

section \<open>Forwarding and reconnecting\<close>

lemma forwarding_ends:
  assumes "rx t = []" shows "urb_forwarding_loop V stop i t v = (Inr (), v)"
  using assms
  by (subst urb_forwarding_loop.simps)
    (simp add: read_message_def stream_bind_def read_exact_short UsbIpHeader_SIZE_def)

context vhci_sink
begin

lemma forwarding_whole:
  assumes "list_all fr_ok fs" "ok v" "\<And>k. \<not> stop k" "rx t = concat (map fr_bytes fs)"
  shows "\<exists>v'. urb_forwarding_loop V stop 0 t v = (Inr (), v') \<and> ok v'
    \<and> log v' = log v @ concat (map (rec \<circ> fr_event) fs)"
proof -
  have t: "t\<lparr>rx := concat (map fr_bytes fs) @ []\<rparr> = t" using assms(4) by simp
  obtain v' where "urb_forwarding_loop V stop 0 t v = urb_forwarding_loop V stop (0 + length fs) (t\<lparr>rx := []\<rparr>) v'"
      "ok v'" "log v' = log v @ concat (map (rec \<circ> fr_event) fs)"
    using forwarding_log [where stop = stop, OF assms(1-3), where i = 0 and t = t and r = "[]"] unfolding t by blast
  then show ?thesis by (simp add: forwarding_ends)
qed

lemma task_whole:
  assumes "list_all fr_ok fs" "ok v" "\<And>k. \<not> stop k" "entry_wf entry" "tx_ok t = None"
    and "rx t = import_ok_reply entry @ concat (map fr_bytes fs)"
  shows "\<exists>v'. urb_forwarding_task V stop (Inr t) bid v = (Inr (), v') \<and> ok v'
    \<and> log v' = log v @ concat (map (rec \<circ> fr_event) fs)"
  using forwarding_whole [where stop = stop, OF assms(1-3), of "t\<lparr>rx := concat (map fr_bytes fs), tx := tx t @ import_request bid\<rparr>"]
    handshake_entry_granted(2) [OF assms(6,5,4)]
  by (simp add: urb_forwarding_task_def)

end

text \<open>Whatever a server sends, every message that can be read has the size its command asks for.\<close>

lemma read_message_size:
  assumes "read_message t = (Inr frame, t1)"
  obtains h r where "UsbIpHeader_SIZE \<le> length frame"
    "UsbIpHeader_read_from_prefix (take UsbIpHeader_SIZE frame) = Some (h, r)"
    "command h = USBIP_RET_SUBMIT \<Longrightarrow> UsbIpRetSubmit_HEADER_SIZE \<le> length frame - UsbIpHeader_SIZE"
    "command h = USBIP_RET_UNLINK \<Longrightarrow> UsbIpRetUnlink_SIZE \<le> length frame - UsbIpHeader_SIZE"
  using assms
  by (auto simp: read_message_def stream_bind_def stream_ret_def stream_fail_def read_exact_def wire_size_defs
      USBIP_CMD_SUBMIT_def USBIP_RET_SUBMIT_def USBIP_RET_UNLINK_def
      split: if_splits option.splits prod.splits sum.splits)

context vhci_sink
begin

lemma forward_frame_accepted:
  assumes "read_message t = (Inr frame, t1)" "ok v"
  shows "\<exists>v'. forward_frame V frame v = (Inr True, v') \<and> ok v'"
proof -
  obtain h r where h: "UsbIpHeader_SIZE \<le> length frame"
    "UsbIpHeader_read_from_prefix (take UsbIpHeader_SIZE frame) = Some (h, r)"
    "command h = USBIP_RET_SUBMIT \<Longrightarrow> UsbIpRetSubmit_HEADER_SIZE \<le> length frame - UsbIpHeader_SIZE"
    "command h = USBIP_RET_UNLINK \<Longrightarrow> UsbIpRetUnlink_SIZE \<le> length frame - UsbIpHeader_SIZE"
    using read_message_size [OF assms(1)] by metis
  let ?p = "drop UsbIpHeader_SIZE frame"
  consider "command h = USBIP_RET_SUBMIT" | "command h = USBIP_RET_UNLINK"
    | "command h \<noteq> USBIP_RET_SUBMIT" "command h \<noteq> USBIP_RET_UNLINK" by blast
  then show ?thesis
  proof cases
    case 1
    then obtain x where x: "UsbIpRetSubmit_read_from_prefix (take UsbIpRetSubmit_HEADER_SIZE ?p) = Some (x, [])"
      using h(3) ret.dec_total [of "take UsbIpRetSubmit_HEADER_SIZE ?p"] by auto
    obtain v' where "vb_complete_urb V v (ret_seqnum x) (ret_devid x) (ret_status x) (ret_actual_length x)
        (if ret_has_data x then drop UsbIpRetSubmit_HEADER_SIZE ?p else []) = (Inr (), v')" "ok v'"
      using complete_log [OF assms(2)] by (metis surj_pair)
    with 1 h x show ?thesis
      by (simp add: forward_frame_def Let_def USBIP_CMD_SUBMIT_def USBIP_RET_SUBMIT_def)
  next
    case 2
    then obtain x where x: "UsbIpRetUnlink_read_from_prefix (take UsbIpRetUnlink_SIZE ?p) = Some (x, [])"
      using h(4) unlink.dec_total [of "take UsbIpRetUnlink_SIZE ?p"] by auto
    obtain v' where "vb_cancel_urb V v (ul_seqnum x) (ul_devid x) = (Inr (), v')" "ok v'"
      using cancel_log [OF assms(2)] by (metis surj_pair)
    with 2 h x show ?thesis
      by (simp add: forward_frame_def Let_def USBIP_CMD_SUBMIT_def USBIP_RET_SUBMIT_def USBIP_RET_UNLINK_def)
  qed (use h assms(2) in \<open>simp add: forward_frame_def Let_def\<close>)
qed

text \<open>With a controller that takes its events, forwarding never fails: whatever bytes the server sends
  before it closes, the loop returns without an error.\<close>

lemma forwarding_ends_clean:
  assumes "ok v" shows "\<exists>v'. urb_forwarding_loop V stop i t v = (Inr (), v') \<and> ok v'"
  using assms
proof (induction "length (rx t)" arbitrary: i t v rule: less_induct)
  case less
  show ?case
  proof (cases "\<exists>frame t1. read_message t = (Inr frame, t1)")
    case True
    then obtain frame t1 where rd: "read_message t = (Inr frame, t1)" by blast
    then obtain v1 where v1: "forward_frame V frame v = (Inr True, v1)" "ok v1"
      using forward_frame_accepted less.prems by blast
    show ?thesis
      using rd v1 less.hyps [of t1 v1 "Suc i"] read_message_shrinks [OF rd] less.prems
      by (subst urb_forwarding_loop.simps) simp
  next
    case False
    then obtain e t1 where "read_message t = (Inl e, t1)" by (metis old.sum.exhaust surj_pair)
    then show ?thesis using less.prems by (subst urb_forwarding_loop.simps) simp
  qed
qed

lemma task_ends_clean:
  assumes "ok v" "entry_wf entry" "tx_ok t = None" "rx t = import_ok_reply entry @ r"
  shows "\<exists>v'. urb_forwarding_task V stop (Inr t) bid v = (Inr (), v') \<and> ok v'"
  using forwarding_ends_clean [OF assms(1)] handshake_entry_granted(2) [OF assms(4,3,2)]
  by (simp add: urb_forwarding_task_def)

end

text \<open>The replies and unlink notices of a server reach the virtual host controller one for one
  and in order: on a system that accepts writes, the Linux client writes for each of them exactly
  the file that stands for it, with the same sequence number, status, length and data.\<close>

theorem client_completes_in_order:
  assumes "logging_os E ok writes" "ok v" "list_all fr_ok fs" "rx t = concat (map fr_bytes fs)"
  shows "\<exists>v'. urb_forwarding_loop (linux_ops E L) (\<lambda>_. False) 0 t v = (Inr (), v')
    \<and> writes v' = writes v @ concat (map (linux_record L \<circ> fr_event) fs)"
proof -
  have sink: "vhci_sink (linux_ops E L) ok writes (linux_record L)"
    by (rule logging_os.linux_sink [OF assms(1)])
  show ?thesis
    using vhci_sink.forwarding_whole [OF sink assms(3,2), where t = t and stop = "\<lambda>_. False"] assms(4)
    by auto
qed

definition sample_ret :: UsbIpRetSubmit where
  "sample_ret = \<lparr>ret_seqnum = 1, ret_devid = 1, ret_direction = 1, ret_ep = 1,
    ret_status = 0, ret_actual_length = 2, ret_start_frame = 0, ret_number_of_packets = 0,
    ret_error_count = 0, ret_setup = replicate 8 0\<rparr>"

definition sample_frames :: "server_frame list" where
  "sample_frames = [FrRet sample_ret [0xAB, 0xCD], FrUnlink \<lparr>ul_seqnum = 2, ul_devid = 1, ul_status = 0\<rparr>]"

lemma sample_frames_ok: "list_all fr_ok sample_frames"
  by (simp add: sample_frames_def sample_ret_def ret_wf_def ret_data_ok_def ret_has_data_def ret_is_success_def)

theorem client_completes_in_order_witness:
  "\<exists>v'. urb_forwarding_loop (linux_ops recording_os sample_linux) (\<lambda>_. False) 0
      (sample_tcp (concat (map fr_bytes sample_frames))) sample_fs = (Inr (), v')
    \<and> rf_writes v' = [(port_file sample_linux 1 ''urb_complete'', urb_complete_bytes 1 0 2 [0xAB, 0xCD]),
                      (port_file sample_linux 1 ''urb_unlink'', u32_to_be_bytes 2)]"
  using client_completes_in_order [OF recorded.logging_os_axioms TrueI sample_frames_ok,
      where t = "sample_tcp (concat (map fr_bytes sample_frames))" and v = sample_fs and L = sample_linux]
  by (simp add: sample_tcp_def sample_frames_def sample_fs_def sample_ret_def)

text \<open>When a granted session ends because the server closes the connection, the background task
  ends as well, whatever was sent in between: it has connected once and does not try again, whatever
  the reconnect configuration, although the task is documented to reconnect when the connection drops.\<close>

theorem server_close_is_not_retried:
  assumes "logging_os E ok writes" "ok v" "entry_wf entry"
    and "te_net T 0 = Some (Inr t)" "tx_ok t = None" "rx t = import_ok_reply entry @ r"
  shows "\<exists>v'. reconnect_loop T (linux_ops E L) config bid 0 RsActive v = Some (Ret (1, RsActive, v'))"
proof -
  have sink: "vhci_sink (linux_ops E L) ok writes (linux_record L)"
    by (rule logging_os.linux_sink [OF assms(1)])
  obtain v' where "urb_forwarding_task (linux_ops E L) (te_stop T 0) (Inr t) bid v = (Inr (), v')"
    using vhci_sink.task_ends_clean [OF sink assms(2,3,5,6)] by blast
  then show ?thesis using assms(4) by (subst reconnect_loop.simps) simp
qed

definition sample_task :: "tcp \<Rightarrow> task_env" where
  "sample_task t = \<lparr>te_f64 = exact_f64, te_jitter = (\<lambda>_. 0), te_net = (\<lambda>_. Some (Inr t)), te_stop = (\<lambda>_ _. False)\<rparr>"

theorem server_close_is_not_retried_witness:
  "\<exists>v'. reconnect_loop (sample_task (sample_tcp (import_ok_reply sample_remote @ concat (map fr_bytes sample_frames))))
      (linux_ops recording_os sample_linux) ClientConfig_default ''1-1'' 0 RsActive sample_fs
    = Some (Ret (1, RsActive, v'))"
  by (rule server_close_is_not_retried [OF recorded.logging_os_axioms TrueI sample_remote_wf,
        where t = "sample_tcp (import_ok_reply sample_remote @ concat (map fr_bytes sample_frames))"])
    (simp_all add: sample_task_def sample_tcp_def)

text \<open>A refused import is final: whatever status the server sends, the task stops after one
  connection and never retries.\<close>

theorem import_rejected_is_final:
  assumes "te_net T 0 = Some (Inr t)" "tx_ok t = None" "st \<noteq> STATUS_SUCCESS"
    and "rx t = UsbIpHeader_as_bytes (UsbIpHeader_with_status OP_REP_IMPORT st) @ r"
  shows "\<exists>s. reconnect_loop T V config bid 0 RsActive v = Some (Ret (1, s, v))"
proof -
  obtain m t' where h: "import_handshake bid t = (Inl (DeviceBusy m), t')"
    using handshake_rejected [OF assms(4,2,3)] by blast
  then have "urb_forwarding_task V (te_stop T 0) (Inr t) bid v = (Inl (DeviceBusy m), v)"
    by (simp add: urb_forwarding_task_def tcp_connect_and_import_def stream_bind_def)
  then show ?thesis using assms(1)
    by (subst reconnect_loop.simps)
      (simp add: decide_reconnect_def on_error_def ErrorKind_category_def)
qed

theorem import_rejected_is_final_witness:
  "\<exists>s. reconnect_loop (sample_task (sample_tcp (UsbIpHeader_as_bytes
        (UsbIpHeader_with_status OP_REP_IMPORT STATUS_ST_DEV_BUSY))))
      (linux_ops recording_os sample_linux) ClientConfig_default ''1-1'' 0 RsActive sample_fs
    = Some (Ret (1, s, sample_fs))"
  by (rule import_rejected_is_final [where st = STATUS_ST_DEV_BUSY and r = "[]" and t = "sample_tcp
        (UsbIpHeader_as_bytes (UsbIpHeader_with_status OP_REP_IMPORT STATUS_ST_DEV_BUSY))"])
    (simp_all add: sample_task_def sample_tcp_def STATUS_ST_DEV_BUSY_def STATUS_SUCCESS_def)

text \<open>The attempt the next transient error would use.\<close>

definition next_attempt :: "ReconnectState \<Rightarrow> nat" where
  "next_attempt s = (case s of BackOff a _ \<Rightarrow> Suc a | _ \<Rightarrow> 0)"

lemma decide_retry_attempt:
  assumes "decide_reconnect F jit (Some cat) cfg s = Ret (RetryAfter d, s')" "max_retries cfg = Some n"
  shows "next_attempt s < n \<and> next_attempt s' = Suc (next_attempt s)"
proof (cases cat)
  case Transient
  obtain a where a: "a = next_attempt s" "on_error F jit cfg cat s =
      (if should_retry cfg a then obind (delay_for_attempt F jit cfg a) (\<lambda>d. Ret (BackOff a d)) else Ret RsStopped)"
    using Transient by (cases s) (simp_all add: on_error_def next_attempt_def)
  then have "should_retry cfg a" using assms(1) by (auto simp: decide_reconnect_def split: if_splits)
  moreover from this have "s' = BackOff a d"
    using assms(1) a by (cases "delay_for_attempt F jit cfg a") (auto simp: decide_reconnect_def)
  ultimately show ?thesis using a(1) assms(2) by (simp add: should_retry_def next_attempt_def)
qed (use assms(1) in \<open>simp_all add: decide_reconnect_def on_error_def\<close>)

lemma reconnect_loop_bounded:
  assumes "max_retries (cc_reconnect config) = Some n" "next_attempt s \<le> n"
    and "\<And>j. i \<le> j \<Longrightarrow> j \<le> i + (n - next_attempt s) \<Longrightarrow> te_net T j \<noteq> None"
  shows "\<exists>r. reconnect_loop T V config bid i s v = Some r
    \<and> (\<forall>k s' v'. r = Ret (k, s', v') \<longrightarrow> k \<le> i + (n - next_attempt s) + 1)"
  using assms(2,3)
proof (induction "n - next_attempt s" arbitrary: i s v rule: less_induct)
  case less
  obtain conn where conn: "te_net T i = Some conn" using less.prems(2) [of i] by auto
  obtain res v1 where task: "urb_forwarding_task V (te_stop T i) conn bid v = (res, v1)" by force
  show ?case
  proof (cases res)
    case (Inr _)
    then show ?thesis using task conn by (subst reconnect_loop.simps) simp
  next
    case (Inl e)
    define dec where "dec = decide_reconnect (te_f64 T) (te_jitter T i) (Some (ErrorKind_category e))
      (cc_reconnect config) s"
    have retry: "\<exists>r. reconnect_loop T V config bid (Suc i) s1 v1 = Some r
        \<and> (\<forall>k s' v'. r = Ret (k, s', v') \<longrightarrow> k \<le> i + (n - next_attempt s) + 1)"
      if "dec = Ret (RetryAfter d, s1)" for d s1
    proof -
      have "next_attempt s < n" "next_attempt s1 = Suc (next_attempt s)"
        using decide_retry_attempt [OF that [unfolded dec_def] assms(1)] by auto
      moreover from this have "te_net T j \<noteq> None" if "Suc i \<le> j" "j \<le> Suc i + (n - next_attempt s1)" for j
        using less.prems(2) [of j] that by auto
      ultimately show ?thesis using less.hyps [of s1 "Suc i" v1] by fastforce
    qed
    show ?thesis
      using task conn Inl retry
      by (subst reconnect_loop.simps)
        (auto simp: dec_def [symmetric] split: outcome.splits prod.splits ReconnectDecision.splits)
  qed
qed

text \<open>C19: With a limit of \<open>n\<close> retries the background task ends after at most \<open>n + 1\<close> connections (or
  with a panic in the backoff), provided each of these connections ends, in whatever way: refused,
  broken or closed by the peer. The limit is for the whole life of the task: a session that worked in
  between does not start the count again. While a connection is up the task goes on.\<close>

theorem reconnect_gives_up:
  assumes "max_retries (cc_reconnect config) = Some n" "\<And>i. i \<le> n \<Longrightarrow> te_net T i \<noteq> None"
  shows "\<exists>r. reconnect_loop T V config bid 0 RsActive v = Some r
    \<and> (case r of Ret (k, s, v') \<Rightarrow> k \<le> n + 1 | Panic \<Rightarrow> True)"
  using reconnect_loop_bounded [OF assms(1), of RsActive 0 T V bid v] assms(2)
  by (auto simp: next_attempt_def split: outcome.splits prod.splits)

lemma reconnect_waits: "te_net T i = None \<Longrightarrow> reconnect_loop T V config bid i s v = None"
  by (subst reconnect_loop.simps) simp

theorem reconnect_gives_up_witness:
  "\<exists>r. reconnect_loop (sample_task (sample_tcp [])) (linux_ops recording_os sample_linux)
      (ClientConfig_default\<lparr>cc_reconnect := with_max_retries 3\<rparr>) ''1-1'' 0 RsActive sample_fs = Some r
    \<and> (case r of Ret (k, s, v') \<Rightarrow> k \<le> 3 + 1 | Panic \<Rightarrow> True)"
  by (rule reconnect_gives_up) (simp_all add: with_max_retries_def sample_task_def)

end
