(* ===== verification/Hotplug.thy ===== *)
theory Hotplug
  imports Usbip_Protocol
begin

text \<open>
  \<^verbatim>\<open>server/usbip-server/src/hotplug.rs\<close>: the monitor that forwards the events of a hotplug source
  through a channel. The source is a function of the number of polls so far. The background thread
  and the receiver take turns in any order; the channel is the queue between them, without a bound.
\<close>

datatype HotplugEvent =
    Attached string u16 u16
  | Detached string string

definition NoopHotplugSource :: "nat \<Rightarrow> HotplugEvent option" where
  "NoopHotplugSource _ = None"

record HotplugMonitor =
  hm_polls :: nat
  hm_running :: bool
  hm_queue :: "HotplugEvent list"
  hm_receiver :: bool

definition HotplugMonitor_new :: HotplugMonitor where
  "HotplugMonitor_new = \<lparr>hm_polls = 0, hm_running = True, hm_queue = [], hm_receiver = True\<rparr>"

text \<open>One turn of the thread's loop. Sending fails when the receiver is gone.\<close>

definition poll_turn :: "(nat \<Rightarrow> HotplugEvent option) \<Rightarrow> HotplugMonitor \<Rightarrow> HotplugMonitor" where
  "poll_turn source m =
     (let m' = m\<lparr>hm_polls := Suc (hm_polls m)\<rparr> in
      case source (hm_polls m) of
        Some event \<Rightarrow>
          (if hm_receiver m then m'\<lparr>hm_queue := hm_queue m @ [event]\<rparr> else m'\<lparr>hm_running := False\<rparr>)
      | None \<Rightarrow> m')"

definition try_recv :: "HotplugMonitor \<Rightarrow> HotplugEvent option \<times> HotplugMonitor" where
  "try_recv m = (case hm_queue m of [] \<Rightarrow> (None, m) | e # es \<Rightarrow> (Some e, m\<lparr>hm_queue := es\<rparr>))"

text \<open>The blocking \<^verbatim>\<open>recv\<close>: \<open>None\<close> while it blocks, \<open>Some (None, _)\<close> when the sender is gone.\<close>

definition recv_event :: "HotplugMonitor \<Rightarrow> (HotplugEvent option \<times> HotplugMonitor) option" where
  "recv_event m =
     (case hm_queue m of
        e # es \<Rightarrow> Some (Some e, m\<lparr>hm_queue := es\<rparr>)
      | [] \<Rightarrow> if hm_running m then None else Some (None, m))"

text \<open>The monitor with the events handed out so far.\<close>

inductive hotplug_step ::
  "(nat \<Rightarrow> HotplugEvent option) \<Rightarrow> HotplugMonitor \<times> HotplugEvent list \<Rightarrow> HotplugMonitor \<times> HotplugEvent list \<Rightarrow> bool"
  for source :: "nat \<Rightarrow> HotplugEvent option" where
  thread: "hm_running m \<Longrightarrow> hotplug_step source (m, out) (poll_turn source m, out)"
| poll_channel: "hm_receiver m \<Longrightarrow> try_recv m = (r, m') \<Longrightarrow>
    hotplug_step source (m, out) (m', out @ (case r of Some e \<Rightarrow> [e] | None \<Rightarrow> []))"
| block: "hm_receiver m \<Longrightarrow> recv_event m = Some (r, m') \<Longrightarrow>
    hotplug_step source (m, out) (m', out @ (case r of Some e \<Rightarrow> [e] | None \<Rightarrow> []))"
| close: "hm_receiver m \<Longrightarrow> hotplug_step source (m, out) (m\<lparr>hm_receiver := False\<rparr>, out)"

inductive_cases hotplug_stepE: "hotplug_step source s s'"

text \<open>What the source gave in its first polls.\<close>

definition polled :: "(nat \<Rightarrow> HotplugEvent option) \<Rightarrow> nat \<Rightarrow> HotplugEvent list" where
  "polled source n = List.map_filter source [0..<n]"

lemma polled_Suc: "polled source (Suc n) = polled source n @ (case source n of Some e \<Rightarrow> [e] | None \<Rightarrow> [])"
  by (simp add: polled_def List.map_filter_def split: option.splits)

definition hotplug_inv :: "(nat \<Rightarrow> HotplugEvent option) \<Rightarrow> HotplugMonitor \<times> HotplugEvent list \<Rightarrow> bool" where
  "hotplug_inv source s \<longleftrightarrow>
     (hm_receiver (fst s) \<longrightarrow> hm_running (fst s) \<and> snd s @ hm_queue (fst s) = polled source (hm_polls (fst s)))
     \<and> (\<exists>rest. polled source (hm_polls (fst s)) = snd s @ rest)"

lemma hotplug_inv_new: "hotplug_inv source (HotplugMonitor_new, [])"
  by (simp add: hotplug_inv_def HotplugMonitor_new_def polled_def List.map_filter_def)

lemma hotplug_inv_step: "hotplug_step source s s' \<Longrightarrow> hotplug_inv source s \<Longrightarrow> hotplug_inv source s'"
proof (induction rule: hotplug_step.induct)
  case (thread m out)
  then show ?case
    by (auto simp: hotplug_inv_def poll_turn_def polled_Suc Let_def split: option.splits)
next
  case (poll_channel m r m' out)
  then show ?case by (auto simp: hotplug_inv_def try_recv_def split: list.splits)
next
  case (block m r m' out)
  then show ?case by (auto simp: hotplug_inv_def recv_event_def split: list.splits if_splits)
next
  case (close m out)
  then show ?case by (auto simp: hotplug_inv_def)
qed

lemma hotplug_reachable:
  assumes "(hotplug_step source)\<^sup>*\<^sup>* (HotplugMonitor_new, []) s"
  shows "hotplug_inv source s"
  using assms by (induction rule: rtranclp_induct) (auto intro: hotplug_inv_new hotplug_inv_step)

text \<open>C25: Hotplug events are delivered in the order of the source, none twice and none lost: however the
  polling thread and the receiver interleave, the events handed out are at every moment a prefix of
  those the source has given, and as long as the receiver is not dropped the others, in order, are
  what waits in the channel.\<close>

theorem hotplug_fifo:
  assumes "(hotplug_step source)\<^sup>*\<^sup>* (HotplugMonitor_new, []) (m, out)"
  shows "(\<exists>rest. polled source (hm_polls m) = out @ rest)
    \<and> (hm_receiver m \<longrightarrow> out @ hm_queue m = polled source (hm_polls m))"
  using hotplug_reachable [OF assms] by (simp add: hotplug_inv_def)

text \<open>The thread does not end when the source returns \<open>None\<close>: it ends only when a send finds the receiver
  dropped.\<close>

lemma hotplug_thread_survives:
  assumes "(hotplug_step source)\<^sup>*\<^sup>* (HotplugMonitor_new, []) (m, out)" "hm_receiver m"
  shows "hm_running m"
  using hotplug_reachable [OF assms(1)] assms(2) by (simp add: hotplug_inv_def)

definition two_events :: "nat \<Rightarrow> HotplugEvent option" where
  "two_events n = (if n = 1 then Some (Attached ''3-2'' 0x046d 0xc261)
     else if n = 2 then Some (Detached ''3-2'' ''c'') else None)"

text \<open>A run in which the source has given two events and one was received.\<close>

theorem hotplug_fifo_witness:
  "\<exists>m rest. (hotplug_step two_events)\<^sup>*\<^sup>* (HotplugMonitor_new, []) (m, [Attached ''3-2'' 0x046d 0xc261])
     \<and> polled two_events (hm_polls m) = [Attached ''3-2'' 0x046d 0xc261] @ rest
     \<and> hm_queue m = [Detached ''3-2'' ''c''] \<and> rest = [Detached ''3-2'' ''c'']"
proof -
  let ?a = "Attached ''3-2'' 0x046d 0xc261" and ?d = "Detached ''3-2'' ''c''"
  let ?m = "\<lambda>n q. \<lparr>hm_polls = n, hm_running = True, hm_queue = q, hm_receiver = True\<rparr>"
  note step = converse_rtranclp_into_rtranclp [of "hotplug_step two_events"]
  have 1: "hotplug_step two_events (HotplugMonitor_new, []) (?m 1 [], [])"
    using hotplug_step.thread [of HotplugMonitor_new two_events "[]"]
    by (simp add: poll_turn_def two_events_def HotplugMonitor_new_def)
  have 2: "hotplug_step two_events (?m 1 [], []) (?m 2 [?a], [])"
    using hotplug_step.thread [of "?m 1 []" two_events "[]"] by (simp add: poll_turn_def two_events_def numeral_2_eq_2)
  have 3: "hotplug_step two_events (?m 2 [?a], []) (?m 3 [?a, ?d], [])"
    using hotplug_step.thread [of "?m 2 [?a]" two_events "[]"] by (simp add: poll_turn_def two_events_def)
  have 4: "hotplug_step two_events (?m 3 [?a, ?d], []) (?m 3 [?d], [?a])"
    using hotplug_step.poll_channel [of "?m 3 [?a, ?d]" "Some ?a" "?m 3 [?d]" two_events "[]"] by (simp add: try_recv_def)
  have reach: "(hotplug_step two_events)\<^sup>*\<^sup>* (HotplugMonitor_new, []) (?m 3 [?d], [?a])"
    by (rule step [OF 1 step [OF 2 step [OF 3 step [OF 4 rtranclp.rtrancl_refl]]]])
  from hotplug_fifo [OF this] reach show ?thesis by (intro exI [of _ "?m 3 [?d]"]) auto
qed

end
