(* ===== verification/Iokit.thy ===== *)
theory Iokit
  imports Usb_Manager
begin

text \<open>
  \<^verbatim>\<open>server/usbip-server/src/iokit_backend.rs\<close>: the macOS backend. The services of the I/O registry
  are a list of property tables (\<open>None\<close> when the registry cannot be matched); a property is a
  number, a string or something else. How CoreFoundation converts a number to a C integer of some
  width is a parameter. The operations are those of the trait, and the backend satisfies the
  contract \<open>usb_backend\<close> the server relies on.
\<close>

section \<open>Properties\<close>

datatype cf_value = CFNumber int | CFString string | CFOther

type_synonym io_service = "string \<Rightarrow> cf_value option"

text \<open>\<^verbatim>\<open>CFNumberGetValue\<close> by width: the bit pattern, or \<open>None\<close> when the call reports failure.\<close>

record cf_env =
  cf_number16 :: "int \<Rightarrow> u16 option"
  cf_number8 :: "int \<Rightarrow> u8 option"
  cf_number32 :: "int \<Rightarrow> u32 option"

text \<open>The conversion of a CoreFoundation string fails for the empty string.\<close>

definition cfstring_to_string :: "string \<Rightarrow> string option" where
  "cfstring_to_string s = (if s = [] then None else Some (str_of_bytes (until_nul (as_bytes s))))"

function trim_0x :: "string \<Rightarrow> string" where
  "trim_0x s = (if take 2 s = ''0x'' then trim_0x (drop 2 s) else s)"
  by pat_completeness auto
termination
proof (relation "measure length", goal_cases)
  case (2 s)
  then show ?case by (cases s) auto
qed simp

declare trim_0x.simps [simp del]

definition get_iokit_u16 :: "cf_env \<Rightarrow> io_service \<Rightarrow> string \<Rightarrow> u16 option" where
  "get_iokit_u16 CF service key =
     (case service key of
        Some (CFNumber n) \<Rightarrow> cf_number16 CF n
      | Some (CFString s) \<Rightarrow>
          (case cfstring_to_string s of
             Some t \<Rightarrow> map_option of_nat (parse_unsigned 65536 16 (trim_0x t)) | None \<Rightarrow> None)
      | _ \<Rightarrow> None)"

definition get_iokit_u8 :: "cf_env \<Rightarrow> io_service \<Rightarrow> string \<Rightarrow> u8 option" where
  "get_iokit_u8 CF service key = (case service key of Some (CFNumber n) \<Rightarrow> cf_number8 CF n | _ \<Rightarrow> None)"

definition get_iokit_u32 :: "cf_env \<Rightarrow> io_service \<Rightarrow> string \<Rightarrow> u32 option" where
  "get_iokit_u32 CF service key = (case service key of Some (CFNumber n) \<Rightarrow> cf_number32 CF n | _ \<Rightarrow> None)"

definition unwrap_or :: "'a option \<Rightarrow> 'a \<Rightarrow> 'a" where
  "unwrap_or a b = (case a of Some x \<Rightarrow> x | None \<Rightarrow> b)"

section \<open>Enumeration\<close>

definition iokit_speed :: "u8 \<Rightarrow> u32" where
  "iokit_speed v =
     (if v = 0 then 1 else if v = 1 then 2 else if v = 2 then 3 else if v = 3 then 5
      else if v = 4 then 6 else 3)"

definition enumerate_one_device :: "cf_env \<Rightarrow> io_service \<Rightarrow> u32 \<Rightarrow> UsbIpDeviceEntry option" where
  "enumerate_one_device CF service index =
     (case get_iokit_u16 CF service ''idVendor'' of
        None \<Rightarrow> None
      | Some vendor_id \<Rightarrow>
        (case get_iokit_u16 CF service ''idProduct'' of
           None \<Rightarrow> None
         | Some product_id \<Rightarrow>
           (let location_id = unwrap_or (get_iokit_u32 CF service ''locationID'') index;
                bus = ucast (drop_bit 16 location_id AND 0xFF) :: u8;
                dev = ucast (location_id AND 0xFF) :: u8;
                bid = show_dec (unat bus) @ ''-'' @ show_dec (unat dev) in
            Some \<lparr>dev_path = copy_padded 256 255 (''/sys/bus/usb/devices/'' @ bid),
                  dev_busid = copy_padded 32 31 bid, busnum = ucast bus, devnum = ucast dev,
                  speed = iokit_speed (unwrap_or (get_iokit_u8 CF service ''speed'') 0),
                  id_vendor = vendor_id, id_product = product_id,
                  bcd_device = unwrap_or (get_iokit_u16 CF service ''bcdDevice'') 0,
                  b_device_class = unwrap_or (get_iokit_u8 CF service ''bDeviceClass'') 0,
                  b_device_sub_class = unwrap_or (get_iokit_u8 CF service ''bDeviceSubClass'') 0,
                  b_device_protocol = unwrap_or (get_iokit_u8 CF service ''bDeviceProtocol'') 0,
                  b_configuration_value = 1,
                  b_num_configurations = unwrap_or (get_iokit_u8 CF service ''bNumConfigurations'') 1,
                  b_num_interfaces = unwrap_or (get_iokit_u8 CF service ''bNumInterfaces'') 0\<rparr>)))"

fun enumerate_services :: "cf_env \<Rightarrow> io_service list \<Rightarrow> u32 \<Rightarrow> UsbIpDeviceEntry list" where
  "enumerate_services CF [] index = []"
| "enumerate_services CF (s # ss) index =
     (case enumerate_one_device CF s index of Some e \<Rightarrow> [e] | None \<Rightarrow> [])
     @ enumerate_services CF ss (index + 1)"

section \<open>The backend\<close>

record IokitBackend =
  ik_services :: "io_service list option"
  ik_claimed :: "string \<rightharpoonup> u32"

definition iokit_list_devices :: "cf_env \<Rightarrow> IokitBackend \<Rightarrow> UsbIpDeviceEntry list" where
  "iokit_list_devices CF b =
     (case ik_services b of None \<Rightarrow> [] | Some ss \<Rightarrow> enumerate_services CF ss 0)"

definition iokit_get_device_entry :: "cf_env \<Rightarrow> IokitBackend \<Rightarrow> string \<Rightarrow> UsbIpDeviceEntry option" where
  "iokit_get_device_entry CF b bid =
     (if length (split_on (CHR ''-'') bid) < 2 then None
      else find (\<lambda>d. busid_str d = bid) (iokit_list_devices CF b))"

definition find_service :: "string \<Rightarrow> u32 UsbIpResult" where
  "find_service bid = (if CHR ''-'' \<in> set bid then Inr 0 else Inl (DeviceNotFound bid))"

definition iokit_claim_device :: "IokitBackend \<Rightarrow> string \<Rightarrow> unit UsbIpResult \<times> IokitBackend" where
  "iokit_claim_device b bid =
     (case find_service bid of
        Inl e \<Rightarrow> (Inl e, b) | Inr service \<Rightarrow> (Inr (), b\<lparr>ik_claimed := (ik_claimed b)(bid \<mapsto> service)\<rparr>))"

definition iokit_release_device :: "IokitBackend \<Rightarrow> string \<Rightarrow> unit UsbIpResult \<times> IokitBackend" where
  "iokit_release_device b bid = (Inr (), b\<lparr>ik_claimed := (ik_claimed b)(bid := None)\<rparr>)"

definition placeholder :: DeviceDescriptor where
  "placeholder =
     \<lparr>dd_length = 18, dd_descriptor_type = 1, dd_bcd_usb = 0x0200, dd_device_class = 0, dd_device_sub_class = 0,
      dd_device_protocol = 0, dd_max_packet_size0 = 64, dd_id_vendor = 0, dd_id_product = 0,
      dd_bcd_device = 0x0100, dd_manufacturer = 0, dd_product = 0, dd_serial_number = 0,
      dd_num_configurations = 1\<rparr>"

definition get_descriptor_tree_from_iokit :: "string \<Rightarrow> bytes UsbIpResult" where
  "get_descriptor_tree_from_iokit bid =
     (if length (split_on (CHR ''-'') bid) < 2 then Inl (DeviceNotFound bid)
      else Inr (DeviceDescriptor_to_bytes placeholder))"

definition iokit_get_descriptor_tree :: "IokitBackend \<Rightarrow> string \<Rightarrow> bytes UsbIpResult" where
  "iokit_get_descriptor_tree b bid =
     (case find_service bid of Inl e \<Rightarrow> Inl e | Inr _ \<Rightarrow> get_descriptor_tree_from_iokit bid)"

text \<open>The long dash of the message is its UTF-8 encoding.\<close>

definition iokit_execute_urb ::
  "IokitBackend \<Rightarrow> string \<Rightarrow> UsbIpCmdSubmit \<Rightarrow> bytes \<Rightarrow> UrbTransferResult UsbIpResult \<times> IokitBackend" where
  "iokit_execute_urb b bid cmd out =
     (Inl (NotSupported (''IOKit URB execution not yet implemented '' @ [CHR 0xE2, CHR 0x80, CHR 0x94]
        @ '' use rusb backend on macOS'')), b)"

definition Iokit_ops :: "cf_env \<Rightarrow> IokitBackend UsbBackend" where
  "Iokit_ops CF =
     \<lparr>be_list_devices = iokit_list_devices CF, be_get_device_entry = iokit_get_device_entry CF,
      be_claim_device = iokit_claim_device, be_get_descriptor_tree = iokit_get_descriptor_tree,
      be_execute_urb = iokit_execute_urb, be_release_device = iokit_release_device\<rparr>"

section \<open>The contract\<close>

lemma enumerated_wf: "enumerate_one_device CF s i = Some e \<Longrightarrow> entry_wf e"
  by (auto simp: enumerate_one_device_def entry_wf_def Let_def split: option.splits)

lemma enumerate_services_one:
  "e \<in> set (enumerate_services CF ss i) \<Longrightarrow> \<exists>s j. s \<in> set ss \<and> enumerate_one_device CF s j = Some e"
proof (induction CF ss i rule: enumerate_services.induct)
  case (2 CF s ss index)
  then show ?case by (cases "enumerate_one_device CF s index") auto
qed simp

lemma iokit_listed: "e \<in> set (iokit_list_devices CF b) \<Longrightarrow> \<exists>s j. enumerate_one_device CF s j = Some e"
  unfolding iokit_list_devices_def using enumerate_services_one by (cases "ik_services b") fastforce+

interpretation iokit: usb_backend "Iokit_ops CF" "\<lambda>_. True" for CF
  by unfold_locales
    (auto simp: Iokit_ops_def iokit_execute_urb_def dest!: iokit_listed enumerated_wf)

section \<open>Finding a listed device\<close>

lemma enumerated_numbers:
  assumes "enumerate_one_device CF s i = Some e"
  shows "\<exists>bn dn. busnum e = ucast bn \<and> devnum e = ucast dn \<and> busid_str e = format_busid bn dn"
proof -
  obtain bn dn where e: "busnum e = ucast bn" "devnum e = ucast dn" "dev_busid e = copy_padded 32 31 (format_busid bn dn)"
    using assms by (auto simp: enumerate_one_device_def Let_def format_busid_def split: option.splits)
  have "busid_str e = format_busid bn dn"
    by (rule busid_str_copied [OF e(3) length_format_busid]) (rule ascii_valid [OF format_busid_chars])+
  with e show ?thesis by blast
qed

lemma ucast_u8_inj: "ucast x = (ucast y :: u32) \<longleftrightarrow> x = y" for x y :: u8
proof -
  have "unat (ucast z :: u32) = unat z" for z :: u8
    using unsigned_less [of z, where ?'a = nat] by (simp add: unsigned_ucast_eq take_bit_eq_mod)
  then show ?thesis by (metis word_unat_eq_iff)
qed

text \<open>C29: Every device the macOS backend lists can be found again under its bus id, by the manager,
  which compares the numbers, as by the backend itself, which compares the text; both return an
  entry with that bus id. Devices whose locations agree in two of their four bytes share one.\<close>

theorem iokit_listed_device_found:
  assumes "e \<in> set (list_devices (Iokit_ops CF) m)"
  shows "\<exists>e1 e2. get_device_entry (Iokit_ops CF) m (busid_str e) = Some e1 \<and> busid_str e1 = busid_str e
    \<and> be_get_device_entry (Iokit_ops CF) (um_backend m) (busid_str e) = Some e2 \<and> busid_str e2 = busid_str e"
proof -
  let ?l = "iokit_list_devices CF (um_backend m)"
  have l: "e \<in> set ?l" using assms by (simp add: list_devices_def Iokit_ops_def)
  have numbers: "\<exists>bn dn. busnum x = ucast bn \<and> devnum x = ucast dn \<and> busid_str x = format_busid bn dn"
    if "x \<in> set ?l" for x
    using iokit_listed [OF that] enumerated_numbers by blast
  obtain bn dn where e: "busnum e = ucast bn" "devnum e = ucast dn" "busid_str e = format_busid bn dn"
    using numbers [OF l] by blast
  let ?P = "\<lambda>d. busnum d = ucast bn \<and> devnum d = ucast dn"
  obtain e1 where e1: "find ?P ?l = Some e1" "e1 \<in> set ?l" "?P e1"
    using l e by (cases "find ?P ?l") (auto simp: find_None_iff find_Some_iff)
  obtain b1 d1 where n1: "busnum e1 = ucast b1" "devnum e1 = ucast d1" "busid_str e1 = format_busid b1 d1"
    using numbers [OF e1(2)] by blast
  have "busid_str e1 = busid_str e" using e1(3) n1 e(3) by (simp add: ucast_u8_inj)
  moreover have "get_device_entry (Iokit_ops CF) m (busid_str e) = Some e1"
    using e1(1) e(3)
    by (simp add: get_device_entry_def find_entry_def parse_busid_format_eq list_devices_def Iokit_ops_def)
  moreover obtain e2 where e2: "find (\<lambda>d. busid_str d = busid_str e) ?l = Some e2" "busid_str e2 = busid_str e"
    using l by (cases "find (\<lambda>d. busid_str d = busid_str e) ?l") (auto simp: find_None_iff find_Some_iff)
  moreover have "\<not> length (split_on (CHR ''-'') (busid_str e)) < 2"
    by (simp add: e(3) format_busid_def split_on_append split_on_no_sep dash_not_in_show_dec)
  ultimately show ?thesis by (auto simp: Iokit_ops_def iokit_get_device_entry_def)
qed

definition signed_cf :: cf_env where
  "signed_cf =
     \<lparr>cf_number16 = (\<lambda>n. if - (2 ^ 15) \<le> n \<and> n < 2 ^ 15 then Some (word_of_int n) else None),
      cf_number8 = (\<lambda>n. if - (2 ^ 7) \<le> n \<and> n < 2 ^ 7 then Some (word_of_int n) else None),
      cf_number32 = (\<lambda>n. if - (2 ^ 31) \<le> n \<and> n < 2 ^ 31 then Some (word_of_int n) else None)\<rparr>"

definition sample_service :: "int \<Rightarrow> io_service" where
  "sample_service pid = [''idVendor'' \<mapsto> CFNumber 0x046d, ''idProduct'' \<mapsto> CFNumber pid,
     ''locationID'' \<mapsto> CFNumber 0x14120003]"

definition sample_iokit :: "int \<Rightarrow> IokitBackend UsbDeviceManager" where
  "sample_iokit pid = with_backend \<lparr>ik_services = Some [sample_service pid], ik_claimed = Map.empty\<rparr>"

lemma sample_listed:
  "list_devices (Iokit_ops signed_cf) (sample_iokit 0x1234) \<noteq> []"
  by (simp add: list_devices_def Iokit_ops_def iokit_list_devices_def sample_iokit_def with_backend_def
      sample_service_def enumerate_one_device_def get_iokit_u16_def signed_cf_def Let_def)

theorem iokit_listed_device_found_witness:
  "\<exists>e e1. e \<in> set (list_devices (Iokit_ops signed_cf) (sample_iokit 0x1234))
    \<and> get_device_entry (Iokit_ops signed_cf) (sample_iokit 0x1234) (busid_str e) = Some e1 \<and> busid_str e1 = busid_str e"
proof -
  obtain e where e: "e \<in> set (list_devices (Iokit_ops signed_cf) (sample_iokit 0x1234))"
    using sample_listed by (meson ex_in_conv set_empty)
  from iokit_listed_device_found [OF e] e show ?thesis by blast
qed

text \<open>A device whose product number is 32768 or more is not listed at all on macOS: the
  property is read as a signed 16-bit number, and CoreFoundation reports the conversion of such a
  number as failed.\<close>

theorem iokit_large_product_skipped:
  assumes "\<And>n. 2 ^ 15 \<le> n \<Longrightarrow> cf_number16 CF n = None"
    and "service ''idProduct'' = Some (CFNumber n)" "2 ^ 15 \<le> n"
  shows "enumerate_one_device CF service index = None"
  using assms by (simp add: enumerate_one_device_def get_iokit_u16_def split: option.splits)

theorem iokit_large_product_skipped_witness:
  "enumerate_one_device signed_cf (sample_service 0xc261) 0 = None"
  by (rule iokit_large_product_skipped [where n = "0xc261"]) (simp_all add: signed_cf_def sample_service_def)

text \<open>The descriptor tree of every device is the placeholder: no vendor, no product, no configuration.\<close>

lemma iokit_placeholder_tree:
  assumes "CHR ''-'' \<in> set bid"
  shows "\<exists>raw. iokit_get_descriptor_tree b bid = Inr raw
    \<and> parse_descriptor_tree ovf raw = Some (Ret (Some \<lparr>ud_device = placeholder, ud_configs = []\<rparr>))"
proof -
  obtain xs ys where bid: "bid = xs @ CHR ''-'' # ys" "CHR ''-'' \<notin> set xs" using split_list_first [OF assms] by blast
  then have "length (split_on (CHR ''-'') bid) = Suc (length (split_on (CHR ''-'') ys))" by (simp add: split_on_append)
  then have "\<not> length (split_on (CHR ''-'') bid) < 2" by (cases "split_on (CHR ''-'') ys") simp_all
  moreover have "DeviceDescriptor_parse (DeviceDescriptor_to_bytes placeholder) = Some placeholder"
    using descriptor_parse_written(1) [of placeholder "[]"] by simp
  moreover have "length (DeviceDescriptor_to_bytes placeholder) = 18"
    by (simp add: DeviceDescriptor_to_bytes_def)
  ultimately show ?thesis using assms
    by (simp add: iokit_get_descriptor_tree_def find_service_def get_descriptor_tree_from_iokit_def
        parse_descriptor_tree_def parse_configs.simps DeviceDescriptor_SIZE_def)
qed

end
