(* ===== verification/Discovery.thy ===== *)
theory Discovery
  imports Usb_Backend "HOL-Library.AList"
begin

text \<open>
  \<^verbatim>\<open>server/usbip-server/src/discovery.rs\<close> and \<^verbatim>\<open>client/usbip-client/src/discovery.rs\<close>: the
  advertisement of a server with its devices and the two browsers. The \<^verbatim>\<open>mdns-sd\<close> crate is a
  parameter, with a state of its own. What a receiver delivers is a list of events or errors; the
  list ends when the time is over. A hash map is an association list in order of insertion, and
  the order of its values is not specified.
\<close>

section \<open>The advertisement\<close>

definition device_txt :: "UsbIpDeviceEntry \<Rightarrow> string" where
  "device_txt d =
     ''vid=0x'' @ show_hex_pad 4 (unat (entry_vid d)) @ '',pid=0x'' @ show_hex_pad 4 (unat (entry_pid d))
     @ '',bus='' @ busid_str d
     @ '',n='' @ show_hex_pad 4 (unat (entry_vid d)) @ '':'' @ show_hex_pad 4 (unat (entry_pid d))"

definition encode_devices_txt :: "UsbIpDeviceEntry list \<Rightarrow> string" where
  "encode_devices_txt devices = join_str '','' (map device_txt devices)"

record service_info =
  si_type :: string
  si_fullname :: string
  si_addresses :: "string list"
  si_port :: u16
  si_properties :: "(string \<times> string) list"

datatype service_event = SearchStarted | ServiceFound | ServiceResolved service_info | ServiceRemoved | SearchStopped

record 'd mdns_crate =
  md_new :: "string + 'd"
  md_service_info :: "string \<Rightarrow> string \<Rightarrow> string \<Rightarrow> string \<Rightarrow> u16 \<Rightarrow> (string \<times> string) list \<Rightarrow> string + service_info"
  md_register :: "service_info \<Rightarrow> 'd \<Rightarrow> (string + unit) \<times> 'd"
  md_unregister :: "string \<Rightarrow> 'd \<Rightarrow> 'd"
  md_browse :: "string \<Rightarrow> 'd \<Rightarrow> (string + (unit + service_event) list) \<times> 'd"
  md_shutdown :: "'d \<Rightarrow> 'd"

record 'd MdnsAdvertiser =
  ma_daemon :: 'd
  ma_service_name :: string
  ma_port :: u16
  ma_devices :: "UsbIpDeviceEntry list"

definition MdnsAdvertiser_new ::
  "'d mdns_crate \<Rightarrow> string \<Rightarrow> u16 \<Rightarrow> UsbIpDeviceEntry list \<Rightarrow> 'd MdnsAdvertiser UsbIpResult" where
  "MdnsAdvertiser_new M hostname p devices =
     (case md_new M of
        Inl e \<Rightarrow> Inl (NotSupported (''mDNS init failed: '' @ e))
      | Inr d \<Rightarrow>
        Inr \<lparr>ma_daemon = d, ma_service_name = hostname @ ''._usbip._tcp.local.'', ma_port = p, ma_devices = devices\<rparr>)"

definition advertised_properties :: "string \<Rightarrow> UsbIpDeviceEntry list \<Rightarrow> (string \<times> string) list" where
  "advertised_properties os devices =
     [(''version'', ''1.1.1''), (''platform'', os)]
     @ (if devices = [] then [] else [(''devices'', encode_devices_txt devices)])"

definition MdnsAdvertiser_start ::
  "'d mdns_crate \<Rightarrow> string \<Rightarrow> string option \<Rightarrow> 'd MdnsAdvertiser \<Rightarrow> unit UsbIpResult \<times> 'd MdnsAdvertiser" where
  "MdnsAdvertiser_start M os local_ip a =
     (let ip = (case local_ip of Some ip \<Rightarrow> ip | None \<Rightarrow> ''127.0.0.1'') in
      case md_service_info M ''_usbip._tcp.local.'' ''USB/IP Server'' (ma_service_name a) ip (ma_port a)
             (advertised_properties os (ma_devices a)) of
        Inl e \<Rightarrow> (Inl (NotSupported (''mDNS service creation failed: '' @ e)), a)
      | Inr info \<Rightarrow>
        (case md_register M info (ma_daemon a) of
           (Inl e, d) \<Rightarrow> (Inl (NotSupported (''mDNS register failed: '' @ e)), a\<lparr>ma_daemon := d\<rparr>)
         | (Inr _, d) \<Rightarrow> (Inr (), a\<lparr>ma_daemon := d\<rparr>)))"

definition MdnsAdvertiser_drop :: "'d mdns_crate \<Rightarrow> 'd MdnsAdvertiser \<Rightarrow> 'd" where
  "MdnsAdvertiser_drop M a = md_shutdown M (md_unregister M (ma_service_name a) (ma_daemon a))"

section \<open>The browsers\<close>

record DiscoveredServer =
  ds_host :: string
  ds_port :: u16
  ds_txt :: "(string \<times> string) list"

definition discovered :: "service_info \<Rightarrow> DiscoveredServer" where
  "discovered info =
     \<lparr>ds_host = (case si_addresses info of [] \<Rightarrow> [] | a # _ \<Rightarrow> a), ds_port = si_port info,
      ds_txt = foldl (\<lambda>m (k, v). AList.update k v m) [] (si_properties info)\<rparr>"

definition or_insert :: "'k \<Rightarrow> 'v \<Rightarrow> ('k \<times> 'v) list \<Rightarrow> ('k \<times> 'v) list" where
  "or_insert k v m = (if map_of m k = None then m @ [(k, v)] else m)"

fun server_browse_loop ::
  "(unit + service_event) list \<Rightarrow> (string \<times> DiscoveredServer) list \<Rightarrow> (string \<times> DiscoveredServer) list" where
  "server_browse_loop [] by_name = by_name"
| "server_browse_loop (Inl _ # es) by_name = by_name"
| "server_browse_loop (Inr e # es) by_name =
     (case e of
        ServiceResolved info \<Rightarrow>
          server_browse_loop es (or_insert (si_fullname info) (discovered info) by_name)
      | SearchStopped \<Rightarrow> by_name
      | _ \<Rightarrow> server_browse_loop es by_name)"

definition server_browse :: "'d mdns_crate \<Rightarrow> 'd \<Rightarrow> DiscoveredServer list \<times> 'd" where
  "server_browse M d =
     (case md_browse M ''_usbip._tcp.local.'' d of
        (Inl _, d') \<Rightarrow> ([], d')
      | (Inr events, d') \<Rightarrow> (map snd (server_browse_loop events []), md_shutdown M d'))"

fun add_servers :: "u16 \<Rightarrow> string list \<Rightarrow> (string \<times> u16) list \<Rightarrow> (string \<times> u16) list" where
  "add_servers p [] servers = servers"
| "add_servers p (a # as) servers =
     add_servers p as (if (a, p) \<in> set servers then servers else servers @ [(a, p)])"

fun client_browse_loop ::
  "(unit + service_event) list \<Rightarrow> (string \<times> u16) list \<Rightarrow> (string \<times> u16) list" where
  "client_browse_loop [] servers = servers"
| "client_browse_loop (Inl _ # es) servers = servers"
| "client_browse_loop (Inr e # es) servers =
     client_browse_loop es
       (case e of ServiceResolved info \<Rightarrow> add_servers (si_port info) (si_addresses info) servers | _ \<Rightarrow> servers)"

definition client_browse :: "'d mdns_crate \<Rightarrow> 'd \<Rightarrow> (string \<times> u16) list UsbIpResult \<times> 'd" where
  "client_browse M d =
     (case md_browse M ''_usbip._tcp.local.'' d of
        (Inl e, d') \<Rightarrow> (Inl (NotSupported (''mDNS browse failed: '' @ e)), d')
      | (Inr events, d') \<Rightarrow> (Inr (client_browse_loop events []), d'))"

section \<open>The size of the advertised list\<close>

definition advertised_entry :: UsbIpDeviceEntry where
  "advertised_entry = make_test_entry ''3-2'' 0x046d 0xc261"

lemma advertised_busid: "busid_str advertised_entry = ''3-2''"
  by (rule busid_str_copied) (simp_all add: advertised_entry_def make_test_entry_def as_bytes_def)

lemma length_device_txt: "length (device_txt d) = 38 + length (busid_str d)"
proof -
  have "unat w < 16 ^ 4" for w :: u16 using unsigned_less [of w, where ?'a = nat] by simp
  then have "length (show_hex_pad 4 (unat w)) = 4" for w :: u16 by (rule length_show_hex_pad) simp
  then show ?thesis by (simp add: device_txt_def)
qed

lemma length_join_str: "xs \<noteq> [] \<Longrightarrow> length (join_str sep xs) + length sep = sum_list (map (\<lambda>x. length x + length sep) xs)"
  by (induction sep xs rule: join_str.induct) auto

text \<open>The size of the \<^verbatim>\<open>devices\<close> value. A TXT value has at most 255 bytes.\<close>

lemma length_encoded:
  "devices \<noteq> [] \<Longrightarrow> length (encode_devices_txt devices) + 1 = sum_list (map (\<lambda>d. 39 + length (busid_str d)) devices)"
  using length_join_str [of "map device_txt devices" "'',''"]
  by (simp add: encode_devices_txt_def o_def length_device_txt)

text \<open>The list of devices outgrows the 255 bytes of a TXT value with the seventh device, when the
  bus ids have at least three characters, while the module documentation gives about thirty bytes
  for a device and room for about eight.\<close>

theorem advertised_list_too_long:
  assumes "7 \<le> length devices" "list_all (\<lambda>d. 3 \<le> length (busid_str d)) devices"
  shows "255 < length (encode_devices_txt devices)"
proof -
  have "sum_list (map (\<lambda>_. 42) devices) \<le> sum_list (map (\<lambda>d. 39 + length (busid_str d)) devices)"
    using assms(2) by (intro sum_list_mono) (auto simp: list_all_iff)
  then have "42 * length devices \<le> length (encode_devices_txt devices) + 1"
    using length_encoded [of devices] assms(1) by (cases devices) (simp_all add: sum_list_replicate map_replicate_const)
  then show ?thesis using assms(1) by linarith
qed

theorem advertised_list_too_long_witness:
  "255 < length (encode_devices_txt (replicate 7 advertised_entry))"
  by (rule advertised_list_too_long) (simp_all add: advertised_busid list_all_length)

section \<open>What a scan finds\<close>

text \<open>The services that are resolved before the search ends.\<close>

fun resolved :: "(unit + service_event) list \<Rightarrow> service_info list" where
  "resolved (Inr (ServiceResolved info) # es) = info # resolved es"
| "resolved (Inr SearchStopped # es) = []"
| "resolved (Inr _ # es) = resolved es"
| "resolved _ = []"

lemma or_insert_names:
  shows "distinct (map fst m) \<Longrightarrow> distinct (map fst (or_insert k v m))"
    and "map_of (or_insert k v m) = map_of (m @ [(k, v)])"
proof -
  show "distinct (map fst m) \<Longrightarrow> distinct (map fst (or_insert k v m))"
    by (auto simp: or_insert_def map_of_eq_None_iff)
  show "map_of (or_insert k v m) = map_of (m @ [(k, v)])"
    by (rule ext) (auto simp: or_insert_def map_add_def split: option.splits)
qed

lemma server_browse_loop_names:
  "distinct (map fst m) \<Longrightarrow>
   distinct (map fst (server_browse_loop es m))
   \<and> map_of (server_browse_loop es m) = map_of (m @ map (\<lambda>i. (si_fullname i, discovered i)) (resolved es))"
proof (induction es m rule: server_browse_loop.induct)
  case (3 e es by_name)
  then show ?case
    by (cases e) (simp_all add: or_insert_names)
qed simp_all

text \<open>A scan of the server reports every service once: no name appears twice, and for each name
  that was resolved before the search ended the first answer is the one reported.\<close>

theorem scan_reports_first_answer:
  "distinct (map fst (server_browse_loop es []))
   \<and> map_of (server_browse_loop es []) = map_of (map (\<lambda>i. (si_fullname i, discovered i)) (resolved es))"
  using server_browse_loop_names [of "[]" es] by simp

lemma add_servers_set:
  "distinct m \<Longrightarrow> distinct (add_servers p as m) \<and> set (add_servers p as m) = set m \<union> (\<lambda>a. (a, p)) ` set as"
  by (induction p as m rule: add_servers.induct) auto

text \<open>The client reports each address and port once, for every service resolved before the first error.\<close>

lemma client_browse_distinct:
  "distinct m \<Longrightarrow> distinct (client_browse_loop es m) \<and> set m \<subseteq> set (client_browse_loop es m)"
proof (induction es m rule: client_browse_loop.induct)
  case (3 e es m)
  then show ?case by (cases e) (auto simp: add_servers_set)
qed simp_all

lemma client_browse_finds:
  assumes "distinct m" "Inr (ServiceResolved info) \<in> set es" "\<And>u. Inl u \<notin> set es" "a \<in> set (si_addresses info)"
  shows "(a, si_port info) \<in> set (client_browse_loop es m)"
  using assms
proof (induction es m rule: client_browse_loop.induct)
  case (3 e es m)
  let ?m = "case e of ServiceResolved info \<Rightarrow> add_servers (si_port info) (si_addresses info) m | _ \<Rightarrow> m"
  have m: "distinct ?m" using 3(2) by (simp add: add_servers_set split: service_event.splits)
  show ?case
  proof (cases "e = ServiceResolved info")
    case True
    then have "(a, si_port info) \<in> set ?m" using 3(2,5) by (simp add: add_servers_set)
    then show ?thesis using client_browse_distinct [OF m, of es] by auto
  qed (use 3 m in simp)
qed auto

text \<open>
  A scan shuts the daemon of the browser down; when the crate refuses to browse with a daemon that
  was shut down, every later scan is empty.
\<close>

lemma second_scan_empty:
  assumes "\<And>d t. fst (md_browse M t (md_shutdown M d)) = Inl e"
    and "md_browse M ''_usbip._tcp.local.'' d = (Inr events, d1)" "server_browse M d = (found, d2)"
  shows "fst (server_browse M d2) = []"
  using assms(2,3) assms(1) [of "''_usbip._tcp.local.''" d1]
  by (auto simp: server_browse_def split: prod.splits sum.splits)

end
