(* ===== verification/Android_Reader.thy ===== *)
theory Android_Reader
  imports Discovery
begin

text \<open>
  The reader of the advertised devices in the Android application, \<^verbatim>\<open>parseDevices\<close> of
  \<^verbatim>\<open>ServerDiscovery.kt\<close>. Its strings are UTF-8 here as well; digits outside ASCII, which Kotlin
  accepts in numbers, are not modelled. The properties of a service are a map from names to
  decoded values.
\<close>

section \<open>The reader of the device list\<close>

text \<open>The characters Kotlin's \<^verbatim>\<open>trim\<close> removes.\<close>

definition kt_white_space :: "string list" where
  "kt_white_space =
     map (\<lambda>c. [c]) [CHR 0x09, CHR 0x0A, CHR 0x0B, CHR 0x0C, CHR 0x0D, CHR 0x1C, CHR 0x1D, CHR 0x1E, CHR 0x1F,
       CHR 0x20]
     @ [[CHR 0xC2, CHR 0xA0], [CHR 0xE1, CHR 0x9A, CHR 0x80]]
     @ map (\<lambda>c. [CHR 0xE2, CHR 0x80, c])
         [CHR 0x80, CHR 0x81, CHR 0x82, CHR 0x83, CHR 0x84, CHR 0x85, CHR 0x86, CHR 0x87, CHR 0x88,
          CHR 0x89, CHR 0x8A, CHR 0xA8, CHR 0xA9, CHR 0xAF]
     @ [[CHR 0xE2, CHR 0x81, CHR 0x9F], [CHR 0xE3, CHR 0x80, CHR 0x80]]"

definition kt_trim :: "string \<Rightarrow> string" where
  "kt_trim s = rev (trim_front (map rev kt_white_space) (rev (trim_front kt_white_space s)))"

definition kt_to_int_or_null :: "nat \<Rightarrow> string \<Rightarrow> int option" where
  "kt_to_int_or_null radix s =
     (case s of
        [] \<Rightarrow> None
      | c # cs \<Rightarrow>
        (if of_char c < (48 :: nat) then
           (if cs = [] then None
            else if c = CHR ''-'' then
              (case digits_value radix 0 cs of
                 Some n \<Rightarrow> if n \<le> 2 ^ 31 then Some (- int n) else None | None \<Rightarrow> None)
            else if c = CHR ''+'' then
              (case digits_value radix 0 cs of
                 Some n \<Rightarrow> if n < 2 ^ 31 then Some (int n) else None | None \<Rightarrow> None)
            else None)
         else case digits_value radix 0 s of
           Some n \<Rightarrow> if n < 2 ^ 31 then Some (int n) else None | None \<Rightarrow> None))"

definition or_else :: "'a option \<Rightarrow> 'a option \<Rightarrow> 'a option" where
  "or_else a b = (case a of Some x \<Rightarrow> Some x | None \<Rightarrow> b)"

definition remove_prefix :: "string \<Rightarrow> string \<Rightarrow> string" where
  "remove_prefix p s = (if take (length p) s = p then drop (length p) s else s)"

record RemoteDevice =
  rd_name :: string
  rd_busId :: string
  rd_vid :: int
  rd_pid :: int

record kv_state =
  kv_list :: "RemoteDevice list"
  kv_vid :: "int option"
  kv_pid :: "int option"
  kv_bus :: string
  kv_name :: string

definition kv_devices :: "kv_state \<Rightarrow> RemoteDevice list" where
  "kv_devices s =
     kv_list s @
     (case (kv_vid s, kv_pid s) of
        (Some v, Some p) \<Rightarrow> [\<lparr>rd_name = kv_name s, rd_busId = kv_bus s, rd_vid = v, rd_pid = p\<rparr>]
      | _ \<Rightarrow> [])"

definition kv_number :: "string \<Rightarrow> int option" where
  "kv_number v = or_else (kt_to_int_or_null 16 (remove_prefix ''0x'' v)) (kt_to_int_or_null 10 v)"

definition kv_token :: "kv_state \<Rightarrow> string \<Rightarrow> kv_state" where
  "kv_token s token =
     (let trimmed = kt_trim token;
          key = takeWhile (\<lambda>c. c \<noteq> CHR ''='') trimmed;
          rest = dropWhile (\<lambda>c. c \<noteq> CHR ''='') trimmed in
      if rest = [] then s
      else
        (let v = tl rest in
         if key = ''vid'' then
           (let s' = (if kv_vid s \<noteq> None \<and> kv_pid s \<noteq> None
                      then s\<lparr>kv_list := kv_devices s, kv_bus := ''1-1'', kv_name := ''USB Device''\<rparr> else s)
            in s'\<lparr>kv_vid := kv_number v\<rparr>)
         else if key = ''pid'' then s\<lparr>kv_pid := kv_number v\<rparr>
         else if key = ''bus'' then s\<lparr>kv_bus := v\<rparr>
         else if key = ''n'' then s\<lparr>kv_name := v\<rparr>
         else s))"

definition kv_init :: kv_state where
  "kv_init = \<lparr>kv_list = [], kv_vid = None, kv_pid = None, kv_bus = ''1-1'', kv_name = ''USB Device''\<rparr>"

definition colon_entry :: "string \<Rightarrow> RemoteDevice list" where
  "colon_entry entry =
     (let parts = split_on (CHR '':'') entry;
          number = (\<lambda>s. or_else (kt_to_int_or_null 16 s) (kt_to_int_or_null 10 s)) in
      if length parts < 4 then []
      else case (number (parts ! 0), number (parts ! 1)) of
        (Some v, Some p) \<Rightarrow> [\<lparr>rd_name = parts ! 3, rd_busId = parts ! 2, rd_vid = v, rd_pid = p\<rparr>]
      | _ \<Rightarrow> [])"

text \<open>The first strategy of \<^verbatim>\<open>parseDevices\<close>; \<open>None\<close> when it falls through to the others.\<close>

definition parse_devices_txt :: "string option \<Rightarrow> RemoteDevice list option" where
  "parse_devices_txt devicesStr =
     (case devicesStr of
        None \<Rightarrow> None
      | Some s \<Rightarrow>
        (if kt_trim s = [] then None
         else
           (let list = (if contains_str ''vid='' s
                        then kv_devices (foldl kv_token kv_init (split_on (CHR '','') s))
                        else concat (map colon_entry (split_on (CHR '','') s)))
            in if list = [] then None else Some list)))"

text \<open>Lists of numbers and of texts, separated by commas or semicolons.\<close>

definition parse_number :: "string \<Rightarrow> int option" where
  "parse_number s = or_else (kt_to_int_or_null 16 s) (kt_to_int_or_null 10 s)"

definition parseUInt :: "string \<Rightarrow> int option" where
  "parseUInt s = parse_number (kt_trim s)"

definition split_list :: "string \<Rightarrow> string list" where
  "split_list s = split_on (CHR '','') (map (\<lambda>c. if c = CHR '';'' then CHR '','' else c) s)"

definition parseUIntList :: "string option \<Rightarrow> int list" where
  "parseUIntList v =
     (case v of None \<Rightarrow> [] | Some s \<Rightarrow> List.map_filter (\<lambda>x. parse_number (kt_trim x)) (split_list s))"

definition parseStringList :: "string option \<Rightarrow> string list" where
  "parseStringList v =
     (case v of None \<Rightarrow> [] | Some s \<Rightarrow> filter (\<lambda>x. x \<noteq> []) (map kt_trim (split_list s)))"

definition get_or :: "'a list \<Rightarrow> nat \<Rightarrow> 'a \<Rightarrow> 'a" where
  "get_or xs i d = (if i < length xs then xs ! i else d)"

definition parallel_devices :: "(string \<rightharpoonup> string) \<Rightarrow> RemoteDevice list" where
  "parallel_devices props =
     (let vids = parseUIntList (props ''vid''); pids = parseUIntList (props ''pid'');
          buses = parseStringList (props ''bus''); names = parseStringList (props ''name'') in
      if vids \<noteq> [] \<and> length vids = length pids then
        map (\<lambda>i. \<lparr>rd_name = get_or names i ''USB Device'',
                  rd_busId = get_or buses i (show_dec (i + 1) @ ''-'' @ show_dec (i + 1)),
                  rd_vid = vids ! i, rd_pid = pids ! i\<rparr>) [0..<length vids]
      else [])"

definition single_device :: "(string \<rightharpoonup> string) \<Rightarrow> RemoteDevice list" where
  "single_device props =
     (case (Option.bind (props ''vid'') parseUInt, Option.bind (props ''pid'') parseUInt) of
        (Some v, Some p) \<Rightarrow>
          [\<lparr>rd_name = (case props ''name'' of Some n \<Rightarrow> n | None \<Rightarrow> ''USB Device''),
            rd_busId = (case props ''bus'' of Some b \<Rightarrow> b | None \<Rightarrow> ''1-1''), rd_vid = v, rd_pid = p\<rparr>]
      | _ \<Rightarrow> [])"

definition placeholder_device :: RemoteDevice where
  "placeholder_device = \<lparr>rd_name = ''USB Device'', rd_busId = ''1-1'', rd_vid = 0, rd_pid = 0\<rparr>"

text \<open>The four strategies in order; the last one always gives a device.\<close>

definition parseDevices :: "(string \<rightharpoonup> string) \<Rightarrow> RemoteDevice list" where
  "parseDevices props =
     (case parse_devices_txt (props ''devices'') of
        Some list \<Rightarrow> list
      | None \<Rightarrow>
        (if parallel_devices props \<noteq> [] then parallel_devices props
         else if single_device props \<noteq> [] then single_device props
         else [placeholder_device]))"

section \<open>Advertised and read\<close>

definition plain_char :: "char \<Rightarrow> bool" where
  "plain_char c \<longleftrightarrow> c \<in> set ''0123456789abcdef-.:=nuipvsx''"

definition plain_text :: "string \<Rightarrow> bool" where
  "plain_text s \<longleftrightarrow> list_all plain_char s"

definition txt_char :: "char \<Rightarrow> bool" where
  "txt_char c \<longleftrightarrow> plain_char c \<or> c = CHR '',''"

lemma white_space_not_txt:
  "list_all (\<lambda>w. \<not> txt_char (hd w)) kt_white_space" "list_all (\<lambda>w. \<not> txt_char (hd w)) (map rev kt_white_space)"
  by (simp_all add: kt_white_space_def txt_char_def plain_char_def)

lemma trim_front_txt:
  assumes "list_all (\<lambda>w. \<not> txt_char (hd w)) ws" "list_all txt_char s"
  shows "trim_front ws s = s"
proof (cases s)
  case Nil
  have "find (\<lambda>w. w \<noteq> [] \<and> take (length w) [] = w) ws = None" by (simp add: find_None_iff)
  then show ?thesis by (simp add: Nil trim_front.simps)
next
  case (Cons c cs)
  then have "list_all (\<lambda>w. hd w \<noteq> c) ws" using assms by (auto simp: list_all_iff)
  then show ?thesis using trim_front_stops Cons by simp
qed

lemma kt_trim_txt: "list_all txt_char s \<Longrightarrow> kt_trim s = s"
  by (simp add: kt_trim_def trim_front_txt white_space_not_txt list_all_rev)

lemma plain_is_txt: "plain_text s \<Longrightarrow> list_all txt_char s"
  by (auto simp: plain_text_def list_all_iff txt_char_def)

lemmas kt_trim_plain = kt_trim_txt [OF plain_is_txt]

lemma plain_text_Nil [simp]: "plain_text []"
  by (simp add: plain_text_def)

lemma plain_text_Cons [simp]: "plain_text (c # cs) \<longleftrightarrow> plain_char c \<and> plain_text cs"
  by (simp add: plain_text_def)

lemma plain_text_append [simp]: "plain_text (xs @ ys) \<longleftrightarrow> plain_text xs \<and> plain_text ys"
  by (auto simp: plain_text_def)

lemma plain_text_hex [simp]: "plain_text (show_hex_pad w n)"
proof -
  have "list_all plain_char ''0123456789abcdef''" by (simp add: plain_char_def)
  then show ?thesis using show_hex_pad_chars [of w n] unfolding plain_text_def list_all_iff by blast
qed

lemma plain_text_no_comma: "plain_text s \<Longrightarrow> CHR '','' \<notin> set s"
proof -
  have "\<not> plain_char (CHR '','')" by (simp add: plain_char_def)
  then show "plain_text s \<Longrightarrow> CHR '','' \<notin> set s" unfolding plain_text_def list_all_iff by blast
qed

definition device_tokens :: "UsbIpDeviceEntry \<Rightarrow> string list" where
  "device_tokens d =
     [''vid=0x'' @ show_hex_pad 4 (unat (entry_vid d)), ''pid=0x'' @ show_hex_pad 4 (unat (entry_pid d)),
      ''bus='' @ busid_str d,
      ''n='' @ show_hex_pad 4 (unat (entry_vid d)) @ '':'' @ show_hex_pad 4 (unat (entry_pid d))]"

lemma device_tokens_nonempty [simp]: "device_tokens d \<noteq> []"
  by (simp add: device_tokens_def)

lemma device_txt_tokens: "device_txt d = join_str '','' (device_tokens d)"
  by (simp add: device_txt_def device_tokens_def)

lemma device_tokens_plain: "plain_text (busid_str d) \<Longrightarrow> list_all plain_text (device_tokens d)"
  by (simp add: device_tokens_def) (simp add: plain_char_def)

lemma encoded_join: "encode_devices_txt devices = join_str '','' (concat (map device_tokens devices))"
  using join_join [of "map device_tokens devices" "'',''"]
  by (simp add: encode_devices_txt_def device_txt_tokens [abs_def] o_def list_all_iff)

lemma encoded_tokens:
  assumes "devices \<noteq> []" "list_all (plain_text \<circ> busid_str) devices"
  shows "split_on (CHR '','') (encode_devices_txt devices) = concat (map device_tokens devices)"
proof -
  have "list_all (\<lambda>s. CHR '','' \<notin> set s) (concat (map device_tokens devices))"
    using assms(2) device_tokens_plain plain_text_no_comma by (fastforce simp: list_all_iff)
  moreover have "concat (map device_tokens devices) \<noteq> []"
    using assms(1) by (cases devices) (simp_all add: device_tokens_def)
  ultimately show ?thesis by (simp add: encoded_join split_join)
qed

definition remote_device :: "UsbIpDeviceEntry \<Rightarrow> RemoteDevice" where
  "remote_device d =
     \<lparr>rd_name = show_hex_pad 4 (unat (entry_vid d)) @ '':'' @ show_hex_pad 4 (unat (entry_pid d)),
      rd_busId = busid_str d, rd_vid = uint (entry_vid d), rd_pid = uint (entry_pid d)\<rparr>"

lemma kv_number_hex: "kv_number (''0x'' @ show_hex_pad 4 (unat (w :: u16))) = Some (uint w)"
proof -
  obtain c cs where s: "show_hex_pad 4 (unat w) = c # cs" by (meson neq_Nil_conv show_hex_pad_nonempty)
  then have "c \<in> set (show_hex_pad 4 (unat w))" by simp
  then have "c \<in> set ''0123456789abcdef''" by (rule subsetD [OF show_hex_pad_chars])
  moreover have "list_all (\<lambda>c. \<not> of_char c < (48 :: nat)) ''0123456789abcdef''" by simp
  ultimately have "\<not> of_char c < (48 :: nat)" unfolding list_all_iff by blast
  moreover have "unat w < 2 ^ 31" using unsigned_less [of w, where ?'a = nat] by simp
  ultimately show ?thesis using digits_value_hex_pad [of 4 "unat w"] s
    by (simp add: kv_number_def or_else_def remove_prefix_def kt_to_int_or_null_def)
qed

lemma kv_token_plain:
  assumes "plain_text (k @ ''='' @ v)" "CHR ''='' \<notin> set k"
  shows "kv_token s (k @ ''='' @ v) =
    (if k = ''vid'' then
       (if kv_vid s \<noteq> None \<and> kv_pid s \<noteq> None
        then s\<lparr>kv_list := kv_devices s, kv_bus := ''1-1'', kv_name := ''USB Device''\<rparr> else s)\<lparr>kv_vid := kv_number v\<rparr>
     else if k = ''pid'' then s\<lparr>kv_pid := kv_number v\<rparr>
     else if k = ''bus'' then s\<lparr>kv_bus := v\<rparr>
     else if k = ''n'' then s\<lparr>kv_name := v\<rparr>
     else s)"
proof -
  have k: "c \<noteq> CHR ''=''" if "c \<in> set k" for c using that assms(2) by blast
  have "takeWhile (\<lambda>c. c \<noteq> CHR ''='') (k @ ''='' @ v) = k @ takeWhile (\<lambda>c. c \<noteq> CHR ''='') (''='' @ v)"
    by (rule takeWhile_append2) (rule k)
  moreover have "dropWhile (\<lambda>c. c \<noteq> CHR ''='') (k @ ''='' @ v) = dropWhile (\<lambda>c. c \<noteq> CHR ''='') (''='' @ v)"
    by (rule dropWhile_append2) (rule k)
  ultimately have parts: "takeWhile (\<lambda>c. c \<noteq> CHR ''='') (k @ ''='' @ v) = k"
      "dropWhile (\<lambda>c. c \<noteq> CHR ''='') (k @ ''='' @ v) = ''='' @ v"
    by (simp_all only: append.simps takeWhile.simps dropWhile.simps simp_thms if_False append_Nil2)
  show ?thesis unfolding kv_token_def kt_trim_plain [OF assms(1)] Let_def parts by simp
qed

lemma kv_device:
  assumes "plain_text (busid_str d)"
  shows "kv_devices (foldl kv_token s (device_tokens d)) = kv_devices s @ [remote_device d]"
proof -
  let ?v = "show_hex_pad 4 (unat (entry_vid d))" and ?p = "show_hex_pad 4 (unat (entry_pid d))"
  have keys: "plain_text ''vid=0x''" "plain_text ''pid=0x''" "plain_text ''bus=''" "plain_text ''n=''" "plain_text '':''"
    by (simp_all add: plain_char_def)
  have vid: "kv_token s (''vid=0x'' @ ?v) = (if kv_vid s \<noteq> None \<and> kv_pid s \<noteq> None
        then s\<lparr>kv_list := kv_devices s, kv_bus := ''1-1'', kv_name := ''USB Device''\<rparr> else s)
          \<lparr>kv_vid := Some (uint (entry_vid d))\<rparr>" for s
    using kv_token_plain [of "''vid''" "''0x'' @ ?v" s] keys kv_number_hex [of "entry_vid d"] by simp
  have pid: "kv_token s (''pid=0x'' @ ?p) = s\<lparr>kv_pid := Some (uint (entry_pid d))\<rparr>" for s
    using kv_token_plain [of "''pid''" "''0x'' @ ?p" s] keys kv_number_hex [of "entry_pid d"] by simp
  have bus: "kv_token s (''bus='' @ busid_str d) = s\<lparr>kv_bus := busid_str d\<rparr>" for s
    using kv_token_plain [of "''bus''" "busid_str d" s] keys assms by simp
  have n: "kv_token s (''n='' @ ?v @ '':'' @ ?p) = s\<lparr>kv_name := ?v @ '':'' @ ?p\<rparr>" for s
    using kv_token_plain [of "''n''" "?v @ '':'' @ ?p" s] keys by simp
  have "foldl kv_token s (device_tokens d)
      = kv_token (kv_token (kv_token (kv_token s (''vid=0x'' @ ?v)) (''pid=0x'' @ ?p)) (''bus='' @ busid_str d))
          (''n='' @ ?v @ '':'' @ ?p)"
    by (simp only: device_tokens_def foldl.simps)
  then show ?thesis
    unfolding vid pid bus n by (auto simp: kv_devices_def remote_device_def split: option.splits)
qed

lemma kv_all:
  "list_all (plain_text \<circ> busid_str) ds \<Longrightarrow>
   kv_devices (foldl kv_token s (concat (map device_tokens ds))) = kv_devices s @ map remote_device ds"
  by (induction ds arbitrary: s) (simp_all add: kv_device)

lemma contains_front: "p \<noteq> [] \<Longrightarrow> contains_str p (p @ s)"
  by (cases p) simp_all

lemma join_txt: "list_all txt_char sep \<Longrightarrow> list_all (list_all txt_char) xs \<Longrightarrow> list_all txt_char (join_str sep xs)"
  by (induction sep xs rule: join_str.induct) simp_all

lemma encoded_devices_read:
  assumes "devices \<noteq> []" "list_all (plain_text \<circ> busid_str) devices"
  shows "parse_devices_txt (Some (encode_devices_txt devices)) = Some (map remote_device devices)"
proof -
  obtain d ds where d: "devices = d # ds" using assms(1) by (cases devices) auto
  obtain r where r: "encode_devices_txt devices = ''vid='' @ r"
    by (cases ds) (simp_all add: d encode_devices_txt_def device_txt_def)
  have "list_all (list_all txt_char) (concat (map device_tokens devices))"
    using assms(2) device_tokens_plain plain_is_txt by (fastforce simp: list_all_iff)
  then have "list_all txt_char (encode_devices_txt devices)"
    using join_txt [of "'',''" "concat (map device_tokens devices)"] encoded_join [of devices] by (simp add: txt_char_def)
  then have "kt_trim (encode_devices_txt devices) \<noteq> []" by (simp add: kt_trim_txt r)
  moreover have "contains_str ''vid='' (encode_devices_txt devices)"
    unfolding r by (rule contains_front) simp
  moreover have "kv_devices (foldl kv_token kv_init (split_on (CHR '','') (encode_devices_txt devices)))
      = map remote_device devices"
    unfolding encoded_tokens [OF assms] kv_all [OF assms(2)] by (simp add: kv_init_def kv_devices_def)
  ultimately show ?thesis using assms(1) by (simp add: parse_devices_txt_def)
qed

text \<open>
  Between the server and the reader is DNS-SD, which carries a property as one character string
  \<^verbatim>\<open>key=value\<close> of at most 255 bytes. It is a parameter: what it makes of properties that all fit are
  these properties; nothing is said about longer ones.
\<close>

definition fits_txt :: "string \<times> string \<Rightarrow> bool" where
  "fits_txt kv \<longleftrightarrow> length (fst kv) + 1 + length (snd kv) \<le> 255"

definition txt_transport :: "((string \<times> string) list \<Rightarrow> string \<Rightarrow> string option) \<Rightarrow> bool" where
  "txt_transport carry \<longleftrightarrow> (\<forall>ps. list_all fits_txt ps \<longrightarrow> carry ps = map_of ps)"

text \<open>C18: What a server advertises is what the Android application shows, as long as it fits: when the
  list of devices, with its key, stays within the 255 bytes of a TXT entry, reading the properties
  that DNS-SD carries gives the same devices in the same order, each with its identifiers, its bus id
  and the placeholder name, for bus ids without comma, space or other unusual character. A server
  without devices is shown with one device that does not exist, the placeholder.\<close>

theorem advertised_devices_roundtrip:
  assumes "txt_transport carry" "list_all (plain_text \<circ> busid_str) devices"
    and "length (''devices='' @ encode_devices_txt devices) \<le> 255" "length os \<le> 200"
  shows "parseDevices (carry (advertised_properties os devices)) =
    (if devices = [] then [placeholder_device] else map remote_device devices)"
proof -
  have "carry (advertised_properties os devices) = map_of (advertised_properties os devices)"
    using assms(1,3,4) by (simp add: txt_transport_def advertised_properties_def fits_txt_def)
  moreover have "parseDevices (map_of (advertised_properties os devices)) =
    (if devices = [] then [placeholder_device] else map remote_device devices)"
  proof (cases "devices = []")
    case True
    then show ?thesis
      by (simp add: parseDevices_def advertised_properties_def parse_devices_txt_def parallel_devices_def
          parseUIntList_def single_device_def)
  next
    case False
    then show ?thesis
      using encoded_devices_read [OF False assms(2)] by (simp add: parseDevices_def advertised_properties_def)
  qed
  ultimately show ?thesis by simp
qed

text \<open>A transport that drops what does not fit; five devices with bus ids of three characters do.\<close>

definition drop_long :: "(string \<times> string) list \<Rightarrow> string \<Rightarrow> string option" where
  "drop_long ps = map_of (filter fits_txt ps)"

lemma drop_long_transport: "txt_transport drop_long"
  by (simp add: txt_transport_def drop_long_def list_all_iff)

theorem advertised_devices_roundtrip_witness:
  "parseDevices (drop_long (advertised_properties ''linux'' (replicate 5 advertised_entry)))
   = replicate 5 (remote_device advertised_entry)"
proof -
  let ?ds = "replicate 5 advertised_entry"
  have plain: "list_all (plain_text \<circ> busid_str) ?ds"
    by (simp add: list_all_length advertised_busid) (simp add: plain_char_def)
  have "length (''devices='' @ encode_devices_txt ?ds) \<le> 255"
    using length_encoded [of ?ds] by (simp add: advertised_busid sum_list_replicate)
  from advertised_devices_roundtrip [OF drop_long_transport plain this, of "''linux''"] show ?thesis by simp
qed

text \<open>Beyond that such a transport drops the list, and the reader shows the placeholder alone.\<close>

lemma long_list_not_shown:
  assumes "255 < length (''devices='' @ encode_devices_txt devices)" "length os \<le> 200"
  shows "parseDevices (drop_long (advertised_properties os devices)) = [placeholder_device]"
  using assms
  by (simp add: drop_long_def advertised_properties_def fits_txt_def parseDevices_def parse_devices_txt_def
      parallel_devices_def parseUIntList_def single_device_def)

end
