(* ===== verification/Api.thy ===== *)
theory Api
  imports Server Client
begin

text \<open>
  \<^verbatim>\<open>server/usbip-server/src/api.rs\<close>: the REST handlers on the state they share with the wire
  protocol, the configuration file, and from \<^verbatim>\<open>server.rs\<close> the remote importers behind
  \<^verbatim>\<open>POST /api/connect\<close> and the state a server gives the API. The device lister is the
  server's device manager. Parameters: the file system and environment \<open>FS\<close>, the TOML
  crate, the mDNS browser, the parser of socket addresses, and for the real importer whether the
  runtime refuses to block inside itself, as \<^verbatim>\<open>tokio\<close> documents. The WebSocket stream and the
  OpenAPI document are not modelled.
\<close>

section \<open>Configuration\<close>

record ApiConfig =
  cfg_bind_address :: string
  cfg_port :: u16
  cfg_api_port :: u16
  cfg_encryption_enabled :: bool
  cfg_server_id :: string
  cfg_server_name :: string

definition ApiConfig_default :: "string \<Rightarrow> string \<Rightarrow> ApiConfig" where
  "ApiConfig_default server_id server_name =
     \<lparr>cfg_bind_address = ''0.0.0.0'', cfg_port = 3240, cfg_api_port = 3241,
      cfg_encryption_enabled = False, cfg_server_id = server_id, cfg_server_name = server_name\<rparr>"

record 'f fs_env =
  fe_var :: "string \<Rightarrow> string option"
  fe_push :: "string \<Rightarrow> string \<Rightarrow> string"
  fe_parent :: "string \<Rightarrow> string option"
  fe_create_dir_all :: "'f \<Rightarrow> string \<Rightarrow> (io_error + unit) \<times> 'f"
  fe_write :: "'f \<Rightarrow> string \<Rightarrow> string \<Rightarrow> (io_error + unit) \<times> 'f"
  fe_read_to_string :: "'f \<Rightarrow> string \<Rightarrow> string option"

record toml_crate =
  toml_to_string :: "ApiConfig \<Rightarrow> string + string"
  toml_from_str :: "string \<Rightarrow> ApiConfig option"

definition config_path :: "target_os \<Rightarrow> 'f fs_env \<Rightarrow> string" where
  "config_path os FS =
     (case fe_var FS ''ANYPLUG_CONFIG_PATH'' of
        Some p \<Rightarrow> p
      | None \<Rightarrow>
        (let base = (case fe_var FS ''XDG_CONFIG_HOME'' of
            Some p \<Rightarrow> p
          | None \<Rightarrow>
            (case (if os = OS_Windows then fe_var FS ''APPDATA''
                   else map_option (\<lambda>h. fe_push FS h ''.config'') (fe_var FS ''HOME'')) of
               Some p \<Rightarrow> p | None \<Rightarrow> ''.''))
         in fe_push FS (fe_push FS base ''anyplug'') ''server.toml''))"

definition persist_config ::
  "target_os \<Rightarrow> 'f fs_env \<Rightarrow> toml_crate \<Rightarrow> ApiConfig \<Rightarrow> 'f \<Rightarrow> unit UsbIpResult \<times> 'f" where
  "persist_config os FS TM config f =
     (let path = config_path os FS;
          (r, f1) = (case fe_parent FS path of
                       None \<Rightarrow> (Inr (), f) | Some parent \<Rightarrow> fe_create_dir_all FS f parent) in
      case r of
        Inl e \<Rightarrow> (Inl (Io e), f1)
      | Inr _ \<Rightarrow>
        (case toml_to_string TM config of
           Inl e \<Rightarrow> (Inl (Protocol (''serialise config: '' @ e)), f1)
         | Inr text \<Rightarrow>
           (case fe_write FS f1 path text of
              (Inl e, f2) \<Rightarrow> (Inl (Io e), f2) | (Inr _, f2) \<Rightarrow> (Inr (), f2))))"

text \<open>\<open>dflt\<close> is the default configuration, made with a fresh identifier and the host name.\<close>

definition load_config :: "target_os \<Rightarrow> 'f fs_env \<Rightarrow> toml_crate \<Rightarrow> ApiConfig \<Rightarrow> 'f \<Rightarrow> ApiConfig" where
  "load_config os FS TM dflt f =
     (case fe_read_to_string FS f (config_path os FS) of
        None \<Rightarrow> dflt
      | Some text \<Rightarrow> (case toml_from_str TM text of Some c \<Rightarrow> c | None \<Rightarrow> dflt))"

section \<open>State and responses\<close>

text \<open>The \<^verbatim>\<open>RemoteImporter\<close> trait; \<^verbatim>\<open>import\<close> may panic or not return.\<close>

record 'i RemoteImporter =
  ri_import :: "'i \<Rightarrow> string \<Rightarrow> u16 \<Rightarrow> string \<Rightarrow> (UsbIpDeviceEntry UsbIpResult \<times> 'i) outcome option"
  ri_abort :: "'i \<Rightarrow> string \<Rightarrow> 'i"

record ('b, 'i, 'f) AppState =
  as_exports :: exports
  as_usb :: "'b UsbDeviceManager"
  as_importer :: 'i
  as_config :: ApiConfig
  as_files :: 'f

record ApiErrorResponse =
  er_correlation_id :: string
  er_category :: string
  er_message :: string

datatype 'a response = Reply 'a | ErrorReply nat ApiErrorResponse

definition to_api_error :: "UsbIpError \<Rightarrow> ApiErrorResponse" where
  "to_api_error err = \<lparr>er_correlation_id = correlation_id err,
     er_category = ErrorCategory_fmt (category err), er_message = ErrorKind_fmt (kind err)\<rparr>"

definition error_response :: "nat \<Rightarrow> UsbIpError \<Rightarrow> 'a response" where
  "error_response status err = ErrorReply status \<lparr>er_correlation_id = correlation_id err,
     er_category = ErrorCategory_fmt (category err), er_message = ErrorKind_fmt (kind err)\<rparr>"

section \<open>Handlers\<close>

record StatusResponse =
  st_status :: string
  st_version :: string
  st_uptime_seconds :: real
  st_uptime_secs :: nat
  st_active_connections :: nat
  st_devices_count :: nat
  st_urb_throughput :: nat
  st_error_count :: nat
  st_server_id :: string
  st_server_name :: string
  st_port :: u16

definition get_status ::
  "'b UsbBackend \<Rightarrow> string \<Rightarrow> real \<Rightarrow> ('b, 'i, 'f) AppState \<Rightarrow> StatusResponse" where
  "get_status B ver uptime s =
     \<lparr>st_status = ''running'', st_version = ver, st_uptime_seconds = uptime,
      st_uptime_secs = nat \<lfloor>uptime\<rfloor>, st_active_connections = card (dom (as_exports s)),
      st_devices_count = length (list_devices B (as_usb s)), st_urb_throughput = 0,
      st_error_count = 0, st_server_id = cfg_server_id (as_config s),
      st_server_name = cfg_server_name (as_config s), st_port = cfg_port (as_config s)\<rparr>"

record DeviceResponse =
  dr_busid :: string
  dr_vid :: u16
  dr_pid :: u16
  dr_speed :: u32
  dr_status :: string
  dr_connected_client :: "string option"
  dr_path :: string

definition get_devices :: "'b UsbBackend \<Rightarrow> ('b, 'i, 'f) AppState \<Rightarrow> DeviceResponse list" where
  "get_devices B s =
     map (\<lambda>dev. let bid = busid_str dev in
        \<lparr>dr_busid = bid, dr_vid = entry_vid dev, dr_pid = entry_pid dev, dr_speed = speed_val dev,
         dr_status = (if bid \<in> dom (as_exports s) then ''exported'' else ''available''),
         dr_connected_client = map_option fst (as_exports s bid), dr_path = path_str dev\<rparr>)
       (list_devices B (as_usb s))"

definition get_config :: "('b, 'i, 'f) AppState \<Rightarrow> ApiConfig" where
  "get_config s = as_config s"

text \<open>A JSON number that fits in \<^verbatim>\<open>u64\<close> is \<open>JUint\<close>; everything else is not an unsigned integer.\<close>

datatype json_value =
    JNull | JBool bool | JUint u64 | JInt int | JFloat real | JString string
  | JArray "json_value list" | JObject "(string \<times> json_value) list"

fun as_u64 :: "json_value \<Rightarrow> u64 option" where
  "as_u64 (JUint n) = Some n"
| "as_u64 _ = None"

definition validate_port :: "json_value \<Rightarrow> string \<Rightarrow> u16 UsbIpResult" where
  "validate_port value field =
     (case as_u64 value of
        None \<Rightarrow> Inl (Protocol (field @ '' must be an integer''))
      | Some n \<Rightarrow>
        if n = 0 \<or> n > 65535 then Inl (Protocol (field @ '' must be in 1..=65535''))
        else Inr (ucast n))"

record ConfigUpdateRequest =
  cu_bind_address :: "string option"
  cu_port :: "json_value option"
  cu_api_port :: "json_value option"
  cu_encryption_enabled :: "bool option"

definition set_port ::
  "json_value option \<Rightarrow> string \<Rightarrow> (u16 \<Rightarrow> ApiConfig \<Rightarrow> ApiConfig) \<Rightarrow> ApiConfig \<Rightarrow> ApiConfig UsbIpResult" where
  "set_port v field upd c =
     (case v of
        None \<Rightarrow> Inr c
      | Some v \<Rightarrow> (case validate_port v field of Inl e \<Rightarrow> Inl e | Inr p \<Rightarrow> Inr (upd p c)))"

definition apply_update :: "ConfigUpdateRequest \<Rightarrow> ApiConfig \<Rightarrow> ApiConfig UsbIpResult" where
  "apply_update req c =
     (case set_port (cu_port req) ''port'' (\<lambda>p c. c\<lparr>cfg_port := p\<rparr>) c of
        Inl e \<Rightarrow> Inl e
      | Inr c1 \<Rightarrow>
        (case set_port (cu_api_port req) ''api_port'' (\<lambda>p c. c\<lparr>cfg_api_port := p\<rparr>) c1 of
           Inl e \<Rightarrow> Inl e
         | Inr c2 \<Rightarrow>
           (let c3 = (case cu_bind_address req of None \<Rightarrow> c2 | Some b \<Rightarrow> c2\<lparr>cfg_bind_address := b\<rparr>)
            in Inr (case cu_encryption_enabled req of
                      None \<Rightarrow> c3 | Some e \<Rightarrow> c3\<lparr>cfg_encryption_enabled := e\<rparr>))))"

text \<open>\<open>cid\<close> is the correlation identifier a new error gets.\<close>

definition put_config ::
  "target_os \<Rightarrow> 'f fs_env \<Rightarrow> toml_crate \<Rightarrow> string \<Rightarrow> ConfigUpdateRequest \<Rightarrow> ('b, 'i, 'f) AppState
   \<Rightarrow> ApiConfig response \<times> ('b, 'i, 'f) AppState" where
  "put_config os FS TM cid req s =
     (case apply_update req (as_config s) of
        Inl e \<Rightarrow> (error_response 400 (UsbIpError_from_kind cid e), s)
      | Inr new_config \<Rightarrow>
        (case persist_config os FS TM new_config (as_files s) of
           (Inl e, f) \<Rightarrow> (error_response 500 (UsbIpError_from_kind cid e), s\<lparr>as_files := f\<rparr>)
         | (Inr _, f) \<Rightarrow> (Reply new_config, s\<lparr>as_config := new_config, as_files := f\<rparr>)))"

definition post_scan :: "(u32 \<Rightarrow> 'd list) \<Rightarrow> u32 option option \<Rightarrow> 'd list" where
  "post_scan browse body =
     (let requested = (case body of Some (Some t) \<Rightarrow> t | _ \<Rightarrow> 5)
      in browse (max 1 (min 30 requested)))"

record ConnectResponse =
  cr_busid :: string
  cr_vid :: u16
  cr_pid :: u16
  cr_status :: string

definition post_connect ::
  "'i RemoteImporter \<Rightarrow> (string \<Rightarrow> SocketAddr option) \<Rightarrow> string \<Rightarrow> string \<Rightarrow> u16 \<Rightarrow> string
   \<Rightarrow> ('b, 'i, 'f) AppState \<Rightarrow> (ConnectResponse response \<times> ('b, 'i, 'f) AppState) outcome option" where
  "post_connect I parse_addr cid host p bid s =
     map_option (\<lambda>o1. obind o1 (\<lambda>(r, i).
       Ret (case r of
         Inl e \<Rightarrow> (error_response 500 (UsbIpError_from_kind cid e), s\<lparr>as_importer := i\<rparr>)
       | Inr entry \<Rightarrow>
         (let b = busid_str entry;
              peer = (case parse_addr (host @ '':'' @ show_dec (unat p)) of
                        Some a \<Rightarrow> a | None \<Rightarrow> ''0.0.0.0:0'')
          in (Reply \<lparr>cr_busid = b, cr_vid = entry_vid entry, cr_pid = entry_pid entry,
                     cr_status = ''imported''\<rparr>,
              s\<lparr>as_importer := i, as_exports := (as_exports s)(b \<mapsto> (peer, entry))\<rparr>)))))
       (ri_import I (as_importer s) host p bid)"

definition post_disconnect ::
  "'i RemoteImporter \<Rightarrow> string \<Rightarrow> string \<Rightarrow> ('b, 'i, 'f) AppState
   \<Rightarrow> (string \<times> string) response \<times> ('b, 'i, 'f) AppState" where
  "post_disconnect I cid bid s =
     (let s1 = s\<lparr>as_importer := ri_abort I (as_importer s) bid\<rparr> in
      case as_exports s1 bid of
        Some _ \<Rightarrow> (Reply (bid, ''disconnected''), s1\<lparr>as_exports := (as_exports s1)(bid := None)\<rparr>)
      | None \<Rightarrow> (error_response 404 (UsbIpError_from_kind cid (DeviceNotFound bid)), s1))"

text \<open>The routes, in the order they are added; \<^verbatim>\<open>axum\<close> panics when two of them overlap.\<close>

datatype http_method = GET | PUT | POST

datatype endpoint =
    Get_status | Get_devices | Get_config | Put_config | Post_scan | Post_connect | Post_disconnect
  | Ws_events | Get_openapi

definition build_router :: "((string \<times> http_method) \<times> endpoint) list" where
  "build_router =
     [((''/api/status'', GET), Get_status),
      ((''/api/devices'', GET), Get_devices),
      ((''/api/config'', GET), Get_config),
      ((''/api/config'', PUT), Put_config),
      ((''/api/scan'', POST), Post_scan),
      ((''/api/connect'', POST), Post_connect),
      ((''/api/disconnect'', POST), Post_disconnect),
      ((''/api/events'', GET), Ws_events),
      ((''/api/openapi.json'', GET), Get_openapi)]"

section \<open>Importers\<close>

text \<open>
  \<^verbatim>\<open>RealImporter::import\<close> starts a runtime and blocks on it. \<open>nested\<close> says whether blocking
  panics because the caller already runs inside a runtime: the handlers do. The abort handles
  are recorded by nobody, so \<^verbatim>\<open>abort\<close> finds none.
\<close>

record 'v RealImporter =
  rl_client :: "'v Client"
  rl_handles :: "string \<rightharpoonup> nat"

definition real_import ::
  "bool \<Rightarrow> (string \<Rightarrow> SocketAddr option) \<Rightarrow> (SocketAddr \<Rightarrow> tcp UsbIpResult) \<Rightarrow> (nat \<Rightarrow> nat) \<Rightarrow> bool
   \<Rightarrow> 'v VhciBackend \<Rightarrow> 'v RealImporter \<Rightarrow> string \<Rightarrow> u16 \<Rightarrow> string
   \<Rightarrow> (UsbIpDeviceEntry UsbIpResult \<times> 'v RealImporter) outcome option" where
  "real_import nested parse_addr net chunk ovf V i host p bid =
     (case parse_addr (host @ '':'' @ show_dec (unat p)) of
        None \<Rightarrow> Some (Ret (Inl (InvalidMessage ''bad host:port''), i))
      | Some addr \<Rightarrow>
        if nested then Some Panic
        else map_option (\<lambda>r. obind r (\<lambda>(res, c).
               Ret (map_sum id im_device_entry res, i\<lparr>rl_client := c\<rparr>)))
             (import_device_once chunk ovf V (net addr) bid (rl_client i)))"

definition real_abort :: "'v RealImporter \<Rightarrow> string \<Rightarrow> 'v RealImporter" where
  "real_abort i bid = i\<lparr>rl_handles := (rl_handles i)(bid := None)\<rparr>"

text \<open>Without a controller the importer is a stub that refuses; its state is \<open>None\<close>.\<close>

definition unsupported_import :: "UsbIpDeviceEntry UsbIpResult" where
  "unsupported_import = Inl (NotSupported ''remote import requires a host with VHCI driver (Linux)'')"

definition importer_ops ::
  "bool \<Rightarrow> (string \<Rightarrow> SocketAddr option) \<Rightarrow> (SocketAddr \<Rightarrow> tcp UsbIpResult) \<Rightarrow> (nat \<Rightarrow> nat) \<Rightarrow> bool
   \<Rightarrow> 'v VhciBackend \<Rightarrow> 'v RealImporter option RemoteImporter" where
  "importer_ops nested parse_addr net chunk ovf V = \<lparr>
     ri_import = (\<lambda>s host p bid.
       case s of
         None \<Rightarrow> Some (Ret (unsupported_import, None))
       | Some i \<Rightarrow> map_option (\<lambda>o1. obind o1 (\<lambda>(r, i'). Ret (r, Some i')))
           (real_import nested parse_addr net chunk ovf V i host p bid)),
     ri_abort = (\<lambda>s bid. map_option (\<lambda>i. real_abort i bid) s)\<rparr>"

definition build_remote_importer ::
  "target_os \<Rightarrow> 'v os_env \<Rightarrow> 'v \<Rightarrow> ('v VhciBackend \<times> 'v RealImporter) option" where
  "build_remote_importer os E v =
     (if os = OS_Linux then
        (case detect_backend os E v of
           (Inr V, v') \<Rightarrow> Some (V, \<lparr>rl_client = new_with_vhci ClientConfig_default v', rl_handles = Map.empty\<rparr>)
         | (Inl _, _) \<Rightarrow> None)
      else None)"

lemma api_connect_panics:
  assumes "parse_addr (host @ '':'' @ show_dec (unat p)) = Some addr" "as_importer s = Some i"
  shows "post_connect (importer_ops True parse_addr net chunk ovf V) parse_addr cid host p bid s = Some Panic"
  using assms by (simp add: post_connect_def importer_ops_def real_import_def)

text \<open>The configuration of the API state of a server: the file, overridden by the command line.\<close>

definition app_state_config :: "ServerConfig \<Rightarrow> u16 \<Rightarrow> ApiConfig \<Rightarrow> ApiConfig" where
  "app_state_config config api_port loaded =
     loaded\<lparr>cfg_bind_address := bind_address config, cfg_port := port config,
       cfg_api_port := api_port, cfg_encryption_enabled := encryption_enabled config\<rparr>"

definition app_state ::
  "ServerConfig \<Rightarrow> u16 \<Rightarrow> 'b UsbDeviceManager \<Rightarrow> exports \<Rightarrow> 'i \<Rightarrow> ApiConfig \<Rightarrow> 'f \<Rightarrow> ('b, 'i, 'f) AppState" where
  "app_state config api_port usb ex importer loaded files =
     \<lparr>as_exports = ex, as_usb = usb, as_importer = importer,
      as_config = app_state_config config api_port loaded, as_files = files\<rparr>"

section \<open>Configuration updates\<close>

definition config_ok :: "ApiConfig \<Rightarrow> bool" where
  "config_ok c \<longleftrightarrow> cfg_port c \<noteq> 0 \<and> cfg_api_port c \<noteq> 0"

lemma validate_port_ok:
  assumes "validate_port v field = Inr p"
  shows "p \<noteq> 0 \<and> (\<exists>n. v = JUint n \<and> unat n = unat p)"
proof -
  obtain n where n: "v = JUint n" "n \<noteq> 0" "n \<le> 65535" "p = ucast n"
    using assms by (cases v) (auto simp: validate_port_def split: if_splits)
  have "unat n \<le> 65535" using n(3) by (simp add: word_le_nat_alt)
  then have "unat p = unat n" using n(4) by (simp add: unsigned_ucast_eq take_bit_eq_mod)
  moreover have "unat n \<noteq> 0" using n(2) by (simp add: unat_eq_zero)
  ultimately show ?thesis using n(1) by (metis unsigned_0)
qed

lemma set_port_Inr:
  "set_port v field upd c = Inr c' \<Longrightarrow> c' = c \<or> (\<exists>p. p \<noteq> 0 \<and> c' = upd p c)"
  using validate_port_ok by (auto simp: set_port_def split: option.splits sum.splits)

lemma apply_update_ok:
  assumes "config_ok c" "apply_update req c = Inr c'"
  shows "config_ok c' \<and> cfg_server_id c' = cfg_server_id c \<and> cfg_server_name c' = cfg_server_name c"
proof -
  obtain c1 where c1: "set_port (cu_port req) ''port'' (\<lambda>p c. c\<lparr>cfg_port := p\<rparr>) c = Inr c1"
    using assms(2) by (auto simp: apply_update_def split: sum.splits)
  obtain c2 where c2: "set_port (cu_api_port req) ''api_port'' (\<lambda>p c. c\<lparr>cfg_api_port := p\<rparr>) c1 = Inr c2"
    using assms(2) c1 by (auto simp: apply_update_def split: sum.splits)
  have "config_ok c2 \<and> cfg_server_id c2 = cfg_server_id c \<and> cfg_server_name c2 = cfg_server_name c"
    using assms(1) set_port_Inr [OF c1] set_port_Inr [OF c2] by (auto simp: config_ok_def)
  then show ?thesis
    using assms(2) c1 c2 by (auto simp: apply_update_def config_ok_def Let_def split: option.splits)
qed

text \<open>C15: A configuration update either answers with an error and leaves the configuration as it was,
  or answers with the configuration it installed; ports stay non-zero and the server's identity
  never changes.\<close>

theorem put_config_atomic:
  assumes "config_ok (as_config s)" "put_config os FS TM cid req s = (r, s')"
  shows "config_ok (as_config s') \<and> cfg_server_id (as_config s') = cfg_server_id (as_config s)
    \<and> as_exports s' = as_exports s
    \<and> (case r of Reply c \<Rightarrow> as_config s' = c
       | ErrorReply code _ \<Rightarrow> code \<in> {400, 500} \<and> as_config s' = as_config s)"
  using assms apply_update_ok [OF assms(1)]
  by (auto simp: put_config_def error_response_def split: sum.splits prod.splits)

text \<open>The routes do not overlap, and every handler is reached by exactly one of them.\<close>

lemma router_bijective: "distinct (map fst build_router)" "distinct (map snd build_router)"
  by (simp_all add: build_router_def)

lemma every_endpoint_routed: "e \<in> snd ` set build_router"
  by (cases e) (simp_all add: build_router_def)

text \<open>Reading the configuration after an update gives what the update answered, and what it was
  before when the update was refused.\<close>

lemma get_after_put:
  assumes "put_config os FS TM cid req s = (r, s')"
  shows "get_config s' = (case r of Reply c \<Rightarrow> c | ErrorReply _ _ \<Rightarrow> get_config s)"
  using assms by (auto simp: get_config_def put_config_def error_response_def split: sum.splits prod.splits)

text \<open>A file system that keeps what is written, for the witnesses.\<close>

definition map_fs :: "(string \<Rightarrow> string option) \<Rightarrow> (string \<rightharpoonup> string) fs_env" where
  "map_fs vars = \<lparr>fe_var = vars, fe_push = path_join, fe_parent = (\<lambda>_. None),
     fe_create_dir_all = (\<lambda>f _. (Inr (), f)), fe_write = (\<lambda>f p body. (Inr (), f(p \<mapsto> body))),
     fe_read_to_string = (\<lambda>f p. f p)\<rparr>"

definition sample_toml :: toml_crate where
  "sample_toml = \<lparr>toml_to_string = (\<lambda>c. Inr (cfg_server_name c)),
     toml_from_str = (\<lambda>body. Some (ApiConfig_default ''id'' body))\<rparr>"

definition sample_app :: "(UsbIpDeviceEntry list, unit, string \<rightharpoonup> string) AppState" where
  "sample_app = app_state ServerConfig_default 3241 sample_mgr Map.empty () (ApiConfig_default ''id'' ''host'') Map.empty"

theorem put_config_atomic_witness:
  "\<exists>r s'. put_config OS_Linux (map_fs (\<lambda>_. None)) sample_toml ''cid''
      \<lparr>cu_bind_address = None, cu_port = Some (JUint 70000), cu_api_port = None, cu_encryption_enabled = None\<rparr>
      sample_app = (r, s') \<and> config_ok (as_config s') \<and> as_config s' = as_config sample_app"
proof -
  let ?req = "\<lparr>cu_bind_address = None, cu_port = Some (JUint 70000), cu_api_port = None, cu_encryption_enabled = None\<rparr>"
  obtain r s' where p: "put_config OS_Linux (map_fs (\<lambda>_. None)) sample_toml ''cid'' ?req sample_app = (r, s')" by force
  then have "\<exists>code e. r = ErrorReply code e"
    by (auto simp: put_config_def apply_update_def set_port_def validate_port_def error_response_def)
  moreover have "config_ok (as_config sample_app)"
    by (simp add: config_ok_def sample_app_def app_state_def app_state_config_def ServerConfig_default_def)
  ultimately show ?thesis using p put_config_atomic [OF _ p] by auto
qed

definition fs_keeps_writes :: "'f fs_env \<Rightarrow> bool" where
  "fs_keeps_writes FS \<longleftrightarrow>
     (\<forall>f p body f'. fe_write FS f p body = (Inr (), f') \<longrightarrow> fe_read_to_string FS f' p = Some body)"

definition toml_round_trips :: "toml_crate \<Rightarrow> bool" where
  "toml_round_trips TM \<longleftrightarrow> (\<forall>c body. toml_to_string TM c = Inr body \<longrightarrow> toml_from_str TM body = Some c)"

text \<open>C16: What an update installs is what the next start reads: on a file system that returns what was
  written, with a TOML crate that parses what it printed, loading the file gives the updated
  configuration.\<close>

theorem config_survives_restart:
  assumes "fs_keeps_writes FS" "toml_round_trips TM"
    and "put_config os FS TM cid req s = (Reply c, s')"
  shows "load_config os FS TM dflt (as_files s') = c"
proof -
  have p: "persist_config os FS TM c (as_files s) = (Inr (), as_files s')"
    using assms(3) by (auto simp: put_config_def error_response_def split: sum.splits prod.splits)
  then obtain body f1 where "toml_to_string TM c = Inr body"
      "fe_write FS f1 (config_path os FS) body = (Inr (), as_files s')"
    by (auto simp: persist_config_def Let_def split: sum.splits prod.splits option.splits)
  then show ?thesis using assms(1,2) by (simp add: load_config_def fs_keeps_writes_def toml_round_trips_def)
qed

text \<open>A printer that refuses every configuration but one is enough for a witness.\<close>

definition one_toml :: "ApiConfig \<Rightarrow> toml_crate" where
  "one_toml c0 = \<lparr>toml_to_string = (\<lambda>c. if c = c0 then Inr ''config'' else Inl ''unsupported''),
     toml_from_str = (\<lambda>_. Some c0)\<rparr>"

theorem config_survives_restart_witness:
  "\<exists>c s'. put_config OS_Linux (map_fs (\<lambda>_. None)) (one_toml ((as_config sample_app)\<lparr>cfg_port := 4000\<rparr>)) ''cid''
      \<lparr>cu_bind_address = None, cu_port = Some (JUint 4000), cu_api_port = None, cu_encryption_enabled = None\<rparr>
      sample_app = (Reply c, s') \<and> cfg_port c = 4000
    \<and> load_config OS_Linux (map_fs (\<lambda>_. None)) (one_toml ((as_config sample_app)\<lparr>cfg_port := 4000\<rparr>))
        (ApiConfig_default ''x'' ''y'') (as_files s') = c"
proof -
  let ?c = "(as_config sample_app)\<lparr>cfg_port := 4000\<rparr>" and ?FS = "map_fs (\<lambda>_. None)"
  let ?req = "\<lparr>cu_bind_address = None, cu_port = Some (JUint 4000), cu_api_port = None, cu_encryption_enabled = None\<rparr>"
  have "apply_update ?req (as_config sample_app) = Inr ?c"
    by (simp add: apply_update_def set_port_def validate_port_def)
  moreover have "\<exists>f. persist_config OS_Linux ?FS (one_toml ?c) ?c (as_files sample_app) = (Inr (), f)"
    by (simp add: persist_config_def map_fs_def one_toml_def Let_def)
  ultimately obtain s' where p: "put_config OS_Linux ?FS (one_toml ?c) ''cid'' ?req sample_app = (Reply ?c, s')"
    by (auto simp: put_config_def)
  have "fs_keeps_writes ?FS" "toml_round_trips (one_toml ?c)"
    by (simp_all add: fs_keeps_writes_def map_fs_def toml_round_trips_def one_toml_def)
  from config_survives_restart [OF this p, of "ApiConfig_default ''x'' ''y''"] p show ?thesis by auto
qed

section \<open>Devices and exports\<close>

text \<open>The device list of the API agrees with the export table of the wire protocol: it has one line
  per device of the backend, in order, and a line says \<open>exported\<close>, with the client's address,
  exactly for the devices whose bus id is in the table.\<close>

theorem get_devices_exports:
  "map dr_busid (get_devices B s) = map busid_str (list_devices B (as_usb s))
   \<and> list_all (\<lambda>d. (dr_status d = ''exported'') = (dr_busid d \<in> dom (as_exports s))
        \<and> (dr_status d = ''available'') = (dr_connected_client d = None)
        \<and> dr_connected_client d = map_option fst (as_exports s (dr_busid d))) (get_devices B s)"
  by (auto simp: get_devices_def list_all_iff Let_def)

text \<open>A device imported from another server is entered in the same table under the other server's
  bus id.\<close>

lemma post_connect_exports:
  assumes "post_connect I parse_addr cid host p bid s = Some (Ret (Reply r, s'))"
  shows "as_exports s' (cr_busid r) \<noteq> None \<and> as_usb s' = as_usb s"
proof -
  obtain res i where "ri_import I (as_importer s) host p bid = Some (Ret (res, i))"
    using assms by (auto simp: post_connect_def obind_Ret)
  then show ?thesis
    using assms by (cases res) (auto simp: post_connect_def error_response_def Let_def)
qed

text \<open>After \<^verbatim>\<open>POST /api/connect\<close> imported a device from another server, an import request over
  the wire for this server's own device with the same bus id is answered busy, although nobody
  uses that device.\<close>

theorem api_import_blocks_local_device:
  assumes "post_connect I parse_addr cid host p bid s = Some (Ret (Reply r, s'))"
    and "get_device_entry B (as_usb s) (cr_busid r) = Some entry"
    and "rx t = busid_buf" "length busid_buf = 32" "requested_busid busid_buf = cr_busid r" "tx_ok t = None"
  shows "\<exists>t'. handle_import R B env enc addr \<lparr>c_tcp = t, c_usb = as_usb s', c_exports = as_exports s'\<rparr>
      = (Inr (), \<lparr>c_tcp = t', c_usb = as_usb s', c_exports = as_exports s'\<rparr>)
    \<and> tx t' = tx t @ UsbIpHeader_as_bytes (UsbIpHeader_with_status OP_REP_IMPORT STATUS_ST_DEV_BUSY)"
  using handle_import_busy [where c = "\<lparr>c_tcp = t, c_usb = as_usb s', c_exports = as_exports s'\<rparr>" and r = "[]"
      and busid_buf = busid_buf and B = B and entry = entry and R = R and env = env and enc = enc and addr = addr]
    post_connect_exports [OF assms(1)] assms(2-6)
  by simp

definition sample_importer :: "unit RemoteImporter" where
  "sample_importer = \<lparr>ri_import = (\<lambda>i _ _ _. Some (Ret (Inr sample_entry, i))), ri_abort = (\<lambda>i _. i)\<rparr>"

lemma sample_entry_lookup:
  "busid_str sample_entry = ''1-1''" "get_device_entry FakeBackend sample_mgr ''1-1'' = Some sample_entry"
proof -
  show "busid_str sample_entry = ''1-1''"
    by (rule busid_str_copied) (simp_all add: sample_entry_def make_test_entry_def as_bytes_def)
  have "format_busid 1 1 = ''1-1''"
    by (simp add: format_busid_def show_radix.simps digit_char_def char_of_def bit_0)
  then have "parse_busid ''1-1'' = Inr (1, 1)" using parse_busid_format_eq [of 1 1] by simp
  then show "get_device_entry FakeBackend sample_mgr ''1-1'' = Some sample_entry"
    by (simp add: get_device_entry_def find_entry_def list_devices_def FakeBackend_def sample_mgr_def
        sample_entry_def make_test_entry_def)
qed

theorem api_import_blocks_local_device_witness:
  "\<exists>r s' t'. post_connect sample_importer (\<lambda>_. None) ''cid'' ''far'' 3240 ''1-1'' sample_app = Some (Ret (Reply r, s'))
    \<and> handle_import toy_ring FakeBackend sample_env False ''peer''
        \<lparr>c_tcp = sample_tcp (copy_padded 32 31 ''1-1''), c_usb = as_usb s', c_exports = as_exports s'\<rparr>
      = (Inr (), \<lparr>c_tcp = t', c_usb = as_usb s', c_exports = as_exports s'\<rparr>)
    \<and> tx t' = UsbIpHeader_as_bytes (UsbIpHeader_with_status OP_REP_IMPORT STATUS_ST_DEV_BUSY)"
proof -
  obtain r s' where p: "post_connect sample_importer (\<lambda>_. None) ''cid'' ''far'' 3240 ''1-1'' sample_app = Some (Ret (Reply r, s'))"
    and r: "cr_busid r = ''1-1''"
    by (simp add: post_connect_def sample_importer_def Let_def sample_entry_lookup)
  have "requested_busid (copy_padded 32 31 ''1-1'') = ''1-1''"
    by (rule requested_busid_copied) (simp_all add: as_bytes_def)
  moreover have "as_usb sample_app = sample_mgr" by (simp add: sample_app_def app_state_def)
  ultimately show ?thesis
    using p r sample_entry_lookup(2) api_import_blocks_local_device [OF p, where B = FakeBackend
        and entry = sample_entry and t = "sample_tcp (copy_padded 32 31 ''1-1'')" and R = toy_ring
        and env = sample_env and enc = False and addr = "''peer''" and busid_buf = "copy_padded 32 31 ''1-1''"]
    by (auto simp: sample_tcp_def)
qed

section \<open>The event stream\<close>

text \<open>
  One WebSocket connection on the sequence of things its loop waits for: messages of the client and
  samples of the latency channel, in the order they are ready. \<open>send_ok\<close> tells which of the frames
  can be sent; the result is the frames that were. Sending a pong or the greeting may fail silently.
\<close>

datatype ws_message = WsPing bytes | WsClose | WsOther

datatype 's ws_input =
    Incoming ws_message
  | IncomingEnd
  | IncomingError
  | Sample 's
  | Lagged
  | ChannelClosed

datatype ws_frame = WsText string | WsPong bytes

definition ws_connected :: ws_frame where
  "ws_connected = WsText ''{\"event\":\"connected\",\"data\":{}}''"

definition sent_if :: "bool \<Rightarrow> ws_frame \<Rightarrow> ws_frame list" where
  "sent_if ok f = (if ok then [f] else [])"

fun ws_loop :: "('s \<Rightarrow> string) \<Rightarrow> (nat \<Rightarrow> bool) \<Rightarrow> nat \<Rightarrow> 's ws_input list \<Rightarrow> ws_frame list" where
  "ws_loop frame send_ok i [] = []"
| "ws_loop frame send_ok i (Incoming (WsPing p) # es) =
     sent_if (send_ok i) (WsPong p) @ ws_loop frame send_ok (Suc i) es"
| "ws_loop frame send_ok i (Incoming WsClose # es) = []"
| "ws_loop frame send_ok i (Incoming WsOther # es) = ws_loop frame send_ok i es"
| "ws_loop frame send_ok i (IncomingEnd # es) = []"
| "ws_loop frame send_ok i (IncomingError # es) = []"
| "ws_loop frame send_ok i (Sample s # es) =
     (if send_ok i then WsText (frame s) # ws_loop frame send_ok (Suc i) es else [])"
| "ws_loop frame send_ok i (Lagged # es) = ws_loop frame send_ok i es"
| "ws_loop frame send_ok i (ChannelClosed # es) = []"

definition handle_ws :: "('s \<Rightarrow> string) \<Rightarrow> (nat \<Rightarrow> bool) \<Rightarrow> 's ws_input list \<Rightarrow> ws_frame list" where
  "handle_ws frame send_ok es = sent_if (send_ok 0) ws_connected @ ws_loop frame send_ok 1 es"

fun ends_stream :: "'s ws_input \<Rightarrow> bool" where
  "ends_stream (Incoming m) \<longleftrightarrow> m = WsClose"
| "ends_stream IncomingEnd \<longleftrightarrow> True"
| "ends_stream IncomingError \<longleftrightarrow> True"
| "ends_stream ChannelClosed \<longleftrightarrow> True"
| "ends_stream _ \<longleftrightarrow> False"

fun samples_of :: "'s ws_input list \<Rightarrow> 's list" where
  "samples_of [] = []"
| "samples_of (Sample s # es) = s # samples_of es"
| "samples_of (_ # es) = samples_of es"

text \<open>
  A client that keeps its connection gets every sample that was not skipped by the channel, as one
  text frame each and in order; a slow client only misses samples and is not disconnected.
\<close>

lemma ws_delivers_samples:
  assumes "\<And>i. send_ok i"
  shows "filter (\<lambda>f. case f of WsText _ \<Rightarrow> True | _ \<Rightarrow> False) (ws_loop frame send_ok i es)
    = map (\<lambda>s. WsText (frame s)) (samples_of (takeWhile (\<lambda>e. \<not> ends_stream e) es))"
  using assms by (induction frame send_ok i es rule: ws_loop.induct) (simp_all add: sent_if_def)

end
