(* ===== verification/Daemon.thy ===== *)
theory Daemon
  imports Client
begin

text \<open>
  \<^verbatim>\<open>client/usbip-client/src/daemon.rs\<close>: the background service that manages imported devices. The
  state holds the managed connections behind the lock, the client, the cancellation tokens (a
  token is a number, cancelled or not) and the auto-connect tasks that run. One control connection is
  modelled down to the bytes of its lines (\<open>handle_connection\<close>), one command as a whole
  (\<open>handle_command\<close>), one auto-connect task as a loop with the moments it is cancelled as a parameter.
  How all of them interleave is a step relation (\<open>daemon_step\<close>), in which a Connect is cut at the
  points where it does not hold the lock. Parameters are also the network, the VHCI backend, the
  JSON and TOML crates, the directories of the \<^verbatim>\<open>dirs\<close> crate and whether blocking on a lock inside
  the runtime panics (\<open>nested\<close>), as \<^verbatim>\<open>tokio\<close> documents.
\<close>

section \<open>Configuration\<close>

record ConnectionConfig =
  cn_server :: SocketAddr
  cn_busid :: string

record DaemonConfig =
  dc_socket_path :: string
  dc_connections :: "ConnectionConfig list"

record dirs_env =
  de_exists :: "string \<Rightarrow> bool"
  de_runtime_dir :: "string option"
  de_data_local_dir :: "string option"
  de_config_dir :: "string option"

definition default_run_dir :: "dirs_env \<Rightarrow> string" where
  "default_run_dir D =
     (let system_run = ''/var/run/usbip-client'' in
      if de_exists D system_run then system_run
      else case de_runtime_dir D of
        Some runtime \<Rightarrow> path_join runtime ''usbip-client''
      | None \<Rightarrow>
        (case de_data_local_dir D of
           Some data \<Rightarrow> path_join data ''usbip-client''
         | None \<Rightarrow> ''/tmp/usbip-client''))"

definition default_socket_path :: "dirs_env \<Rightarrow> string" where
  "default_socket_path D = path_join (default_run_dir D) ''usbip-client.sock''"

definition DaemonConfig_default :: "dirs_env \<Rightarrow> DaemonConfig" where
  "DaemonConfig_default D = \<lparr>dc_socket_path = default_socket_path D, dc_connections = []\<rparr>"

definition DaemonConfig_load ::
  "dirs_env \<Rightarrow> (string \<Rightarrow> io_error + string) \<Rightarrow> (string \<Rightarrow> string + DaemonConfig) \<Rightarrow> string
   \<Rightarrow> DaemonConfig UsbIpResult" where
  "DaemonConfig_load D read_to_string from_toml path =
     (if \<not> de_exists D path then Inr (DaemonConfig_default D)
      else case read_to_string path of
        Inl e \<Rightarrow> Inl (Io e)
      | Inr content \<Rightarrow>
        (case from_toml content of
           Inl e \<Rightarrow> Inl (InvalidMessage (''bad config: '' @ e)) | Inr config \<Rightarrow> Inr config))"

definition default_paths :: "dirs_env \<Rightarrow> string list" where
  "default_paths D =
     ''/etc/usbip-client/config.toml'' #
     (case de_config_dir D of
        Some config \<Rightarrow> [path_join (path_join config ''usbip-client'') ''config.toml''] | None \<Rightarrow> [])"

definition find_config :: "dirs_env \<Rightarrow> string option" where
  "find_config D = find (de_exists D) (default_paths D)"

section \<open>Commands\<close>

datatype DaemonCommand =
    CmdConnect SocketAddr string
  | CmdDisconnect string
  | CmdStatus
  | CmdShutdown

record ConnectionStatus =
  cs_server :: SocketAddr
  cs_busid :: string
  cs_state :: string
  cs_error :: "string option"

record DaemonResponse =
  rs_status :: string
  rs_message :: "string option"
  rs_connections :: "ConnectionStatus list option"

datatype ConnectionState = CsDisconnected | CsConnecting | CsConnected | CsError string

record ManagedConnection =
  mc_config :: ConnectionConfig
  mc_state :: ConnectionState
  mc_token :: nat

record 'v DaemonManager =
  dm_config :: DaemonConfig
  dm_client :: "'v Client"
  dm_conns :: "ManagedConnection list"
  dm_shutdown :: bool
  dm_cancelled :: "nat list"
  dm_next_token :: nat
  dm_tasks :: "(ConnectionConfig \<times> nat) list"

definition daemon_client_config :: ClientConfig where
  "daemon_client_config = ClientConfig_default\<lparr>cc_use_mdns := False, cc_auto_reconnect := False\<rparr>"

definition DaemonManager_new :: "DaemonConfig \<Rightarrow> 'v \<Rightarrow> 'v DaemonManager" where
  "DaemonManager_new config v =
     \<lparr>dm_config = config, dm_client = new_with_vhci daemon_client_config v, dm_conns = [],
      dm_shutdown = False, dm_cancelled = [], dm_next_token = 0, dm_tasks = []\<rparr>"

text \<open>A managed connection is pushed under the lock, with a new token; its auto-connect task is spawned
  after that. \<open>dm_tasks\<close> are the tasks that run, each with its target and its token.\<close>

definition push_conn :: "ConnectionConfig \<Rightarrow> ConnectionState \<Rightarrow> 'v DaemonManager \<Rightarrow> 'v DaemonManager" where
  "push_conn cfg st d =
     d\<lparr>dm_conns := dm_conns d @ [\<lparr>mc_config = cfg, mc_state = st, mc_token = dm_next_token d\<rparr>],
       dm_next_token := Suc (dm_next_token d)\<rparr>"

definition spawn_task :: "ConnectionConfig \<Rightarrow> nat \<Rightarrow> 'v DaemonManager \<Rightarrow> 'v DaemonManager" where
  "spawn_task cfg t d = d\<lparr>dm_tasks := dm_tasks d @ [(cfg, t)]\<rparr>"

definition manage :: "ConnectionConfig \<Rightarrow> ConnectionState \<Rightarrow> 'v DaemonManager \<Rightarrow> 'v DaemonManager" where
  "manage cfg st d = spawn_task cfg (dm_next_token d) (push_conn cfg st d)"

definition start_auto_connect :: "bool \<Rightarrow> ConnectionConfig \<Rightarrow> 'v DaemonManager \<Rightarrow> 'v DaemonManager outcome" where
  "start_auto_connect nested cfg d = (if nested then Panic else Ret (manage cfg CsDisconnected d))"

fun start_all :: "bool \<Rightarrow> ConnectionConfig list \<Rightarrow> 'v DaemonManager \<Rightarrow> 'v DaemonManager outcome" where
  "start_all nested [] d = Ret d"
| "start_all nested (c # cs) d = obind (start_auto_connect nested c d) (start_all nested cs)"

definition shutdown :: "'v DaemonManager \<Rightarrow> 'v DaemonManager" where
  "shutdown d = d\<lparr>dm_shutdown := True\<rparr>"

definition ok_response :: "string \<Rightarrow> DaemonResponse" where
  "ok_response m = \<lparr>rs_status = ''ok'', rs_message = Some m, rs_connections = None\<rparr>"

definition err_response :: "string \<Rightarrow> DaemonResponse" where
  "err_response m = \<lparr>rs_status = ''error'', rs_message = Some m, rs_connections = None\<rparr>"

definition connection_status :: "ManagedConnection \<Rightarrow> ConnectionStatus" where
  "connection_status c =
     \<lparr>cs_server = cn_server (mc_config c), cs_busid = cn_busid (mc_config c),
      cs_state = (case mc_state c of CsDisconnected \<Rightarrow> ''disconnected'' | CsConnecting \<Rightarrow> ''connecting''
                  | CsConnected \<Rightarrow> ''connected'' | CsError e \<Rightarrow> ''error: '' @ e),
      cs_error = (case mc_state c of CsError e \<Rightarrow> Some e | _ \<Rightarrow> None)\<rparr>"

text \<open>What a command needs from outside: the connection the import gets, the sizes of its reads, the
  build, the task the client spawns and the identifier of a new error.\<close>

record cmd_env =
  ce_net :: "SocketAddr \<Rightarrow> tcp UsbIpResult"
  ce_chunk :: "nat \<Rightarrow> nat"
  ce_ovf :: bool
  ce_task :: task_env
  ce_cid :: string

text \<open>What becomes of a finished import: the response and the new state.\<close>

definition connect_finished ::
  "string \<Rightarrow> SocketAddr \<Rightarrow> string \<Rightarrow> ImportedDevice UsbIpResult \<Rightarrow> 'v Client \<Rightarrow> 'v DaemonManager
   \<Rightarrow> DaemonResponse \<times> 'v DaemonManager" where
  "connect_finished cid server bid res c d =
     (case res of
        Inl e \<Rightarrow>
          (err_response (''import failed: '' @ UsbIpError_fmt (UsbIpError_from_kind cid e)), d\<lparr>dm_client := c\<rparr>)
      | Inr dev \<Rightarrow>
          (ok_response (''imported '' @ show_hex_pad 4 (unat (entry_vid (im_device_entry dev)))
             @ '':'' @ show_hex_pad 4 (unat (entry_pid (im_device_entry dev))) @ '' from '' @ server),
           manage \<lparr>cn_server = server, cn_busid = bid\<rparr> CsConnected (d\<lparr>dm_client := c\<rparr>)))"

definition handle_command ::
  "cmd_env \<Rightarrow> 'v VhciBackend \<Rightarrow> DaemonCommand \<Rightarrow> 'v DaemonManager
   \<Rightarrow> (DaemonResponse \<times> 'v DaemonManager) outcome option" where
  "handle_command ce V cmd d =
     (case cmd of
        CmdConnect server bid \<Rightarrow>
          (if list_ex (\<lambda>c. cn_busid (mc_config c) = bid \<and> cn_server (mc_config c) = server) (dm_conns d)
           then Some (Ret (ok_response (''already managing '' @ bid @ '' from '' @ server), d))
           else
             map_option (\<lambda>o1. obind o1 (\<lambda>(res, c, _). Ret (connect_finished (ce_cid ce) server bid res c d)))
               (import_device (ce_chunk ce) (ce_ovf ce) (ce_task ce) V (ce_net ce server) bid (dm_client d)))
      | CmdDisconnect bid \<Rightarrow>
          Some (Ret (case find (\<lambda>c. cn_busid (mc_config c) = bid) (dm_conns d) of
             Some mc \<Rightarrow>
               (ok_response (''disconnected '' @ bid),
                d\<lparr>dm_conns := remove1 mc (dm_conns d), dm_cancelled := mc_token mc # dm_cancelled d\<rparr>)
           | None \<Rightarrow> (err_response (''no connection found for busid '' @ bid), d)))
      | CmdStatus \<Rightarrow>
          Some (Ret (\<lparr>rs_status = ''ok'', rs_message = None,
                      rs_connections = Some (map connection_status (dm_conns d))\<rparr>, d))
      | CmdShutdown \<Rightarrow> Some (Ret (ok_response ''shutting down'', shutdown d)))"

section \<open>The control socket\<close>

record json_crate =
  js_parse_cmd :: "string \<Rightarrow> string + DaemonCommand"
  js_print_cmd :: "DaemonCommand \<Rightarrow> string + string"
  js_parse_response :: "string \<Rightarrow> string + DaemonResponse"
  js_print_response :: "DaemonResponse \<Rightarrow> string + string"

text \<open>
  What the other end of a stream does after the bytes it has sent so far: it keeps the stream open,
  closes it, or the read fails. \<open>read_line\<close> returns the bytes up to and with the next line feed, or
  up to the end of a closed stream, when they are UTF-8, with the bytes left over; on an open stream
  without a line feed it waits (\<open>None\<close>).
\<close>

datatype stream_end = StaysOpen | PeerCloses | PeerFails io_error

definition line_text :: "string \<Rightarrow> io_error + string" where
  "line_text l =
     (if utf8_valid (as_bytes l) then Inr l
      else Inl \<lparr>io_kind = InvalidData, io_msg = ''stream did not contain valid UTF-8''\<rparr>)"

definition read_line :: "stream_end \<Rightarrow> string \<Rightarrow> ((io_error + string) \<times> string) option" where
  "read_line fin input =
     (let line = takeWhile (\<lambda>c. c \<noteq> CHR 0x0A) input in
      if length line < length input
      then Some (line_text (line @ [CHR 0x0A]), drop (Suc (length line)) input)
      else case fin of
        StaysOpen \<Rightarrow> None
      | PeerCloses \<Rightarrow> Some (line_text input, [])
      | PeerFails e \<Rightarrow> Some (Inl e, []))"

lemma read_line_shorter:
  "read_line fin input = Some (Inr line, rest) \<Longrightarrow> line \<noteq> [] \<Longrightarrow> length rest < length input"
  by (auto simp: read_line_def line_text_def Let_def split: if_splits stream_end.splits)

text \<open>
  One connection: the bytes the client has sent and what it does after them. The result is how the
  handler ended (\<open>None\<close>: it waits for the next line), the bytes it wrote and the state. Writing to
  the socket succeeds. The whole is \<open>None\<close> when an import does not return.
\<close>

function handle_connection ::
  "json_crate \<Rightarrow> cmd_env \<Rightarrow> 'v VhciBackend \<Rightarrow> stream_end \<Rightarrow> string \<Rightarrow> 'v DaemonManager
   \<Rightarrow> (unit UsbIpResult option \<times> string \<times> 'v DaemonManager) outcome option" where
  "handle_connection J ce V fin input d =
     (case read_line fin input of
        None \<Rightarrow> Some (Ret (None, [], d))
      | Some (Inl e, _) \<Rightarrow> Some (Ret (Some (Inl (Io e)), [], d))
      | Some (Inr line, rest) \<Rightarrow>
        if line = [] then Some (Ret (Some (Inr ()), [], d))
        else
          (let trimmed = str_trim line in
           if trimmed = [] then handle_connection J ce V fin rest d
           else
             (case (case js_parse_cmd J trimmed of
                      Inr cmd \<Rightarrow> handle_command ce V cmd d
                    | Inl e \<Rightarrow> Some (Ret (err_response (''invalid command: '' @ e), d))) of
                None \<Rightarrow> None
              | Some Panic \<Rightarrow> Some Panic
              | Some (Ret (response, d')) \<Rightarrow>
                (case js_print_response J response of
                   Inl e \<Rightarrow> Some (Ret (Some (Inl (Serialization (''serialization error: '' @ e))), [], d'))
                 | Inr json \<Rightarrow>
                   (if dm_shutdown d' then Some (Ret (Some (Inr ()), json @ [CHR 0x0A], d'))
                    else map_option (\<lambda>o1. obind o1 (\<lambda>(r, out, d''). Ret (r, (json @ [CHR 0x0A]) @ out, d'')))
                      (handle_connection J ce V fin rest d'))))))"
  by pat_completeness auto
termination
  by (relation "measure (\<lambda>(J, ce, V, fin, input, d). length input)") (auto dest: read_line_shorter)

declare handle_connection.simps [simp del]

text \<open>The other end: what is sent, and what is made of the first line that comes back (\<open>None\<close>: it
  waits for the line).\<close>

definition daemon_request :: "json_crate \<Rightarrow> DaemonCommand \<Rightarrow> string UsbIpResult" where
  "daemon_request J cmd =
     (case js_print_cmd J cmd of
        Inl e \<Rightarrow> Inl (Serialization (''serialization error: '' @ e)) | Inr json \<Rightarrow> Inr (json @ [CHR 0x0A]))"

definition daemon_answer :: "json_crate \<Rightarrow> stream_end \<Rightarrow> string \<Rightarrow> DaemonResponse UsbIpResult option" where
  "daemon_answer J fin input =
     (case read_line fin input of
        None \<Rightarrow> None
      | Some (Inl e, _) \<Rightarrow> Some (Inl (Io e))
      | Some (Inr buf, _) \<Rightarrow>
        Some (case js_parse_response J (str_trim buf) of
           Inl e \<Rightarrow> Inl (InvalidMessage (''invalid response: '' @ e)) | Inr r \<Rightarrow> Inr r))"

section \<open>Running the daemon\<close>

record sock_env =
  so_parent :: "string \<Rightarrow> string option"
  so_create_dir_all :: "string \<Rightarrow> io_error option"
  so_exists :: "string \<Rightarrow> bool"
  so_remove_file :: "string \<Rightarrow> io_error option"
  so_bind :: "string \<Rightarrow> io_error option"

text \<open>The socket: its directory, a stale file, the listener.\<close>

definition prepare_socket :: "sock_env \<Rightarrow> string \<Rightarrow> unit UsbIpResult" where
  "prepare_socket S path =
     (case (case so_parent S path of None \<Rightarrow> None | Some p \<Rightarrow> so_create_dir_all S p) of
        Some e \<Rightarrow> Inl (Io e)
      | None \<Rightarrow>
        (case (if so_exists S path then so_remove_file S path else None) of
           Some e \<Rightarrow> Inl (Io e)
         | None \<Rightarrow> (case so_bind S path of Some e \<Rightarrow> Inl (Io e) | None \<Rightarrow> Inr ())))"

text \<open>
  A running daemon: the state behind the lock, the configured connections it has still to start, the
  control connections that are inside a Connect, and the tasks that have ended. Every control
  connection has a task of its own, so a Connect is three steps between which anything else can
  happen: the check under the lock, the push under the lock once the import succeeded, and the spawn
  of the auto-connect task.
\<close>

datatype handler = Importing ConnectionConfig | Spawning ConnectionConfig nat

record 'v dsys =
  ds_mgr :: "'v DaemonManager"
  ds_pending :: "ConnectionConfig list"
  ds_handlers :: "nat \<Rightarrow> handler option"
  ds_ended :: "nat set"

definition daemon_boot :: "sock_env \<Rightarrow> 'v DaemonManager \<Rightarrow> 'v dsys UsbIpResult" where
  "daemon_boot S d =
     (case prepare_socket S (dc_socket_path (dm_config d)) of
        Inl e \<Rightarrow> Inl e
      | Inr _ \<Rightarrow> Inr \<lparr>ds_mgr = d, ds_pending = dc_connections (dm_config d), ds_handlers = (\<lambda>_. None), ds_ended = {}\<rparr>)"

definition managed :: "ConnectionConfig \<Rightarrow> 'v DaemonManager \<Rightarrow> bool" where
  "managed cfg d \<longleftrightarrow>
     list_ex (\<lambda>c. cn_busid (mc_config c) = cn_busid cfg \<and> cn_server (mc_config c) = cn_server cfg) (dm_conns d)"

section \<open>The auto-connect loop\<close>

definition set_conn_state :: "ConnectionConfig \<Rightarrow> ConnectionState \<Rightarrow> 'v DaemonManager \<Rightarrow> 'v DaemonManager" where
  "set_conn_state cfg st d =
     (case List.extract (\<lambda>c. mc_config c = cfg) (dm_conns d) of
        None \<Rightarrow> d
      | Some (xs, c, ys) \<Rightarrow> d\<lparr>dm_conns := xs @ c\<lparr>mc_state := st\<rparr> # ys\<rparr>)"

datatype cancel_point = AtStart | WhileForwarding | WhileWaiting

record auto_env =
  ae_cancelled :: "nat \<Rightarrow> cancel_point \<Rightarrow> bool"
  ae_import_net :: "nat \<Rightarrow> tcp UsbIpResult"
  ae_forward_net :: "nat \<Rightarrow> tcp UsbIpResult"
  ae_stop :: "nat \<Rightarrow> nat \<Rightarrow> bool"
  ae_chunk :: "nat \<Rightarrow> nat"
  ae_ovf :: bool
  ae_f64 :: f64_env
  ae_jitter :: "nat \<Rightarrow> real"

text \<open>One round up to the retry decision: \<open>True\<close> when the connection was lost.\<close>

definition auto_round ::
  "auto_env \<Rightarrow> 'v VhciBackend \<Rightarrow> ConnectionConfig \<Rightarrow> nat \<Rightarrow> 'v DaemonManager
   \<Rightarrow> (bool \<times> 'v DaemonManager) outcome option" where
  "auto_round A V cfg i d =
     (if ae_cancelled A i AtStart then Some (Ret (False, d))
      else
        (let d1 = set_conn_state cfg CsConnecting d in
         map_option (\<lambda>o1. obind o1 (\<lambda>(res, c).
             (let d2 = d1\<lparr>dm_client := c\<rparr> in
              case res of
                Inl _ \<Rightarrow> Ret (True, set_conn_state cfg (CsError ''connection lost, retrying'') d2)
              | Inr _ \<Rightarrow>
                (let d3 = set_conn_state cfg CsConnected d2 in
                 if ae_cancelled A i WhileForwarding then Ret (False, d3)
                 else
                   (case run_urb_forwarding V (ae_stop A i) (ae_forward_net A i) (cn_busid cfg) (dm_client d3) of
                      (Inr _, c') \<Rightarrow> Ret (False, d3\<lparr>dm_client := c'\<rparr>)
                    | (Inl _, c') \<Rightarrow>
                      Ret (True, set_conn_state cfg (CsError ''connection lost, retrying'')
                             (d3\<lparr>dm_client := c'\<rparr>)))))))
           (import_device_once (ae_chunk A) (ae_ovf A) V (ae_import_net A i) (cn_busid cfg) (dm_client d1))))"

partial_function (option) auto_connect_loop ::
  "auto_env \<Rightarrow> 'v VhciBackend \<Rightarrow> ConnectionConfig \<Rightarrow> nat \<Rightarrow> ReconnectState \<Rightarrow> 'v DaemonManager
   \<Rightarrow> 'v DaemonManager outcome option" where
  "auto_connect_loop A V cfg i s d =
     (case auto_round A V cfg i d of
        None \<Rightarrow> None
      | Some Panic \<Rightarrow> Some Panic
      | Some (Ret (lost, d')) \<Rightarrow>
        if \<not> lost then Some (Ret d')
        else case decide_reconnect (ae_f64 A) (ae_jitter A i) (Some (ErrorKind_category ConnectionClosed))
                    ReconnectConfig_default s of
          Panic \<Rightarrow> Some Panic
        | Ret (StopRetrying, _) \<Rightarrow> Some (Ret d')
        | Ret (RetryAfter _, s') \<Rightarrow>
          if ae_cancelled A i WhileWaiting then Some (Ret d')
          else auto_connect_loop A V cfg (Suc i) s' d')"

section \<open>The managed connections and their tasks\<close>

text \<open>
  The steps of a running daemon. While an import or a task runs, the client they share changes in
  ways of its own, so its next state is left open. Commands other than a Connect that goes on to
  import are one critical section each, the whole of \<open>handle_command\<close>. A task sets the state of its
  target and ends when it likes: on its own, cancelled or not.
\<close>

inductive daemon_step :: "bool \<Rightarrow> 'v VhciBackend \<Rightarrow> 'v dsys \<Rightarrow> 'v dsys \<Rightarrow> bool" for nested V where
  d_start: "ds_pending s = cfg # cfgs \<Longrightarrow> start_auto_connect nested cfg (ds_mgr s) = Ret d
    \<Longrightarrow> daemon_step nested V s (s\<lparr>ds_mgr := d, ds_pending := cfgs\<rparr>)"
| c_check: "ds_pending s = [] \<Longrightarrow> ds_handlers s i = None \<Longrightarrow> \<not> managed cfg (ds_mgr s)
    \<Longrightarrow> daemon_step nested V s (s\<lparr>ds_handlers := (ds_handlers s)(i \<mapsto> Importing cfg)\<rparr>)"
| c_fail: "ds_handlers s i = Some (Importing cfg)
    \<Longrightarrow> daemon_step nested V s (s\<lparr>ds_mgr := (ds_mgr s)\<lparr>dm_client := c\<rparr>, ds_handlers := (ds_handlers s)(i := None)\<rparr>)"
| c_push: "ds_handlers s i = Some (Importing cfg)
    \<Longrightarrow> daemon_step nested V s (s\<lparr>ds_mgr := push_conn cfg CsConnected ((ds_mgr s)\<lparr>dm_client := c\<rparr>),
          ds_handlers := (ds_handlers s)(i \<mapsto> Spawning cfg (dm_next_token (ds_mgr s)))\<rparr>)"
| c_spawn: "ds_handlers s i = Some (Spawning cfg t)
    \<Longrightarrow> daemon_step nested V s (s\<lparr>ds_mgr := spawn_task cfg t (ds_mgr s), ds_handlers := (ds_handlers s)(i := None)\<rparr>)"
| c_other: "ds_pending s = [] \<Longrightarrow> ds_handlers s i = None
    \<Longrightarrow> \<forall>server bid. cmd = CmdConnect server bid \<longrightarrow> managed \<lparr>cn_server = server, cn_busid = bid\<rparr> (ds_mgr s)
    \<Longrightarrow> handle_command ce V cmd (ds_mgr s) = Some (Ret (resp, d))
    \<Longrightarrow> daemon_step nested V s (s\<lparr>ds_mgr := d\<rparr>)"
| t_state: "(cfg, t) \<in> set (dm_tasks (ds_mgr s))
    \<Longrightarrow> daemon_step nested V s (s\<lparr>ds_mgr := set_conn_state cfg st ((ds_mgr s)\<lparr>dm_client := c\<rparr>)\<rparr>)"
| t_end: "(cfg, t) \<in> set (dm_tasks (ds_mgr s))
    \<Longrightarrow> daemon_step nested V s (s\<lparr>ds_mgr := (ds_mgr s)\<lparr>dm_tasks := remove1 (cfg, t) (dm_tasks (ds_mgr s))\<rparr>,
          ds_ended := insert t (ds_ended s)\<rparr>)"

text \<open>
  What has to hold: a task that runs and is not cancelled is the task of a managed connection, with
  its target and its token; and no managed connection is cancelled: its task runs, or has ended by
  itself, or is about to be spawned by the handler that pushed the connection.
\<close>

definition tasks_match :: "'v dsys \<Rightarrow> bool" where
  "tasks_match s \<longleftrightarrow>
     (\<forall>(cfg, t)\<in>set (dm_tasks (ds_mgr s)). t \<in> set (dm_cancelled (ds_mgr s))
        \<or> (\<exists>m\<in>set (dm_conns (ds_mgr s)). mc_config m = cfg \<and> mc_token m = t))
     \<and> (\<forall>m\<in>set (dm_conns (ds_mgr s)). mc_token m \<notin> set (dm_cancelled (ds_mgr s))
        \<and> ((mc_config m, mc_token m) \<in> set (dm_tasks (ds_mgr s)) \<or> mc_token m \<in> ds_ended s
           \<or> (\<exists>i. ds_handlers s i = Some (Spawning (mc_config m) (mc_token m)))))
     \<and> distinct (map mc_token (dm_conns (ds_mgr s))) \<and> distinct (map snd (dm_tasks (ds_mgr s)))"

text \<open>The invariant behind it: every task, running or about to be spawned, is owned (cancelled, or that
  of a managed connection), every managed connection is served, and tokens are never reused.\<close>

definition owned :: "'v DaemonManager \<Rightarrow> ConnectionConfig \<Rightarrow> nat \<Rightarrow> bool" where
  "owned d cfg t \<longleftrightarrow> t < dm_next_token d
     \<and> (t \<in> set (dm_cancelled d) \<or> (\<exists>m\<in>set (dm_conns d). mc_config m = cfg \<and> mc_token m = t))"

definition served :: "'v DaemonManager \<Rightarrow> (nat \<Rightarrow> handler option) \<Rightarrow> nat set \<Rightarrow> ManagedConnection \<Rightarrow> bool" where
  "served d H E m \<longleftrightarrow>
     (mc_config m, mc_token m) \<in> set (dm_tasks d) \<or> mc_token m \<in> E
     \<or> (\<exists>i. H i = Some (Spawning (mc_config m) (mc_token m)))"

definition tokens_ok :: "'v DaemonManager \<Rightarrow> bool" where
  "tokens_ok d \<longleftrightarrow>
     (\<forall>m\<in>set (dm_conns d). mc_token m < dm_next_token d \<and> mc_token m \<notin> set (dm_cancelled d))
     \<and> (\<forall>t\<in>set (dm_cancelled d). t < dm_next_token d)
     \<and> distinct (map mc_token (dm_conns d)) \<and> distinct (map snd (dm_tasks d))"

definition handlers_ok :: "'v DaemonManager \<Rightarrow> (nat \<Rightarrow> handler option) \<Rightarrow> bool" where
  "handlers_ok d H \<longleftrightarrow>
     (\<forall>i cfg t. H i = Some (Spawning cfg t) \<longrightarrow> owned d cfg t \<and> t \<notin> snd ` set (dm_tasks d))
     \<and> (\<forall>i j cfg cfg' t. H i = Some (Spawning cfg t) \<and> H j = Some (Spawning cfg' t) \<longrightarrow> i = j)"

definition inv_parts :: "'v DaemonManager \<Rightarrow> (nat \<Rightarrow> handler option) \<Rightarrow> nat set \<Rightarrow> bool" where
  "inv_parts d H E \<longleftrightarrow>
     (\<forall>p\<in>set (dm_tasks d). owned d (fst p) (snd p)) \<and> (\<forall>m\<in>set (dm_conns d). served d H E m)
     \<and> tokens_ok d \<and> handlers_ok d H"

definition daemon_inv :: "'v dsys \<Rightarrow> bool" where
  "daemon_inv s \<longleftrightarrow> inv_parts (ds_mgr s) (ds_handlers s) (ds_ended s)"

lemma daemon_inv_match: "daemon_inv s \<Longrightarrow> tasks_match s"
  unfolding daemon_inv_def inv_parts_def tokens_ok_def tasks_match_def owned_def served_def by fastforce

lemma push_conn_simps [simp]:
  "dm_tasks (push_conn cfg st d) = dm_tasks d" "dm_cancelled (push_conn cfg st d) = dm_cancelled d"
  "dm_next_token (push_conn cfg st d) = Suc (dm_next_token d)"
  "dm_conns (push_conn cfg st d) = dm_conns d @ [\<lparr>mc_config = cfg, mc_state = st, mc_token = dm_next_token d\<rparr>]"
  by (simp_all add: push_conn_def)

lemma spawn_task_simps [simp]:
  "dm_tasks (spawn_task cfg t d) = dm_tasks d @ [(cfg, t)]" "dm_cancelled (spawn_task cfg t d) = dm_cancelled d"
  "dm_next_token (spawn_task cfg t d) = dm_next_token d" "dm_conns (spawn_task cfg t d) = dm_conns d"
  by (simp_all add: spawn_task_def)

lemma inv_client [simp]: "inv_parts (d\<lparr>dm_client := c\<rparr>) H E = inv_parts d H E"
  by (simp add: inv_parts_def owned_def served_def tokens_ok_def handlers_ok_def)

lemma inv_shutdown [simp]: "inv_parts (shutdown d) H E = inv_parts d H E"
  by (simp add: inv_parts_def owned_def served_def tokens_ok_def handlers_ok_def shutdown_def)

lemma inv_spawning:
  assumes "inv_parts d H E" "H i = Some (Spawning cfg t)"
  shows "owned d cfg t" "t \<notin> snd ` set (dm_tasks d)" "t < dm_next_token d"
  using assms unfolding inv_parts_def handlers_ok_def owned_def by blast+

lemma served_upd:
  assumes "served d H E m" "set (dm_tasks d) \<subseteq> set (dm_tasks d')"
    and "\<And>cfg t. H i = Some (Spawning cfg t) \<Longrightarrow> (cfg, t) \<in> set (dm_tasks d')"
  shows "served d' (H(i := x)) E m"
proof -
  consider "(mc_config m, mc_token m) \<in> set (dm_tasks d)" | "mc_token m \<in> E"
    | j where "H j = Some (Spawning (mc_config m) (mc_token m))"
    using assms(1) by (auto simp: served_def)
  then show ?thesis
  proof cases
    case (3 j)
    then show ?thesis using assms(3) by (cases "j = i") (auto simp: served_def intro!: exI [of _ j])
  qed (use assms(2) in \<open>auto simp: served_def\<close>)
qed

lemma inv_idle:
  assumes "inv_parts d H E" "H i = None \<or> H i = Some (Importing c)" "x = None \<or> x = Some (Importing c')"
  shows "inv_parts d (H(i := x)) E"
proof -
  have "served d (H(i := x)) E m" if "served d H E m" for m
    by (rule served_upd [OF that]) (use assms(2) in auto)
  moreover have "handlers_ok d (H(i := x))"
    using assms unfolding inv_parts_def handlers_ok_def by (auto split: if_splits)
  ultimately show ?thesis using assms(1) by (simp add: inv_parts_def)
qed

lemma inv_push:
  assumes "inv_parts d H E" "H i = Some (Importing c)"
  shows "inv_parts (push_conn cfg st d) (H(i \<mapsto> Spawning cfg (dm_next_token d))) E"
proof -
  have own: "owned (push_conn cfg st d) c t" if "owned d c t" for c t
    using that by (auto simp: owned_def)
  have new: "owned (push_conn cfg st d) cfg (dm_next_token d)" by (simp add: owned_def)
  have old: "H j \<noteq> Some (Spawning c' (dm_next_token d))" for j c'
    using inv_spawning(3) [OF assms(1)] by fastforce
  have fresh: "dm_next_token d \<notin> snd ` set (dm_tasks d)"
    using assms(1) by (force simp: inv_parts_def owned_def)
  have "tokens_ok (push_conn cfg st d)"
    using assms(1) by (auto simp: inv_parts_def tokens_ok_def less_Suc_eq)
  moreover have "handlers_ok (push_conn cfg st d) (H(i \<mapsto> Spawning cfg (dm_next_token d)))"
    using assms(1) own new old fresh unfolding inv_parts_def handlers_ok_def by (auto split: if_splits)
  moreover have "served (push_conn cfg st d) (H(i \<mapsto> Spawning cfg (dm_next_token d))) E m"
    if "m \<in> set (dm_conns (push_conn cfg st d))" for m
  proof (cases "m \<in> set (dm_conns d)")
    case True
    then have "served d H E m" using assms(1) by (simp add: inv_parts_def)
    then show ?thesis by (rule served_upd) (use assms(2) in auto)
  qed (use that in \<open>auto simp: served_def\<close>)
  ultimately show ?thesis using assms(1) own by (simp add: inv_parts_def)
qed

lemma inv_spawn:
  assumes "inv_parts d H E" "H i = Some (Spawning cfg t)"
  shows "inv_parts (spawn_task cfg t d) (H(i := None)) E"
proof -
  have own: "owned (spawn_task cfg t d) = owned d" by (simp add: owned_def fun_eq_iff)
  note t = inv_spawning [OF assms]
  have "tokens_ok (spawn_task cfg t d)" using assms(1) t(2) by (auto simp: inv_parts_def tokens_ok_def)
  moreover have "handlers_ok (spawn_task cfg t d) (H(i := None))"
    using assms unfolding inv_parts_def handlers_ok_def own by (auto split: if_splits)
  moreover have "served (spawn_task cfg t d) (H(i := None)) E m" if "m \<in> set (dm_conns d)" for m
    by (rule served_upd [of d H]) (use that assms in \<open>auto simp: inv_parts_def\<close>)
  ultimately show ?thesis using assms(1) own t by (simp add: inv_parts_def)
qed

lemma inv_end:
  assumes "inv_parts d H E" "(cfg, t) \<in> set (dm_tasks d)"
  shows "inv_parts (d\<lparr>dm_tasks := remove1 (cfg, t) (dm_tasks d)\<rparr>) H (insert t E)"
proof -
  let ?d = "d\<lparr>dm_tasks := remove1 (cfg, t) (dm_tasks d)\<rparr>"
  have own: "owned ?d = owned d" by (simp add: owned_def fun_eq_iff)
  have sub: "set (remove1 (cfg, t) (dm_tasks d)) \<subseteq> set (dm_tasks d)" by (rule set_remove1_subset)
  have "distinct (map snd (remove1 (cfg, t) (dm_tasks d)))"
    using assms(1) sub unfolding inv_parts_def tokens_ok_def distinct_map by (meson distinct_remove1 inj_on_subset)
  then have "tokens_ok ?d" using assms(1) by (simp add: inv_parts_def tokens_ok_def)
  moreover have "handlers_ok ?d H"
  proof -
    have "t' \<notin> snd ` set (remove1 (cfg, t) (dm_tasks d))" if "H i = Some (Spawning c t')" for i c t'
      using inv_spawning(2) [OF assms(1) that] image_mono [OF sub, of snd] by blast
    then show ?thesis using assms(1) by (simp add: inv_parts_def handlers_ok_def own)
  qed
  moreover have "served ?d H (insert t E) m" if "m \<in> set (dm_conns d)" for m
    using that assms(1) by (auto simp: inv_parts_def served_def in_set_remove1)
  ultimately show ?thesis using assms(1) sub own by (auto simp: inv_parts_def)
qed

lemma inv_disconnect:
  assumes inv: "inv_parts d H E" and m: "m \<in> set (dm_conns d)"
  shows "inv_parts (d\<lparr>dm_conns := remove1 m (dm_conns d), dm_cancelled := mc_token m # dm_cancelled d\<rparr>) H E"
proof -
  let ?d = "d\<lparr>dm_conns := remove1 m (dm_conns d), dm_cancelled := mc_token m # dm_cancelled d\<rparr>"
  have dist: "distinct (map mc_token (dm_conns d))" using inv by (simp add: inv_parts_def tokens_ok_def)
  then have rest: "set (remove1 m (dm_conns d)) = set (dm_conns d) - {m}"
    by (simp add: distinct_map)
  have inj: "mc_token x \<noteq> mc_token m" if "x \<in> set (dm_conns d)" "x \<noteq> m" for x
    using that m dist by (auto simp: distinct_map inj_on_def)
  have own: "owned ?d c t" if "owned d c t" for c t
    using that rest by (auto simp: owned_def)
  have "distinct (map mc_token (remove1 m (dm_conns d)))"
    using dist rest by (auto simp: distinct_map inj_on_def)
  then have "tokens_ok ?d" using inv m rest inj by (auto simp: inv_parts_def tokens_ok_def)
  moreover have "handlers_ok ?d H" using inv own by (auto simp: inv_parts_def handlers_ok_def)
  moreover have "served ?d H E x" if "x \<in> set (remove1 m (dm_conns d))" for x
    using that rest inv by (auto simp: inv_parts_def served_def)
  ultimately show ?thesis using inv own by (simp add: inv_parts_def)
qed

lemma set_conn_state_parts:
  "map (\<lambda>m. (mc_config m, mc_token m)) (dm_conns (set_conn_state cfg st d))
     = map (\<lambda>m. (mc_config m, mc_token m)) (dm_conns d)"
  "dm_tasks (set_conn_state cfg st d) = dm_tasks d" "dm_cancelled (set_conn_state cfg st d) = dm_cancelled d"
  "dm_next_token (set_conn_state cfg st d) = dm_next_token d"
  by (auto simp: set_conn_state_def extract_Some_iff split: option.splits)

text \<open>The invariant depends on the targets and tokens of the connections only.\<close>

lemma inv_set_state: "inv_parts d H E \<Longrightarrow> inv_parts (set_conn_state cfg st d) H E"
proof -
  assume inv: "inv_parts d H E"
  let ?d = "set_conn_state cfg st d" and ?f = "\<lambda>m. (mc_config m, mc_token m)"
  note eq = set_conn_state_parts [of cfg st d]
  have img: "?f ` set (dm_conns ?d) = ?f ` set (dm_conns d)" using eq(1) by (metis set_map)
  have toks: "map mc_token (dm_conns ?d) = map mc_token (dm_conns d)"
    using arg_cong [OF eq(1), of "map snd"] by (simp add: comp_def)
  have conn: "\<exists>m'\<in>set (dm_conns d). mc_config m' = mc_config m \<and> mc_token m' = mc_token m"
    if "m \<in> set (dm_conns ?d)" for m using that img imageI [OF that, of ?f] by auto
  have conn': "\<exists>m'\<in>set (dm_conns ?d). mc_config m' = mc_config m \<and> mc_token m' = mc_token m"
    if "m \<in> set (dm_conns d)" for m using that img imageI [OF that, of ?f] by (auto simp flip: img)
  have own: "owned ?d c t" if "owned d c t" for c t
    using that conn' unfolding owned_def eq by metis
  have "tokens_ok ?d" using inv conn toks unfolding inv_parts_def tokens_ok_def eq by metis
  moreover have "handlers_ok ?d H" using inv own unfolding inv_parts_def handlers_ok_def eq by metis
  moreover have "served ?d H E m" if "m \<in> set (dm_conns ?d)" for m
    using conn [OF that] inv unfolding inv_parts_def served_def eq by metis
  ultimately show ?thesis using inv own unfolding inv_parts_def eq by metis
qed

lemma handle_command_inv:
  assumes "inv_parts d H E" "handle_command ce V cmd d = Some (Ret (resp, d'))"
    and "\<forall>server bid. cmd = CmdConnect server bid \<longrightarrow> managed \<lparr>cn_server = server, cn_busid = bid\<rparr> d"
  shows "inv_parts d' H E"
proof (cases cmd)
  case (CmdDisconnect bid)
  then show ?thesis using assms
    by (auto simp: handle_command_def find_Some_iff intro!: inv_disconnect nth_mem split: option.splits)
qed (use assms in \<open>auto simp: handle_command_def managed_def\<close>)

lemma inv_manage: "inv_parts d H E \<Longrightarrow> H i = None \<Longrightarrow> inv_parts (manage cfg st d) H E"
proof -
  assume inv: "inv_parts d H E" and i: "H i = None"
  have "inv_parts d (H(i \<mapsto> Importing cfg)) E" using inv_idle [OF inv, of i] i by simp
  from inv_push [OF this, of i cfg cfg st]
  have "inv_parts (push_conn cfg st d) (H(i \<mapsto> Spawning cfg (dm_next_token d))) E" by simp
  from inv_spawn [OF this, of i cfg "dm_next_token d"] i
  show ?thesis by (simp add: manage_def fun_upd_idem)
qed

text \<open>Nothing but the main task runs while there are connections left to start.\<close>

definition starting_ok :: "'v dsys \<Rightarrow> bool" where
  "starting_ok s \<longleftrightarrow> ds_pending s = [] \<or> ds_handlers s = (\<lambda>_. None)"

lemma daemon_step_inv:
  assumes "daemon_step nested V s s'" "daemon_inv s" "starting_ok s"
  shows "daemon_inv s' \<and> starting_ok s'"
  using assms
proof cases
  case (d_start cfg cfgs d)
  then show ?thesis using assms(2,3) inv_manage [of "ds_mgr s" "ds_handlers s" "ds_ended s" 0 cfg CsDisconnected]
    by (auto simp: daemon_inv_def starting_ok_def start_auto_connect_def split: if_splits)
next
  case (c_check i cfg)
  then show ?thesis using assms(2,3) inv_idle [of "ds_mgr s" "ds_handlers s" "ds_ended s" i _ _ cfg]
    by (auto simp: daemon_inv_def starting_ok_def)
next
  case (c_fail i cfg c)
  then show ?thesis using assms(2,3) inv_idle [of "ds_mgr s" "ds_handlers s" "ds_ended s" i cfg None cfg]
    by (auto simp: daemon_inv_def starting_ok_def)
next
  case (c_push i cfg c)
  then show ?thesis using assms(2,3) inv_push [of "(ds_mgr s)\<lparr>dm_client := c\<rparr>" "ds_handlers s" "ds_ended s" i cfg cfg CsConnected]
    by (auto simp: daemon_inv_def starting_ok_def)
next
  case (c_spawn i cfg t)
  then show ?thesis using assms(2,3) inv_spawn [of "ds_mgr s" "ds_handlers s" "ds_ended s" i cfg t]
    by (auto simp: daemon_inv_def starting_ok_def)
next
  case (c_other i cmd ce resp d)
  then show ?thesis using assms(2,3) handle_command_inv [OF _ c_other(5,4)]
    by (auto simp: daemon_inv_def starting_ok_def)
next
  case (t_state cfg t st c)
  then show ?thesis using assms(2,3) inv_set_state [of "(ds_mgr s)\<lparr>dm_client := c\<rparr>" "ds_handlers s" "ds_ended s" cfg st]
    by (auto simp: daemon_inv_def starting_ok_def)
next
  case (t_end cfg t)
  then show ?thesis using assms(2,3) inv_end [of "ds_mgr s" "ds_handlers s" "ds_ended s" cfg t]
    by (auto simp: daemon_inv_def starting_ok_def)
qed

lemma daemon_reach_inv:
  assumes "(daemon_step nested V)\<^sup>*\<^sup>* s s'" "daemon_inv s" "starting_ok s"
  shows "daemon_inv s' \<and> starting_ok s'"
  using assms by (induction rule: rtranclp_induct) (auto dest: daemon_step_inv)

lemma daemon_boot_inv:
  "daemon_boot S (DaemonManager_new config v) = Inr s \<Longrightarrow> daemon_inv s \<and> starting_ok s"
  by (auto simp: daemon_boot_def DaemonManager_new_def daemon_inv_def inv_parts_def tokens_ok_def
      handlers_ok_def starting_ok_def split: sum.splits)

text \<open>A command that is handled without interruption is a sequence of these steps, and so is the start
  of all configured connections.\<close>

lemma handle_command_steps:
  assumes "handle_command ce V cmd (ds_mgr s) = Some (Ret (resp, d'))" "ds_pending s = []" "ds_handlers s i = None"
  shows "(daemon_step nested V)\<^sup>*\<^sup>* s (s\<lparr>ds_mgr := d'\<rparr>)"
proof (cases "\<forall>server bid. cmd = CmdConnect server bid \<longrightarrow> managed \<lparr>cn_server = server, cn_busid = bid\<rparr> (ds_mgr s)")
  case True
  then show ?thesis using daemon_step.c_other [OF assms(2,3) True assms(1), of nested] by blast
next
  case False
  then obtain server bid where cmd: "cmd = CmdConnect server bid"
      and fresh: "\<not> managed \<lparr>cn_server = server, cn_busid = bid\<rparr> (ds_mgr s)" by blast
  let ?cfg = "\<lparr>cn_server = server, cn_busid = bid\<rparr>"
  obtain res c where "connect_finished (ce_cid ce) server bid res c (ds_mgr s) = (resp, d')"
    using assms(1) fresh unfolding cmd by (auto simp: handle_command_def managed_def obind_Ret)
  then have d': "d' = (case res of Inl _ \<Rightarrow> (ds_mgr s)\<lparr>dm_client := c\<rparr>
      | Inr _ \<Rightarrow> manage ?cfg CsConnected ((ds_mgr s)\<lparr>dm_client := c\<rparr>))"
    by (auto simp: connect_finished_def split: sum.splits)
  define s1 where "s1 = s\<lparr>ds_handlers := (ds_handlers s)(i \<mapsto> Importing ?cfg)\<rparr>"
  have check: "daemon_step nested V s s1"
    using daemon_step.c_check [OF assms(2,3) fresh, of nested V] by (simp add: s1_def)
  have s1: "ds_handlers s1 i = Some (Importing ?cfg)" by (simp add: s1_def)
  have idle: "(ds_handlers s)(i := None) = ds_handlers s" using assms(3) by (simp add: fun_upd_idem)
  show ?thesis
  proof (cases res)
    case (Inl e)
    then have "daemon_step nested V s1 (s\<lparr>ds_mgr := d'\<rparr>)"
      using daemon_step.c_fail [OF s1, of nested V c] d' idle by (simp add: s1_def)
    with check show ?thesis by (meson converse_rtranclp_into_rtranclp rtranclp.rtrancl_refl)
  next
    case (Inr dev)
    define s2 where "s2 = s1\<lparr>ds_mgr := push_conn ?cfg CsConnected ((ds_mgr s1)\<lparr>dm_client := c\<rparr>),
      ds_handlers := (ds_handlers s1)(i \<mapsto> Spawning ?cfg (dm_next_token (ds_mgr s1)))\<rparr>"
    have push: "daemon_step nested V s1 s2" unfolding s2_def by (rule daemon_step.c_push [OF s1])
    have "ds_handlers s2 i = Some (Spawning ?cfg (dm_next_token (ds_mgr s1)))" by (simp add: s2_def)
    from daemon_step.c_spawn [OF this, of nested V]
    have "daemon_step nested V s2 (s\<lparr>ds_mgr := d'\<rparr>)"
      using d' Inr idle by (simp add: s2_def s1_def manage_def)
    with check push show ?thesis by (meson converse_rtranclp_into_rtranclp rtranclp.rtrancl_refl)
  qed
qed

lemma start_all_steps:
  "start_all nested cfgs (ds_mgr s) = Ret d \<Longrightarrow> ds_pending s = cfgs
   \<Longrightarrow> (daemon_step nested V)\<^sup>*\<^sup>* s (s\<lparr>ds_mgr := d, ds_pending := []\<rparr>)"
proof (induction cfgs arbitrary: s)
  case Nil
  then have "s\<lparr>ds_mgr := d, ds_pending := []\<rparr> = s" by (cases s) simp
  then show ?case by simp
next
  case (Cons cfg cfgs)
  obtain d1 where d1: "start_auto_connect nested cfg (ds_mgr s) = Ret d1" "start_all nested cfgs d1 = Ret d"
    using Cons.prems(1) by (auto simp: obind_Ret)
  have "daemon_step nested V s (s\<lparr>ds_mgr := d1, ds_pending := cfgs\<rparr>)"
    by (rule daemon_step.d_start [OF Cons.prems(2) d1(1)])
  moreover have "(daemon_step nested V)\<^sup>*\<^sup>* (s\<lparr>ds_mgr := d1, ds_pending := cfgs\<rparr>) (s\<lparr>ds_mgr := d, ds_pending := []\<rparr>)"
    using Cons.IH [of "s\<lparr>ds_mgr := d1, ds_pending := cfgs\<rparr>"] d1(2) by simp
  ultimately show ?case by (rule converse_rtranclp_into_rtranclp)
qed

definition sample_target :: ConnectionConfig where
  "sample_target = \<lparr>cn_server = ''10.0.0.1:3240'', cn_busid = ''1-1''\<rparr>"

definition sample_daemon :: "recording_fs DaemonManager" where
  "sample_daemon = DaemonManager_new \<lparr>dc_socket_path = ''/tmp/s'', dc_connections = []\<rparr> sample_fs"

definition refused_cmd :: cmd_env where
  "refused_cmd = \<lparr>ce_net = (\<lambda>_. Inl Timeout), ce_chunk = id, ce_ovf = False,
     ce_task = sample_task (sample_tcp []), ce_cid = ''0''\<rparr>"

section \<open>Auto-connect\<close>

lemma set_conn_state_configs [simp]:
  "map mc_config (dm_conns (set_conn_state cfg st d)) = map mc_config (dm_conns d)"
  by (auto simp: set_conn_state_def extract_Some_iff split: option.splits)

lemma set_conn_state_twice [simp]:
  "set_conn_state cfg st2 (set_conn_state cfg st1 d) = set_conn_state cfg st2 d"
proof (cases "List.extract (\<lambda>c. mc_config c = cfg) (dm_conns d)")
  case None
  then show ?thesis by (simp add: set_conn_state_def)
next
  case (Some p)
  then obtain xs c ys where p: "p = (xs, c, ys)" "mc_config c = cfg" "\<not> (\<exists>y\<in>set xs. mc_config y = cfg)"
    by (cases p) (auto simp: extract_Some_iff)
  then have "List.extract (\<lambda>c. mc_config c = cfg) (xs @ c\<lparr>mc_state := st1\<rparr> # ys) = Some (xs, c\<lparr>mc_state := st1\<rparr>, ys)"
    by (simp add: extract_Some_iff)
  then show ?thesis using Some p by (simp add: set_conn_state_def)
qed

lemma set_conn_state_found:
  assumes "cfg \<in> mc_config ` set (dm_conns d)"
  shows "\<exists>m. m \<in> set (dm_conns (set_conn_state cfg st d)) \<and> mc_config m = cfg \<and> mc_state m = st"
proof (cases "List.extract (\<lambda>c. mc_config c = cfg) (dm_conns d)")
  case None
  then show ?thesis using assms by (auto simp: extract_None_iff)
next
  case (Some p)
  then obtain xs c ys where "p = (xs, c, ys)" "mc_config c = cfg" by (cases p) (auto simp: extract_Some_iff)
  with Some show ?thesis by (auto simp: set_conn_state_def intro!: exI [of _ "c\<lparr>mc_state := st\<rparr>"])
qed

lemma set_conn_state_client [simp]:
  "dm_client (set_conn_state cfg st d) = dm_client d"
  "set_conn_state cfg st (d\<lparr>dm_client := c\<rparr>) = (set_conn_state cfg st d)\<lparr>dm_client := c\<rparr>"
  by (simp_all add: set_conn_state_def split: option.splits prod.splits)

definition lost_state :: "ConnectionConfig \<Rightarrow> 'v DaemonManager \<Rightarrow> 'v DaemonManager" where
  "lost_state cfg d = set_conn_state cfg (CsError ''connection lost, retrying'') d"

lemma lost_state_client [simp]:
  "dm_client (lost_state cfg d) = dm_client d" "lost_state cfg (lost_state cfg d) = lost_state cfg d"
  "lost_state cfg (d\<lparr>dm_client := c\<rparr>) = (lost_state cfg d)\<lparr>dm_client := c\<rparr>"
  by (simp_all add: lost_state_def)

text \<open>
  An attempt fails when the import does, at whatever point and for whatever reason, or when it is
  granted and the forwarding breaks off with an error; it ends when the forwarding of a granted
  import returns without one. \<open>c\<close> and \<open>c'\<close> are the client before and after.
\<close>

definition attempt_fails :: "auto_env \<Rightarrow> 'v VhciBackend \<Rightarrow> string \<Rightarrow> nat \<Rightarrow> 'v Client \<Rightarrow> 'v Client \<Rightarrow> bool" where
  "attempt_fails A V bid i c c' \<longleftrightarrow>
     (case import_device_once (ae_chunk A) (ae_ovf A) V (ae_import_net A i) bid c of
        Some (Ret (Inl _, c1)) \<Rightarrow> c' = c1
      | Some (Ret (Inr _, c1)) \<Rightarrow> \<exists>e. run_urb_forwarding V (ae_stop A i) (ae_forward_net A i) bid c1 = (Inl e, c')
      | _ \<Rightarrow> False)"

definition attempt_ends :: "auto_env \<Rightarrow> 'v VhciBackend \<Rightarrow> string \<Rightarrow> nat \<Rightarrow> 'v Client \<Rightarrow> 'v Client \<Rightarrow> bool" where
  "attempt_ends A V bid i c c' \<longleftrightarrow>
     (case import_device_once (ae_chunk A) (ae_ovf A) V (ae_import_net A i) bid c of
        Some (Ret (Inr _, c1)) \<Rightarrow> run_urb_forwarding V (ae_stop A i) (ae_forward_net A i) bid c1 = (Inr (), c')
      | _ \<Rightarrow> False)"

lemma auto_round_fails:
  assumes "attempt_fails A V (cn_busid cfg) i (dm_client d) c'" "\<And>p. \<not> ae_cancelled A i p"
  shows "auto_round A V cfg i d = Some (Ret (True, (lost_state cfg d)\<lparr>dm_client := c'\<rparr>))"
  using assms
  by (auto simp: attempt_fails_def auto_round_def lost_state_def Let_def
      split: option.splits outcome.splits sum.splits)

lemma auto_round_ends:
  assumes "attempt_ends A V (cn_busid cfg) i (dm_client d) c'" "\<And>p. \<not> ae_cancelled A i p"
  shows "auto_round A V cfg i d = Some (Ret (False, (set_conn_state cfg CsConnected d)\<lparr>dm_client := c'\<rparr>))"
  using assms
  by (auto simp: attempt_ends_def auto_round_def Let_def split: option.splits outcome.splits sum.splits)

lemma auto_connect_retries:
  assumes "never_panics F jit ReconnectConfig_default"
  shows "\<exists>delay s'. decide_reconnect F jit (Some (ErrorKind_category ConnectionClosed)) ReconnectConfig_default s
    = Ret (RetryAfter delay, s')"
proof -
  obtain a where a: "on_error F jit ReconnectConfig_default Transient s
      = obind (delay_for_attempt F jit ReconnectConfig_default a) (\<lambda>d. Ret (BackOff a d))"
    by (simp add: on_error_def should_retry_def ReconnectConfig_default_def Let_def)
  moreover obtain d where "delay_for_attempt F jit ReconnectConfig_default a = Ret d"
    using assms unfolding never_panics_def by (metis outcome.exhaust)
  ultimately show ?thesis by (simp add: decide_reconnect_def ErrorKind_category_def)
qed

lemma auto_connect_fails_step:
  assumes "attempt_fails A V (cn_busid cfg) i (dm_client d) c'" "\<And>p. \<not> ae_cancelled A i p"
    and "never_panics (ae_f64 A) (ae_jitter A i) ReconnectConfig_default"
  shows "\<exists>s'. auto_connect_loop A V cfg i s d
    = auto_connect_loop A V cfg (Suc i) s' ((lost_state cfg d)\<lparr>dm_client := c'\<rparr>)"
proof -
  obtain delay s' where "decide_reconnect (ae_f64 A) (ae_jitter A i) (Some (ErrorKind_category ConnectionClosed))
      ReconnectConfig_default s = Ret (RetryAfter delay, s')"
    using auto_connect_retries [OF assms(3)] by blast
  then show ?thesis using assms(2) auto_round_fails [OF assms(1,2)]
    by (subst auto_connect_loop.simps) auto
qed

lemma auto_connect_fails_rounds:
  assumes "C 0 = dm_client d" "\<And>i. i < k \<Longrightarrow> attempt_fails A V (cn_busid cfg) i (C i) (C (Suc i))"
    and "\<And>i p. \<not> ae_cancelled A i p"
    and "\<And>i. never_panics (ae_f64 A) (ae_jitter A i) ReconnectConfig_default"
  shows "\<exists>s'. auto_connect_loop A V cfg 0 s d
    = auto_connect_loop A V cfg k s' ((if k = 0 then d else lost_state cfg d)\<lparr>dm_client := C k\<rparr>)"
  using assms(2)
proof (induction k)
  case (Suc k)
  let ?d = "(if k = 0 then d else lost_state cfg d)\<lparr>dm_client := C k\<rparr>"
  obtain s1 where s1: "auto_connect_loop A V cfg 0 s d = auto_connect_loop A V cfg k s1 ?d"
    using Suc by auto
  have next_d: "(lost_state cfg ?d)\<lparr>dm_client := C (Suc k)\<rparr> = (lost_state cfg d)\<lparr>dm_client := C (Suc k)\<rparr>"
    by simp
  have "attempt_fails A V (cn_busid cfg) k (dm_client ?d) (C (Suc k))" using Suc.prems [of k] by simp
  from auto_connect_fails_step [OF this assms(3,4)] obtain s2 where
    "auto_connect_loop A V cfg k s1 ?d = auto_connect_loop A V cfg (Suc k) s2 ((lost_state cfg d)\<lparr>dm_client := C (Suc k)\<rparr>)"
    unfolding next_d by blast
  then show ?case using s1 by auto
qed (use assms(1) in auto)

text \<open>C37: An auto-connect task outlasts any number of failed attempts, of whatever kind: connections
  that cannot be made, imports that are refused or broken off, forwarding that ends in an error. When
  the first \<open>k\<close> attempts fail, and attempt \<open>k\<close> is granted and its forwarding returns without an error,
  as it does when the server closes the connection, the task gets there and ends. It ends without
  another attempt and leaves the connection listed as connected, although nothing serves it any
  more.\<close>

theorem daemon_reconnects_then_status_stale:
  assumes "C 0 = dm_client d" "\<And>i. i < k \<Longrightarrow> attempt_fails A V (cn_busid cfg) i (C i) (C (Suc i))"
    and "attempt_ends A V (cn_busid cfg) k (C k) c'"
    and "\<And>i p. \<not> ae_cancelled A i p" "\<And>i. never_panics (ae_f64 A) (ae_jitter A i) ReconnectConfig_default"
    and "cfg \<in> mc_config ` set (dm_conns d)"
  shows "\<exists>d' m. auto_connect_loop A V cfg 0 RsActive d = Some (Ret d') \<and> dm_client d' = c'
    \<and> m \<in> set (dm_conns d') \<and> mc_config m = cfg \<and> cs_state (connection_status m) = ''connected''"
proof -
  define d1 where "d1 = (if k = 0 then d else lost_state cfg d)\<lparr>dm_client := C k\<rparr>"
  obtain s' where loop: "auto_connect_loop A V cfg 0 RsActive d = auto_connect_loop A V cfg k s' d1"
    using auto_connect_fails_rounds [OF assms(1,2,4,5), where s = RsActive] unfolding d1_def by blast
  have d1: "dm_client d1 = C k" "cfg \<in> mc_config ` set (dm_conns d1)"
    using assms(6) set_conn_state_configs [of cfg _ d] by (auto simp: d1_def lost_state_def simp flip: set_map)
  have "auto_round A V cfg k d1 = Some (Ret (False, (set_conn_state cfg CsConnected d1)\<lparr>dm_client := c'\<rparr>))"
    by (rule auto_round_ends) (use assms(3,4) d1(1) in auto)
  then have "auto_connect_loop A V cfg k s' d1 = Some (Ret ((set_conn_state cfg CsConnected d1)\<lparr>dm_client := c'\<rparr>))"
    by (subst auto_connect_loop.simps) simp
  then show ?thesis
    using loop set_conn_state_found [OF d1(2), of CsConnected] by (auto simp: connection_status_def)
qed

text \<open>A run with the server of this repository: a connection that times out, an import refused as busy,
  a granted import whose second connection is refused, and at last a session in which the server
  sends the device entry with its descriptor tree and closes.\<close>

definition tree_reply :: tcp where
  "tree_reply = sample_tcp (import_ok_reply sample_remote @ serialize_descriptor_tree sample_tree)"

definition busy_reply :: tcp where
  "busy_reply = sample_tcp (UsbIpHeader_as_bytes (UsbIpHeader_with_status OP_REP_IMPORT STATUS_ST_DEV_BUSY))"

definition sample_auto :: auto_env where
  "sample_auto = \<lparr>ae_cancelled = (\<lambda>_ _. False),
     ae_import_net = (\<lambda>i. if i = 0 then Inl Timeout else if i = 1 then Inr busy_reply else Inr tree_reply),
     ae_forward_net = (\<lambda>i. if i = 2 then Inl Timeout else Inr tree_reply),
     ae_stop = (\<lambda>_ _. False), ae_chunk = (\<lambda>_. 100), ae_ovf = True, ae_f64 = exact_f64, ae_jitter = (\<lambda>_. 0)\<rparr>"

lemma exact_never_panics: "never_panics exact_f64 0 ReconnectConfig_default"
  by (simp add: never_panics_def delay_for_attempt_def exact_f64_def ReconnectConfig_default_def min_def Let_def not_le)

text \<open>The descriptor tree of the sample device, taken for messages, ends the forwarding without an error.\<close>

lemma tree_forwarding_ends:
  "\<exists>v'. urb_forwarding_task (linux_ops recording_os sample_linux) (\<lambda>_. False) (Inr tree_reply) bid v = (Inr (), v')"
  using vhci_sink.task_ends_clean [OF logging_os.linux_sink [OF recorded.logging_os_axioms] TrueI sample_remote_wf,
      where t = tree_reply and stop = "\<lambda>_. False" and bid = bid and v = v]
  by (auto simp: tree_reply_def sample_tcp_def)

lemma tree_import_granted:
  "\<exists>dev c1. import_device_once (\<lambda>_. 100) True (linux_ops recording_os sample_linux) (Inr tree_reply) ''1-1'' c
    = Some (Ret (Inr dev, c1))"
  using sample_import [of "''1-1''" "cl_vhci c"] by (auto simp: import_device_once_def tree_reply_def)

lemma busy_import_refused:
  "\<exists>e. import_device_once (\<lambda>_. 100) True V (Inr busy_reply) bid c = Some (Ret (Inl e, c))"
proof -
  have "rx busy_reply = UsbIpHeader_as_bytes (UsbIpHeader_with_status OP_REP_IMPORT STATUS_ST_DEV_BUSY) @ []"
    "tx_ok busy_reply = None" "STATUS_ST_DEV_BUSY \<noteq> STATUS_SUCCESS"
    by (simp_all add: busy_reply_def sample_tcp_def STATUS_ST_DEV_BUSY_def STATUS_SUCCESS_def)
  then obtain m t' where "import_handshake bid busy_reply = (Inl (DeviceBusy m), t')"
    using handshake_rejected by blast
  then show ?thesis by (simp add: import_device_once_def do_import_def stream_bind_def)
qed

theorem daemon_reconnects_then_status_stale_witness:
  "\<exists>d' m. auto_connect_loop sample_auto (linux_ops recording_os sample_linux) sample_target 0 RsActive
      (manage sample_target CsDisconnected sample_daemon) = Some (Ret d')
    \<and> m \<in> set (dm_conns d') \<and> mc_config m = sample_target \<and> cs_state (connection_status m) = ''connected''"
proof -
  let ?d = "manage sample_target CsDisconnected sample_daemon" and ?V = "linux_ops recording_os sample_linux"
  let ?c = "dm_client ?d"
  have bid: "cn_busid sample_target = ''1-1''" by (simp add: sample_target_def)
  obtain dev c1 where c1: "import_device_once (\<lambda>_. 100) True ?V (Inr tree_reply) ''1-1'' ?c = Some (Ret (Inr dev, c1))"
    using tree_import_granted by blast
  obtain dev2 c2 where c2: "import_device_once (\<lambda>_. 100) True ?V (Inr tree_reply) ''1-1'' c1 = Some (Ret (Inr dev2, c2))"
    using tree_import_granted by blast
  have f0: "attempt_fails sample_auto ?V ''1-1'' 0 ?c ?c"
    by (simp add: attempt_fails_def sample_auto_def import_device_once_def do_import_def)
  have f1: "attempt_fails sample_auto ?V ''1-1'' 1 ?c ?c"
    using busy_import_refused [of ?V "''1-1''" ?c] by (auto simp: attempt_fails_def sample_auto_def)
  have f2: "attempt_fails sample_auto ?V ''1-1'' 2 ?c c1"
    using c1 by (simp add: attempt_fails_def sample_auto_def run_urb_forwarding_def urb_forwarding_task_def
        tcp_connect_and_import_def)
  obtain c3 where ends: "attempt_ends sample_auto ?V ''1-1'' 3 c1 c3"
    using c2 tree_forwarding_ends [of "''1-1''" "cl_vhci c2"]
    by (auto simp: attempt_ends_def sample_auto_def run_urb_forwarding_def)
  let ?C = "\<lambda>i :: nat. if i < 3 then ?c else c1"
  have "attempt_fails sample_auto ?V ''1-1'' i (?C i) (?C (Suc i))" if "i < 3" for i
    using that f0 f1 f2 by (auto simp: less_Suc_eq numeral_3_eq_3 numeral_2_eq_2)
  then show ?thesis
    using daemon_reconnects_then_status_stale [of ?C ?d 3 sample_auto ?V sample_target c3] ends bid
    by (auto simp: sample_auto_def exact_never_panics manage_def)
qed

text \<open>
  When every attempt fails and nobody cancels, the task never ends, even when the errors are
  permanent ones: every failure is reported to the policy as a closed connection.
\<close>

lemma auto_connect_fails_forever:
  assumes "\<And>i c. \<exists>c'. attempt_fails A V (cn_busid cfg) i c c'" "\<And>i p. \<not> ae_cancelled A i p"
    and "\<And>i. never_panics (ae_f64 A) (ae_jitter A i) ReconnectConfig_default"
  shows "auto_connect_loop A V cfg i s d = None"
proof (rule ccontr)
  assume "auto_connect_loop A V cfg i s d \<noteq> None"
  then obtain r where returns: "auto_connect_loop A V cfg i s d = Some r" by auto
  have "A = A \<and> V = V \<and> cfg = cfg \<longrightarrow> False"
  proof (rule auto_connect_loop.raw_induct
      [where P = "\<lambda>A' V' cfg' _ _ _ _. A' = A \<and> V' = V \<and> cfg' = cfg \<longrightarrow> False", OF _ returns], rule impI)
    fix f A' V' cfg' i' s' d' r'
    assume ih: "\<And>A' V' cfg' i' s' d' r'. f A' V' cfg' i' s' d' = Some r' \<Longrightarrow> A' = A \<and> V' = V \<and> cfg' = cfg \<longrightarrow> False"
      and eq: "A' = A \<and> V' = V \<and> cfg' = cfg"
      and step: "(case auto_round A' V' cfg' i' d' of
        None \<Rightarrow> None
      | Some Panic \<Rightarrow> Some Panic
      | Some (Ret (lost, d')) \<Rightarrow>
        if \<not> lost then Some (Ret d')
        else case decide_reconnect (ae_f64 A') (ae_jitter A' i') (Some (ErrorKind_category ConnectionClosed))
                    ReconnectConfig_default s' of
          Panic \<Rightarrow> Some Panic
        | Ret (StopRetrying, _) \<Rightarrow> Some (Ret d')
        | Ret (RetryAfter _, s') \<Rightarrow>
          if ae_cancelled A' i' WhileWaiting then Some (Ret d')
          else f A' V' cfg' (Suc i') s' d') = Some r'"
    obtain c' where c': "attempt_fails A V (cn_busid cfg) i' (dm_client d') c'" using assms(1) by blast
    obtain delay s'' where "decide_reconnect (ae_f64 A) (ae_jitter A i') (Some (ErrorKind_category ConnectionClosed))
      ReconnectConfig_default s' = Ret (RetryAfter delay, s'')"
      using auto_connect_retries [OF assms(3)] by blast
    then have "f A V cfg (Suc i') s'' ((lost_state cfg d')\<lparr>dm_client := c'\<rparr>) = Some r'"
      using step eq auto_round_fails [OF c' assms(2)] assms(2) by simp
    then show False using ih by blast
  qed
  then show False by simp
qed

section \<open>The two ends of the control socket\<close>

text \<open>A text with the braces of a JSON object around it keeps them, and loses only the line feed.\<close>

lemma trim_object: "str_trim (CHR ''{'' # s @ ''}'' @ [CHR 0x0A]) = CHR ''{'' # s @ ''}''"
proof -
  let ?s = "CHR ''{'' # s @ ''}''"
  have "trim_front white_space (?s @ [CHR 0x0A]) = ?s @ [CHR 0x0A]"
    by simp (rule trim_front_stops, simp add: white_space_def)
  moreover have "trim_front (map rev white_space) (CHR 0x0A # rev ?s) = rev ?s"
  proof -
    have "trim_front (map rev white_space) (rev ?s) = rev ?s"
      by simp (rule trim_front_stops, simp add: white_space_def)
    then show ?thesis by (subst trim_front.simps) (simp add: white_space_def)
  qed
  ultimately show ?thesis by (simp add: str_trim_def)
qed

text \<open>The JSON crate prints a value as an object on one line of UTF-8 text and reads back what it
  printed.\<close>

definition json_carries :: "('a \<Rightarrow> string + string) \<Rightarrow> (string \<Rightarrow> string + 'a) \<Rightarrow> 'a \<Rightarrow> bool" where
  "json_carries print parse a \<longleftrightarrow>
     (case print a of
        Inl _ \<Rightarrow> False
      | Inr s \<Rightarrow> 2 \<le> length s \<and> hd s = CHR ''{'' \<and> last s = CHR ''}'' \<and> CHR 0x0A \<notin> set s
          \<and> utf8_valid (as_bytes s) \<and> parse s = Inr a)"

lemma json_carriesE:
  assumes "json_carries print parse a"
  obtains s where "print a = Inr s" "parse s = Inr a" "str_trim (s @ [CHR 0x0A]) = s" "s \<noteq> []"
    "\<And>fin r. read_line fin (s @ CHR 0x0A # r) = Some (Inr (s @ [CHR 0x0A]), r)"
proof -
  obtain s where s: "print a = Inr s" "2 \<le> length s" "hd s = CHR ''{''" "last s = CHR ''}''" "parse s = Inr a"
    and line: "CHR 0x0A \<notin> set s" "utf8_valid (as_bytes s)"
    using assms by (auto simp: json_carries_def split: sum.splits)
  then obtain u where "s = CHR ''{'' # u" "u \<noteq> []" by (cases s) fastforce+
  moreover from this s(4) have "u = butlast u @ ''}''" by (metis append_butlast_last_id last_ConsR)
  ultimately have "s = CHR ''{'' # butlast u @ ''}''" by metis
  then have "str_trim (s @ [CHR 0x0A]) = s" using trim_object [of "butlast u"] by (metis append_Cons append_assoc)
  moreover have "read_line fin (s @ CHR 0x0A # r) = Some (Inr (s @ [CHR 0x0A]), r)" for fin r
  proof -
    have "takeWhile (\<lambda>c. c \<noteq> CHR 0x0A) (s @ CHR 0x0A # r) = s"
      using line(1) by (subst takeWhile_append2) auto
    moreover have "utf8_valid (as_bytes (s @ [CHR 0x0A]))"
      using utf8_valid_append [OF line(2), of "as_bytes [CHR 0x0A]"] by (simp add: as_bytes_def)
    ultimately show ?thesis by (simp add: read_line_def line_text_def)
  qed
  ultimately show ?thesis using that [of s] s by (metis list.size(3) not_numeral_le_zero)
qed

text \<open>C17: A command sent over the control socket is carried out as sent and its response comes back
  as given. The daemon takes exactly the request out of the bytes it receives, whatever the client
  has sent after it and whether or not the client closes, handles exactly that command, writes one
  line and goes on with the rest (or ends, when it was told to shut down); and the other end, which
  does not wait for the daemon to close, reads from that line exactly the response of the handler.\<close>

theorem daemon_command_roundtrip:
  assumes "json_carries (js_print_cmd J) (js_parse_cmd J) cmd"
    and "json_carries (js_print_response J) (js_parse_response J) resp"
    and "handle_command ce V cmd d = Some (Ret (resp, d'))"
  shows "\<exists>req line. daemon_request J cmd = Inr req
    \<and> handle_connection J ce V fin (req @ rest) d
      = (if dm_shutdown d' then Some (Ret (Some (Inr ()), line, d'))
         else map_option (\<lambda>o1. obind o1 (\<lambda>(r, out, d''). Ret (r, line @ out, d''))) (handle_connection J ce V fin rest d'))
    \<and> daemon_answer J StaysOpen (line @ later) = Some (Inr resp)"
proof -
  obtain s where s: "js_print_cmd J cmd = Inr s" "js_parse_cmd J s = Inr cmd" "str_trim (s @ [CHR 0x0A]) = s" "s \<noteq> []"
    "\<And>fin r. read_line fin (s @ CHR 0x0A # r) = Some (Inr (s @ [CHR 0x0A]), r)"
    using json_carriesE [OF assms(1)] by metis
  obtain u where u: "js_print_response J resp = Inr u" "js_parse_response J u = Inr resp" "str_trim (u @ [CHR 0x0A]) = u"
    "\<And>fin r. read_line fin (u @ CHR 0x0A # r) = Some (Inr (u @ [CHR 0x0A]), r)"
    using json_carriesE [OF assms(2)] by metis
  show ?thesis
  proof (intro exI conjI)
    show "daemon_request J cmd = Inr (s @ [CHR 0x0A])" using s by (simp add: daemon_request_def)
    show "handle_connection J ce V fin ((s @ [CHR 0x0A]) @ rest) d
      = (if dm_shutdown d' then Some (Ret (Some (Inr ()), u @ [CHR 0x0A], d'))
         else map_option (\<lambda>o1. obind o1 (\<lambda>(r, out, d''). Ret (r, (u @ [CHR 0x0A]) @ out, d'')))
           (handle_connection J ce V fin rest d'))"
      using s u(1) assms(3) by (subst handle_connection.simps) simp
    show "daemon_answer J StaysOpen ((u @ [CHR 0x0A]) @ later) = Some (Inr resp)"
      using u by (simp add: daemon_answer_def)
  qed
qed

text \<open>A client that is told the daemon shuts down, and one that asks for the status and waits with its
  end of the socket open.\<close>

definition sample_json :: json_crate where
  "sample_json = \<lparr>js_parse_cmd = (\<lambda>s. if s = ''{q}'' then Inr CmdShutdown else if s = ''{s}'' then Inr CmdStatus else Inl ''?''),
     js_print_cmd = (\<lambda>c. Inr (if c = CmdShutdown then ''{q}'' else ''{s}'')),
     js_parse_response = (\<lambda>s. Inr \<lparr>rs_status = ''ok'', rs_message = None, rs_connections = Some []\<rparr>),
     js_print_response = (\<lambda>_. Inr ''{r}'')\<rparr>"

theorem daemon_command_roundtrip_witness:
  "\<exists>req line. daemon_request sample_json CmdStatus = Inr req
    \<and> handle_connection sample_json refused_cmd (linux_ops recording_os sample_linux) StaysOpen req sample_daemon
      = Some (Ret (None, line, sample_daemon))
    \<and> daemon_answer sample_json StaysOpen line
      = Some (Inr \<lparr>rs_status = ''ok'', rs_message = None, rs_connections = Some []\<rparr>)"
proof -
  have idle: "handle_connection sample_json refused_cmd (linux_ops recording_os sample_linux) StaysOpen [] sample_daemon
      = Some (Ret (None, [], sample_daemon))"
    by (subst handle_connection.simps) (simp add: read_line_def)
  have d: "\<not> dm_shutdown sample_daemon" "dm_conns sample_daemon = []"
    by (simp_all add: sample_daemon_def DaemonManager_new_def)
  have v: "utf8_valid (as_bytes ''{s}'')" "utf8_valid (as_bytes ''{r}'')" by (simp_all add: as_bytes_def)
  show ?thesis
    using daemon_command_roundtrip [of sample_json CmdStatus "\<lparr>rs_status = ''ok'', rs_message = None, rs_connections = Some []\<rparr>"
        refused_cmd "linux_ops recording_os sample_linux" sample_daemon sample_daemon StaysOpen "[]" "[]"] idle d v
    by (simp add: json_carries_def sample_json_def handle_command_def)
qed

text \<open>
  The daemon takes the lock of its connections in a blocking way from inside the runtime; where
  that panics, a daemon with a configured connection does not come up.
\<close>

lemma daemon_start_panics: "cs \<noteq> [] \<Longrightarrow> start_all True cs d = Panic"
  by (cases cs) (simp_all add: start_auto_connect_def)

section \<open>Connections and tasks of a running daemon\<close>


text \<open>The check of a Connect and its push are two critical sections: two Connects for one target that
  both pass the check before either pushes leave it managed twice, by two tasks.\<close>

lemma connect_race:
  assumes "ds_pending s = []" "ds_handlers s = (\<lambda>_. None)" "\<not> managed cfg (ds_mgr s)"
  shows "(daemon_step nested V)\<^sup>*\<^sup>* s (s\<lparr>ds_mgr := manage cfg CsConnected (manage cfg CsConnected (ds_mgr s))\<rparr>)"
proof -
  let ?d = "ds_mgr s" and ?n = "dm_next_token (ds_mgr s)"
  let ?d1 = "manage cfg CsConnected ?d"
  have client: "(ds_mgr s)\<lparr>dm_client := dm_client (ds_mgr s)\<rparr> = ds_mgr s" by simp
  define H where "H = (\<lambda>a b. (\<lambda>_. None)(0 := a, 1 := b) :: nat \<Rightarrow> handler option)"
  define st where "st = (\<lambda>d a b. s\<lparr>ds_mgr := d, ds_handlers := H a b\<rparr>)"
  have upd: "(H a b)(0 := x) = H x b" "(H a b)(1 := x) = H a x" "H a b 0 = a" "H a b 1 = b" for a b x
    by (auto simp: H_def fun_eq_iff)
  have s: "s = st ?d None None" using assms(2) by (cases s) (auto simp: st_def H_def fun_eq_iff)
  let ?I = "Some (Importing cfg)"
  note step = converse_rtranclp_into_rtranclp [of "daemon_step nested V"]
  have 1: "daemon_step nested V (st ?d None None) (st ?d ?I None)"
    using daemon_step.c_check [of "st ?d None None" 0 cfg nested V] assms upd by (simp add: st_def)
  have 2: "daemon_step nested V (st ?d ?I None) (st ?d ?I ?I)"
    using daemon_step.c_check [of "st ?d ?I None" 1 cfg nested V] assms upd by (simp add: st_def)
  have 3: "daemon_step nested V (st ?d ?I ?I) (st (push_conn cfg CsConnected ?d) (Some (Spawning cfg ?n)) ?I)"
    using daemon_step.c_push [of "st ?d ?I ?I" 0 cfg nested V "dm_client ?d"] upd by (simp add: st_def)
  have 4: "daemon_step nested V (st (push_conn cfg CsConnected ?d) (Some (Spawning cfg ?n)) ?I) (st ?d1 None ?I)"
    using daemon_step.c_spawn [of "st (push_conn cfg CsConnected ?d) (Some (Spawning cfg ?n)) ?I" 0 cfg ?n nested V] upd
    by (simp add: st_def manage_def)
  have 5: "daemon_step nested V (st ?d1 None ?I) (st (push_conn cfg CsConnected ?d1) None (Some (Spawning cfg (dm_next_token ?d1))))"
    using daemon_step.c_push [of "st ?d1 None ?I" 1 cfg nested V "dm_client ?d1"] upd by (simp add: st_def)
  have 6: "daemon_step nested V (st (push_conn cfg CsConnected ?d1) None (Some (Spawning cfg (dm_next_token ?d1))))
      (st (manage cfg CsConnected ?d1) None None)"
    using daemon_step.c_spawn [of "st (push_conn cfg CsConnected ?d1) None (Some (Spawning cfg (dm_next_token ?d1)))" 1 cfg
        "dm_next_token ?d1" nested V] upd by (simp add: st_def manage_def)
  have "(daemon_step nested V)\<^sup>*\<^sup>* (st ?d None None) (st (manage cfg CsConnected ?d1) None None)"
    by (rule step [OF 1 step [OF 2 step [OF 3 step [OF 4 step [OF 5 step [OF 6 rtranclp.rtrancl_refl]]]]]])
  moreover have "st (manage cfg CsConnected ?d1) None None = s\<lparr>ds_mgr := manage cfg CsConnected ?d1\<rparr>"
    by (simp add: st_def H_def assms(2) fun_eq_iff)
  ultimately show ?thesis using s by simp
qed

definition sample_sock :: sock_env where
  "sample_sock = \<lparr>so_parent = (\<lambda>_. Some ''/tmp''), so_create_dir_all = (\<lambda>_. None), so_exists = (\<lambda>_. True),
     so_remove_file = (\<lambda>_. None), so_bind = (\<lambda>_. None)\<rparr>"


end
