(* ===== verification/Startup.thy ===== *)
theory Startup
  imports Api Daemon Discovery
begin

text \<open>
  The entry points: \<^verbatim>\<open>server/usbip-server/src/main.rs\<close> with the construction and the accept loops of
  \<^verbatim>\<open>server.rs\<close>, and \<^verbatim>\<open>client/usbip-client/src/main.rs\<close>. A command line is what \<^verbatim>\<open>clap\<close> made of the
  arguments. Parameters are the network interfaces (\<^verbatim>\<open>getifaddrs\<close> gives a list of names with an
  IPv4 address or none, or fails), the listeners and the connections they accept.
\<close>

section \<open>Numbers of the command line\<close>

fun radix_digits :: "nat \<Rightarrow> nat \<Rightarrow> nat \<Rightarrow> string \<Rightarrow> string + nat" where
  "radix_digits bound radix acc [] = Inr acc"
| "radix_digits bound radix acc (c # cs) =
     (case char_digit radix c of
        None \<Rightarrow> Inl ''invalid digit found in string''
      | Some d \<Rightarrow>
        if bound \<le> acc * radix + d then Inl ''number too large to fit in target type''
        else radix_digits bound radix (acc * radix + d) cs)"

definition from_str_radix_u16 :: "string \<Rightarrow> string + u16" where
  "from_str_radix_u16 s =
     (if s = [] then Inl ''cannot parse integer from empty string''
      else if s = ''+'' \<or> s = ''-'' then Inl ''invalid digit found in string''
      else map_sum id of_nat (radix_digits 65536 16 0 (if hd s = CHR ''+'' then tl s else s)))"

definition parse_vid_pid :: "string \<Rightarrow> string + (u16 \<times> u16)" where
  "parse_vid_pid s =
     (let parts = split_on (CHR '':'') s in
      if length parts \<noteq> 2 then Inl ''format: VID:PID (e.g., 046d:c261)''
      else case from_str_radix_u16 (parts ! 0) of
        Inl e \<Rightarrow> Inl e
      | Inr vid \<Rightarrow> (case from_str_radix_u16 (parts ! 1) of Inl e \<Rightarrow> Inl e | Inr pid \<Rightarrow> Inr (vid, pid)))"

definition parse_fake_device :: "string \<Rightarrow> string + (string \<times> u16 \<times> u16)" where
  "parse_fake_device s =
     (let parts = split_on (CHR '':'') s in
      if length parts \<noteq> 3 then Inl ''format: BUSID:VID:PID (e.g., 1-1:046d:c261)''
      else if CHR ''-'' \<notin> set (parts ! 0) then Inl ''busid must be of the form BUSNUM-DEVNUM (e.g. 1-1)''
      else case from_str_radix_u16 (parts ! 1) of
        Inl e \<Rightarrow> Inl e
      | Inr vid \<Rightarrow>
        (case from_str_radix_u16 (parts ! 2) of Inl e \<Rightarrow> Inl e | Inr pid \<Rightarrow> Inr (parts ! 0, vid, pid)))"

section \<open>The server's command line\<close>

datatype Commands = List

record Cli =
  cli_command :: "Commands option"
  cli_bind :: string
  cli_bind_iface :: "string option"
  cli_port :: u16
  cli_api_port :: "u16 option"
  cli_allow :: "(u16 \<times> u16) list"
  cli_no_confirm :: bool
  cli_encrypt :: bool
  cli_metrics_port :: "u16 option"
  cli_fake_devices :: "(string \<times> u16 \<times> u16) list"

definition resolve_bind_address :: "string \<Rightarrow> string option \<Rightarrow> (string \<Rightarrow> string option) \<Rightarrow> string UsbIpResult" where
  "resolve_bind_address bind_to iface look_up =
     (case iface of
        Some name \<Rightarrow> (case look_up name of Some ip \<Rightarrow> Inr ip | None \<Rightarrow> Inr bind_to)
      | None \<Rightarrow> Inr bind_to)"

text \<open>A node of the interface list: its name when it is UTF-8, and its octets when it has an IPv4 address.\<close>

type_synonym ifaddr = "string option \<times> (u8 \<times> u8 \<times> u8 \<times> u8) option"

definition show_octets :: "u8 \<times> u8 \<times> u8 \<times> u8 \<Rightarrow> string" where
  "show_octets = (\<lambda>(a, b, c, d).
     show_dec (unat a) @ ''.'' @ show_dec (unat b) @ ''.'' @ show_dec (unat c) @ ''.'' @ show_dec (unat d))"

fun walk_interfaces :: "string \<Rightarrow> ifaddr list \<Rightarrow> string option" where
  "walk_interfaces name [] = None"
| "walk_interfaces name ((ifa_name, addr) # rest) =
     (if (case ifa_name of Some n \<Rightarrow> n | None \<Rightarrow> []) = name then
        (case addr of Some octets \<Rightarrow> Some (show_octets octets) | None \<Rightarrow> walk_interfaces name rest)
      else walk_interfaces name rest)"

definition lookup_interface_ip :: "bool \<Rightarrow> ifaddr list option \<Rightarrow> string \<Rightarrow> string option" where
  "lookup_interface_ip unix ifaddrs name =
     (if \<not> unix then None
      else case ifaddrs of None \<Rightarrow> None | Some l \<Rightarrow> walk_interfaces name l)"

definition server_config :: "(string \<Rightarrow> string option) \<Rightarrow> Cli \<Rightarrow> ServerConfig UsbIpResult" where
  "server_config look_up cli =
     (case resolve_bind_address (cli_bind cli) (cli_bind_iface cli) look_up of
        Inl e \<Rightarrow> Inl e
      | Inr addr \<Rightarrow>
        Inr \<lparr>bind_address = addr, port = cli_port cli, allowed_vid_pid = cli_allow cli,
             require_confirmation = \<not> cli_no_confirm cli, encryption_enabled = cli_encrypt cli,
             tcp_nodelay = True, max_bandwidth = bw_unlimited, per_client_bandwidth = None\<rparr>)"

definition fake_entries :: "Cli \<Rightarrow> UsbIpDeviceEntry list" where
  "fake_entries cli = map (\<lambda>(bid, vid, pid). make_test_entry bid vid pid) (cli_fake_devices cli)"

section \<open>The server\<close>

record ('b, 'd) Server =
  sv_usb :: "'b UsbDeviceManager"
  sv_exports :: exports
  sv_mdns :: "'d MdnsAdvertiser option"
  sv_config :: ServerConfig

definition server_with_backend ::
  "'b UsbBackend \<Rightarrow> 'd mdns_crate \<Rightarrow> string \<Rightarrow> ServerConfig \<Rightarrow> 'b \<Rightarrow> ('b, 'd) Server UsbIpResult" where
  "server_with_backend B M hostname config backend =
     (let usb = with_backend backend; devices = list_exportable_devices B usb (allowed_vid_pid config) in
      Inr \<lparr>sv_usb = usb, sv_exports = Map.empty,
           sv_mdns = (case MdnsAdvertiser_new M hostname (port config) devices of Inr m \<Rightarrow> Some m | Inl _ \<Rightarrow> None),
           sv_config = config\<rparr>)"

definition server_new ::
  "'b UsbBackend \<Rightarrow> 'd mdns_crate \<Rightarrow> string \<Rightarrow> ServerConfig \<Rightarrow> 'b UsbIpResult \<Rightarrow> ('b, 'd) Server UsbIpResult" where
  "server_new B M hostname config opened =
     (case opened of Inl e \<Rightarrow> Inl e | Inr backend \<Rightarrow> server_with_backend B M hostname config backend)"

definition exportable_devices :: "'b UsbBackend \<Rightarrow> ('b, 'd) Server \<Rightarrow> UsbIpDeviceEntry list" where
  "exportable_devices B s = list_devices B (sv_usb s)"

text \<open>
  The accept loop on what the listener delivers: the connections handed to \<^verbatim>\<open>handle_client\<close> tasks, and
  the error that ended the loop; without one the loop still waits for the next connection.
\<close>

fun accept_loop :: "(io_error + (tcp \<times> SocketAddr)) list \<Rightarrow> (tcp \<times> SocketAddr) list \<times> ErrorKind option" where
  "accept_loop [] = ([], None)"
| "accept_loop (Inl e # _) = ([], Some (Io e))"
| "accept_loop (Inr c # rest) = (let (cs, e) = accept_loop rest in (c # cs, e))"

record run_env =
  re_bind :: "string \<Rightarrow> (io_error + (io_error + (tcp \<times> SocketAddr)) list)"
  re_os :: string
  re_local_ip :: "string option"

definition start_mdns :: "'d mdns_crate \<Rightarrow> run_env \<Rightarrow> ('b, 'd) Server \<Rightarrow> unit UsbIpResult" where
  "start_mdns M E s =
     (case sv_mdns s of None \<Rightarrow> Inr () | Some m \<Rightarrow> fst (MdnsAdvertiser_start M (re_os E) (re_local_ip E) m))"

text \<open>\<^verbatim>\<open>run\<close> and \<^verbatim>\<open>run_with_api\<close>: the second binds the API port as well before it accepts.\<close>

definition server_run ::
  "'d mdns_crate \<Rightarrow> run_env \<Rightarrow> ('b, 'd) Server \<Rightarrow> (tcp \<times> SocketAddr) list \<times> ErrorKind option" where
  "server_run M E s =
     (case re_bind E (bind_address (sv_config s) @ '':'' @ show_dec (unat (port (sv_config s)))) of
        Inl e \<Rightarrow> ([], Some (Io e))
      | Inr accepted \<Rightarrow>
        (case start_mdns M E s of Inl e \<Rightarrow> ([], Some e) | Inr _ \<Rightarrow> accept_loop accepted))"

definition run_with_api ::
  "'d mdns_crate \<Rightarrow> run_env \<Rightarrow> u16 \<Rightarrow> ('b, 'd) Server \<Rightarrow> (tcp \<times> SocketAddr) list \<times> ErrorKind option" where
  "run_with_api M E api_port s =
     (case re_bind E (bind_address (sv_config s) @ '':'' @ show_dec (unat (port (sv_config s)))) of
        Inl e \<Rightarrow> ([], Some (Io e))
      | Inr accepted \<Rightarrow>
        (case start_mdns M E s of
           Inl e \<Rightarrow> ([], Some e)
         | Inr _ \<Rightarrow>
           (case re_bind E (bind_address (sv_config s) @ '':'' @ show_dec (unat api_port)) of
              Inl e \<Rightarrow> ([], Some (Io e)) | Inr _ \<Rightarrow> accept_loop accepted)))"

definition device_line :: "UsbIpDeviceEntry \<Rightarrow> string" where
  "device_line dev =
     ''  '' @ show_hex_pad 4 (unat (entry_vid dev)) @ '':'' @ show_hex_pad 4 (unat (entry_pid dev)) @ ''  ''
     @ busid_str dev @ ''  '' @ path_str dev @ ''  speed='' @ show_dec (unat (speed_val dev))"

datatype server_effect =
    Printed "string list"
  | Served "(tcp \<times> SocketAddr) list"

text \<open>The part of \<^verbatim>\<open>main\<close> after the server is made; the metrics port is only bound.\<close>

definition server_main ::
  "'b UsbBackend \<Rightarrow> 'd mdns_crate \<Rightarrow> run_env \<Rightarrow> Cli \<Rightarrow> ('b, 'd) Server \<Rightarrow> server_effect \<times> ErrorKind option" where
  "server_main B M E cli s =
     (case (case cli_metrics_port cli of
              None \<Rightarrow> None
            | Some p \<Rightarrow>
              (case re_bind E (bind_address (sv_config s) @ '':'' @ show_dec (unat p)) of
                 Inl e \<Rightarrow> Some (Io e) | Inr _ \<Rightarrow> None)) of
        Some e \<Rightarrow> (Printed [], Some e)
      | None \<Rightarrow>
        (case cli_command cli of
           Some List \<Rightarrow> (Printed (''Exportable USB devices:'' # map device_line (exportable_devices B s)), None)
         | None \<Rightarrow>
           (case (case cli_api_port cli of Some p \<Rightarrow> run_with_api M E p s | None \<Rightarrow> server_run M E s) of
              (cs, e) \<Rightarrow> (Served cs, e))))"

section \<open>Metrics\<close>

text \<open>
  \<^verbatim>\<open>metrics.rs\<close>: the metrics are lazy, so one is registered, with value 0, when it is first used. The
  state is the registered metrics with their values. How \<^verbatim>\<open>prometheus\<close> writes them down is a
  parameter; \<^verbatim>\<open>main\<close> is the only code that uses one of them.
\<close>

datatype metric = DEVICES_EXPORTED | CLIENTS_CONNECTED | URB_SUBMIT_TOTAL | URB_BYTES_TOTAL | ENCRYPTION_ENABLED

definition metric_name :: "metric \<Rightarrow> string" where
  "metric_name m =
     (case m of
        DEVICES_EXPORTED \<Rightarrow> ''usbip_devices_exported''
      | CLIENTS_CONNECTED \<Rightarrow> ''usbip_clients_connected''
      | URB_SUBMIT_TOTAL \<Rightarrow> ''usbip_urb_submit_total''
      | URB_BYTES_TOTAL \<Rightarrow> ''usbip_urb_bytes_total''
      | ENCRYPTION_ENABLED \<Rightarrow> ''usbip_encryption_enabled'')"

definition main_metrics :: "Cli \<Rightarrow> (metric \<rightharpoonup> int) \<Rightarrow> (metric \<rightharpoonup> int)" where
  "main_metrics cli registry = (if cli_encrypt cli then registry(ENCRYPTION_ENABLED \<mapsto> 1) else registry)"

definition metrics_handler :: "((metric \<rightharpoonup> int) \<Rightarrow> string + bytes) \<Rightarrow> (metric \<rightharpoonup> int) \<Rightarrow> nat \<times> string" where
  "metrics_handler encode registry =
     (case encode registry of
        Inr buffer \<Rightarrow> (200, (case from_utf8 buffer of Some s \<Rightarrow> s | None \<Rightarrow> []))
      | Inl e \<Rightarrow> (500, ''encoding error: '' @ e))"

text \<open>No metric name is used twice, so a registration cannot fail for that reason.\<close>

lemma metric_names_unique: "inj metric_name"
proof (rule injI)
  show "x = y" if "metric_name x = metric_name y" for x y
    using that by (cases x; cases y) (simp_all add: metric_name_def)
qed

text \<open>The page shows at most the encryption gauge, and never with the value 0 it is documented to have.\<close>

lemma metrics_registered:
  "main_metrics cli Map.empty = (if cli_encrypt cli then [ENCRYPTION_ENABLED \<mapsto> 1] else Map.empty)"
  by (simp add: main_metrics_def)

section \<open>The client's command line\<close>

definition daemon_config_path :: "dirs_env \<Rightarrow> string option \<Rightarrow> string" where
  "daemon_config_path D config =
     (case config of
        Some path \<Rightarrow> path
      | None \<Rightarrow> (case find_config D of Some path \<Rightarrow> path | None \<Rightarrow> ''/etc/usbip-client/config.toml''))"

text \<open>The configuration file as \<^verbatim>\<open>load\<close> sees it.\<close>

record config_files =
  cf_read :: "string \<Rightarrow> io_error + string"
  cf_toml :: "string \<Rightarrow> string + DaemonConfig"

definition daemon_socket :: "dirs_env \<Rightarrow> config_files \<Rightarrow> string option \<Rightarrow> string UsbIpResult" where
  "daemon_socket D C config =
     map_sum id dc_socket_path (DaemonConfig_load D (cf_read C) (cf_toml C) (daemon_config_path D config))"

definition ctl_socket :: "dirs_env \<Rightarrow> config_files \<Rightarrow> string option \<Rightarrow> string" where
  "ctl_socket D C sock =
     (case sock of
        Some path \<Rightarrow> path
      | None \<Rightarrow>
        (case find_config D of
           Some cfg_path \<Rightarrow>
             (case DaemonConfig_load D (cf_read C) (cf_toml C) cfg_path of
                Inr cfg \<Rightarrow> dc_socket_path cfg | Inl _ \<Rightarrow> ''/var/run/usbip-client/usbip-client.sock'')
         | None \<Rightarrow> ''/var/run/usbip-client/usbip-client.sock''))"

datatype DaemonCtlAction = CtlConnect SocketAddr string | CtlDisconnect string | CtlStatus | CtlShutdown

fun ctl_command :: "DaemonCtlAction \<Rightarrow> DaemonCommand" where
  "ctl_command (CtlConnect server bid) = CmdConnect server bid"
| "ctl_command (CtlDisconnect bid) = CmdDisconnect bid"
| "ctl_command CtlStatus = CmdStatus"
| "ctl_command CtlShutdown = CmdShutdown"

text \<open>The exit status and the lines printed for a response; the check mark and the dash are UTF-8.\<close>

definition state_icon :: "string \<Rightarrow> string" where
  "state_icon st =
     (if st = ''connected'' then [CHR 0xE2, CHR 0x9C, CHR 0x93] else if st = ''connecting'' then ''...'' else ''!'')"

definition connection_line :: "ConnectionStatus \<Rightarrow> string" where
  "connection_line c =
     ''  '' @ state_icon (cs_state c) @ '' '' @ cs_busid c @ '' ('' @ cs_server c @ '') ''
     @ [CHR 0xE2, CHR 0x80, CHR 0x94] @ '' '' @ cs_state c"

definition ctl_output :: "DaemonResponse \<Rightarrow> nat \<times> string list" where
  "ctl_output response =
     (if rs_status response = ''ok'' then
        (0, (''OK: '' @ (case rs_message response of Some m \<Rightarrow> m | None \<Rightarrow> [])) #
          (case rs_connections response of
             None \<Rightarrow> []
           | Some cs \<Rightarrow>
             if cs = [] then [''  No active connections.''] else ''  Connections:'' # map connection_line cs))
      else (1, [''Error: '' @ (case rs_message response of Some m \<Rightarrow> m | None \<Rightarrow> ''unknown error'')]))"

text \<open>The whole command: the socket is looked for, then the command is sent and its response printed.
  \<open>send\<close> is \<^verbatim>\<open>send_daemon_command\<close> over the socket at a path.\<close>

definition daemon_ctl ::
  "dirs_env \<Rightarrow> config_files \<Rightarrow> (string \<Rightarrow> DaemonCommand \<Rightarrow> DaemonResponse UsbIpResult) \<Rightarrow> string option \<Rightarrow> DaemonCtlAction
   \<Rightarrow> (nat \<times> string list) UsbIpResult" where
  "daemon_ctl D C send sock action =
     (let path = ctl_socket D C sock in
      if \<not> de_exists D path
      then Inr (1, [''Error: daemon socket not found at '' @ path @ ''. Is the daemon running?''])
      else case send path (ctl_command action) of Inl e \<Rightarrow> Inl e | Inr response \<Rightarrow> Inr (ctl_output response))"

text \<open>
  The foreground commands. A client is made from its configuration; what it finds, lists and
  imports are parameters. A connected client then waits for an interrupt.
\<close>

datatype client_command =
    Discover
  | ListRemote SocketAddr
  | Connect SocketAddr string bool

definition client_config :: "client_command \<Rightarrow> ClientConfig" where
  "client_config cmd =
     (case cmd of
        Discover \<Rightarrow> ClientConfig_default\<lparr>cc_use_mdns := True\<rparr>
      | ListRemote server \<Rightarrow> ClientConfig_default\<lparr>cc_server_addr := Some server, cc_use_mdns := False\<rparr>
      | Connect server _ no_reconnect \<Rightarrow>
          ClientConfig_default\<lparr>cc_server_addr := Some server, cc_use_mdns := False,
            cc_auto_reconnect := \<not> no_reconnect\<rparr>)"

record 'c client_calls =
  ca_new :: "ClientConfig \<Rightarrow> 'c UsbIpResult"
  ca_discover :: "'c \<Rightarrow> SocketAddr list UsbIpResult"
  ca_list :: "'c \<Rightarrow> SocketAddr \<Rightarrow> UsbIpDeviceEntry list UsbIpResult"
  ca_import :: "'c \<Rightarrow> SocketAddr \<Rightarrow> string \<Rightarrow> ImportedDevice UsbIpResult"

definition id_text :: "UsbIpDeviceEntry \<Rightarrow> string" where
  "id_text dev = show_hex_pad 4 (unat (entry_vid dev)) @ '':'' @ show_hex_pad 4 (unat (entry_pid dev))"

definition client_foreground :: "'c client_calls \<Rightarrow> client_command \<Rightarrow> string list \<times> ErrorKind option" where
  "client_foreground A cmd =
     (case ca_new A (client_config cmd) of
        Inl e \<Rightarrow> ([], Some e)
      | Inr c \<Rightarrow>
        (case cmd of
           Discover \<Rightarrow>
             (case ca_discover A c of
                Inl e \<Rightarrow> ([], Some e)
              | Inr servers \<Rightarrow>
                (if servers = [] then [''No USB/IP servers found on the network.'']
                 else ''USB/IP servers found:'' # map (\<lambda>a. ''  '' @ a) servers, None))
         | ListRemote server \<Rightarrow>
             (case ca_list A c server of
                Inl e \<Rightarrow> ([], Some e)
              | Inr devices \<Rightarrow>
                (if devices = [] then [''No exportable devices on '' @ server]
                 else (''Devices on '' @ server @ '':'')
                   # map (\<lambda>d. ''  '' @ id_text d @ ''  '' @ busid_str d @ ''  '' @ path_str d) devices, None))
         | Connect server bid _ \<Rightarrow>
             (let l1 = ''Importing device '' @ bid @ '' from '' @ server @ ''...'' in
              case ca_import A c server bid of
                Inl e \<Rightarrow> ([l1], Some e)
              | Inr dev \<Rightarrow>
                ([l1, ''Device imported: '' @ id_text (im_device_entry dev), ''Press Ctrl+C to detach.''], None))))"

section \<open>Identifiers on the command line\<close>

lemma digits_value_mono: "0 < radix \<Longrightarrow> digits_value radix acc s = Some v \<Longrightarrow> acc \<le> v"
proof (induction s arbitrary: acc)
  case (Cons c cs)
  then obtain d where "digits_value radix (acc * radix + d) cs = Some v" by (auto split: option.splits)
  then have "acc * radix + d \<le> v" using Cons by blast
  moreover have "acc \<le> acc * radix" using Cons.prems(1) by simp
  ultimately show ?case by linarith
qed simp

lemma radix_digits_value:
  "0 < radix \<Longrightarrow> digits_value radix acc s = Some v \<Longrightarrow> v < bound \<Longrightarrow> radix_digits bound radix acc s = Inr v"
proof (induction s arbitrary: acc)
  case (Cons c cs)
  then obtain d where d: "char_digit radix c = Some d" "digits_value radix (acc * radix + d) cs = Some v"
    by (auto split: option.splits)
  then have "acc * radix + d \<le> v" using digits_value_mono Cons.prems(1) by blast
  then show ?case using d Cons by simp
qed simp

lemma from_str_radix_shown [simp]: "from_str_radix_u16 (show_hex_pad 4 (unat w)) = Inr w"
proof -
  obtain c cs where s: "show_hex_pad 4 (unat w) = c # cs" by (meson neq_Nil_conv show_hex_pad_nonempty)
  then have "c \<in> set (show_hex_pad 4 (unat w))" by simp
  then have "c \<in> set ''0123456789abcdef''" by (rule subsetD [OF show_hex_pad_chars])
  then have "c \<noteq> CHR ''+''" "c \<noteq> CHR ''-''" by auto
  moreover have "unat w < 65536" using unsigned_less [of w, where ?'a = nat] by simp
  then have "radix_digits 65536 16 0 (show_hex_pad 4 (unat w)) = Inr (unat w)"
    by (intro radix_digits_value digits_value_hex_pad) simp_all
  ultimately show ?thesis using s by (simp add: from_str_radix_u16_def)
qed

lemma hex_no_colon: "CHR '':'' \<notin> set (show_hex_pad w n)"
proof
  assume "CHR '':'' \<in> set (show_hex_pad w n)"
  then have "CHR '':'' \<in> set ''0123456789abcdef''" by (rule subsetD [OF show_hex_pad_chars])
  then show False by simp
qed

text \<open>Identifiers printed the way the tools print them are accepted by the allowlist option of the
  command line and mean the same vendor and product.\<close>

theorem allow_option_roundtrip:
  "parse_vid_pid (show_hex_pad 4 (unat vid) @ '':'' @ show_hex_pad 4 (unat pid)) = Inr (vid, pid)"
  using split_on_append [OF hex_no_colon] split_on_no_sep [OF hex_no_colon]
  by (simp add: parse_vid_pid_def)

lemma fake_device_option_roundtrip:
  assumes "CHR '':'' \<notin> set bid" "CHR ''-'' \<in> set bid"
  shows "parse_fake_device (bid @ '':'' @ show_hex_pad 4 (unat vid) @ '':'' @ show_hex_pad 4 (unat pid))
    = Inr (bid, vid, pid)"
  using split_on_append [OF hex_no_colon] split_on_no_sep [OF hex_no_colon] split_on_append [OF assms(1)] assms(2)
  by (simp add: parse_fake_device_def)

section \<open>Which devices are shared\<close>

text \<open>C39: The allowlist of the command line governs the advertisement and not the access. A server
  started with it advertises exactly the devices on it (all devices when it is empty), in their
  order; its \<^verbatim>\<open>list\<close> command still prints every device as exportable; and it holds the same devices and
  handles every connection, device list and import included, exactly as the server started with the
  same options but no allowlist.\<close>

theorem allowlist_only_filters_advertisement:
  assumes "server_config look_up cli = Inr config" "server_with_backend B M hostname config backend = Inr s"
    and "server_config look_up (cli\<lparr>cli_allow := []\<rparr>) = Inr config0"
    and "server_with_backend B M hostname config0 backend = Inr s0"
    and "sv_mdns s = Some m" "cli_metrics_port cli = None"
  shows "ma_devices m = filter (\<lambda>e. cli_allow cli = [] \<or> (entry_vid e, entry_pid e) \<in> set (cli_allow cli))
      (list_devices B (sv_usb s))
    \<and> server_main B M E (cli\<lparr>cli_command := Some List\<rparr>) s
      = (Printed (''Exportable USB devices:'' # map device_line (list_devices B (sv_usb s))), None)
    \<and> sv_usb s = sv_usb s0 \<and> sv_exports s = sv_exports s0
    \<and> handle_client R B env (sv_config s) = handle_client R B env (sv_config s0)"
proof -
  have config: "allowed_vid_pid config = cli_allow cli" "encryption_enabled config = encryption_enabled config0"
    using assms(1,3) by (auto simp: server_config_def split: sum.splits)
  have s: "sv_usb s = with_backend backend" "sv_usb s0 = with_backend backend" "sv_exports s = sv_exports s0"
      "sv_config s = config" "sv_config s0 = config0"
    using assms(2,4) by (auto simp: server_with_backend_def Let_def)
  have "ma_devices m = list_exportable_devices B (with_backend backend) (cli_allow cli)"
    using assms(2,5) config
    by (auto simp: server_with_backend_def MdnsAdvertiser_new_def Let_def split: sum.splits)
  moreover have "list_exportable_devices B (with_backend backend) (cli_allow cli)
      = filter (\<lambda>e. cli_allow cli = [] \<or> (entry_vid e, entry_pid e) \<in> set (cli_allow cli))
          (list_devices B (with_backend backend))"
    by (auto simp: list_exportable_devices_def list_ex_iff intro!: filter_cong)
  moreover have "handle_client R B env config = handle_client R B env config0"
    by (rule ext) (rule handle_client_config [OF config(2)])
  ultimately show ?thesis using s assms(6) by (simp add: server_main_def exportable_devices_def)
qed

definition sample_mdns :: "unit mdns_crate" where
  "sample_mdns = \<lparr>md_new = Inr (), md_service_info = (\<lambda>_ _ _ _ _ _. Inl ''none''),
     md_register = (\<lambda>_ d. (Inr (), d)), md_unregister = (\<lambda>_ d. d), md_browse = (\<lambda>_ d. (Inr [], d)), md_shutdown = id\<rparr>"

definition sample_cli :: Cli where
  "sample_cli = \<lparr>cli_command = None, cli_bind = ''0.0.0.0'', cli_bind_iface = None, cli_port = 3240,
     cli_api_port = None, cli_allow = [(1, 2)], cli_no_confirm = False, cli_encrypt = False,
     cli_metrics_port = None, cli_fake_devices = []\<rparr>"

definition quiet_env :: run_env where
  "quiet_env = \<lparr>re_bind = (\<lambda>_. Inr []), re_os = ''linux'', re_local_ip = None\<rparr>"

theorem allowlist_only_filters_advertisement_witness:
  "\<exists>config s m. server_config (\<lambda>_. None) sample_cli = Inr config
    \<and> server_with_backend FakeBackend sample_mdns ''host'' config [sample_entry] = Inr s \<and> sv_mdns s = Some m
    \<and> ma_devices m = []
    \<and> server_main FakeBackend sample_mdns quiet_env (sample_cli\<lparr>cli_command := Some List\<rparr>) s
      = (Printed [''Exportable USB devices:'', device_line sample_entry], None)"
proof -
  obtain config where c: "server_config (\<lambda>_. None) sample_cli = Inr config"
    by (simp add: server_config_def resolve_bind_address_def sample_cli_def)
  obtain config0 where c0: "server_config (\<lambda>_. None) (sample_cli\<lparr>cli_allow := []\<rparr>) = Inr config0"
    by (simp add: server_config_def resolve_bind_address_def sample_cli_def)
  obtain s where s: "server_with_backend FakeBackend sample_mdns ''host'' config [sample_entry] = Inr s"
    by (simp add: server_with_backend_def Let_def)
  obtain s0 where s0: "server_with_backend FakeBackend sample_mdns ''host'' config0 [sample_entry] = Inr s0"
    by (simp add: server_with_backend_def Let_def)
  obtain m where m: "sv_mdns s = Some m"
    using s by (auto simp: server_with_backend_def Let_def MdnsAdvertiser_new_def sample_mdns_def)
  have "list_devices FakeBackend (sv_usb s) = [sample_entry]"
    using s by (auto simp: server_with_backend_def Let_def list_devices_def FakeBackend_def with_backend_def)
  moreover have "(entry_vid sample_entry, entry_pid sample_entry) \<notin> set (cli_allow sample_cli)"
    "cli_allow sample_cli \<noteq> []" "cli_metrics_port sample_cli = None"
    by (simp_all add: sample_entry_def make_test_entry_def entry_vid_def entry_pid_def sample_cli_def)
  ultimately show ?thesis
    using allowlist_only_filters_advertisement [OF c s c0 s0 m, where E = quiet_env and R = toy_ring and env = sample_env] c s m
    by auto
qed

text \<open>One failing \<^verbatim>\<open>accept\<close> ends the server.\<close>

lemma accept_error_ends_server: "accept_loop (map Inr cs @ Inl e # rest) = (cs, Some (Io e))"
  by (induction cs) simp_all

section \<open>The daemon and its control program\<close>

text \<open>The configuration files as two programs see them: the same directories, the same files.\<close>

definition same_config :: "dirs_env \<Rightarrow> dirs_env \<Rightarrow> bool" where
  "same_config D D' \<longleftrightarrow>
     de_config_dir D = de_config_dir D' \<and> list_all (\<lambda>p. de_exists D p = de_exists D' p) (default_paths D)"

lemma same_config_find: "same_config D D' \<Longrightarrow> find_config D = find_config D'"
proof -
  assume same: "same_config D D'"
  then have "default_paths D = default_paths D'" by (simp add: same_config_def default_paths_def)
  moreover have "find (de_exists D) ps = find (de_exists D') ps" if "list_all (\<lambda>p. de_exists D p = de_exists D' p) ps" for ps
    using that by (induction ps) auto
  ultimately show ?thesis using same by (simp add: find_config_def same_config_def)
qed

definition system_socket :: string where
  "system_socket = ''/var/run/usbip-client/usbip-client.sock''"


definition user_dirs :: dirs_env where
  "user_dirs = \<lparr>de_exists = (\<lambda>_. False), de_runtime_dir = Some ''/run/user/1000'', de_data_local_dir = None,
     de_config_dir = None\<rparr>"

definition no_files :: config_files where
  "no_files = \<lparr>cf_read = (\<lambda>_. Inr []), cf_toml = (\<lambda>_. Inl ''empty'')\<rparr>"

definition ctl_dirs :: dirs_env where
  "ctl_dirs = user_dirs\<lparr>de_exists := (\<lambda>p. p = ''/run/user/1000/usbip-client/usbip-client.sock'')\<rparr>"


end
