(* ===== verification/Windows_Usb.thy ===== *)
theory Windows_Usb
  imports Usb_Backend
begin

text \<open>
  \<^verbatim>\<open>windows/src/windows_usb.rs\<close>: the enumeration of USB devices over SetupAPI. The device information
  set of SetupAPI is a parameter: for each device the buffers its two property calls fill, with the
  registry type of a property. Slicing a string outside its length or inside a character panics.
\<close>

section \<open>Strings of SetupAPI\<close>

definition utf8_encode :: "nat \<Rightarrow> bytes" where
  "utf8_encode c =
     (if c < 0x80 then [of_nat c]
      else if c < 0x800 then [of_nat (0xC0 + c div 64), of_nat (0x80 + c mod 64)]
      else if c < 0x10000 then
        [of_nat (0xE0 + c div 4096), of_nat (0x80 + c div 64 mod 64), of_nat (0x80 + c mod 64)]
      else
        [of_nat (0xF0 + c div 262144), of_nat (0x80 + c div 4096 mod 64), of_nat (0x80 + c div 64 mod 64),
         of_nat (0x80 + c mod 64)])"

text \<open>\<^verbatim>\<open>OsString::from_wide\<close> and \<^verbatim>\<open>to_string_lossy\<close>: unpaired surrogates become U+FFFD.\<close>

fun from_wide_lossy :: "u16 list \<Rightarrow> bytes" where
  "from_wide_lossy [] = []"
| "from_wide_lossy (w # ws) =
     (if 0xD800 \<le> w \<and> w \<le> 0xDBFF then
        (case ws of
           l # rest \<Rightarrow>
             (if 0xDC00 \<le> l \<and> l \<le> 0xDFFF then
                utf8_encode (0x10000 + (unat w - 0xD800) * 1024 + (unat l - 0xDC00)) @ from_wide_lossy rest
              else utf8_encode 0xFFFD @ from_wide_lossy ws)
         | [] \<Rightarrow> utf8_encode 0xFFFD)
      else if 0xDC00 \<le> w \<and> w \<le> 0xDFFF then utf8_encode 0xFFFD @ from_wide_lossy ws
      else utf8_encode (unat w) @ from_wide_lossy ws)"

fun u16_units :: "bytes \<Rightarrow> u16 list" where
  "u16_units (a # b # bs) = u16_from_le_bytes a b # u16_units bs"
| "u16_units _ = []"

definition wide_string :: "u16 list \<Rightarrow> string" where
  "wide_string ws = str_of_bytes (from_wide_lossy (takeWhile (\<lambda>c. c \<noteq> 0) ws))"

record setup_device =
  sd_instance :: "u16 list option"
  sd_property :: "nat \<Rightarrow> (u32 \<times> bytes) option"

definition SPDRP_DEVICEDESC :: nat where "SPDRP_DEVICEDESC = 0"
definition SPDRP_HARDWAREID :: nat where "SPDRP_HARDWAREID = 1"
definition REG_SZ :: u32 where "REG_SZ = 1"
definition REG_MULTI_SZ :: u32 where "REG_MULTI_SZ = 7"

definition get_device_instance_id :: "setup_device \<Rightarrow> string UsbIpResult" where
  "get_device_instance_id d =
     (case sd_instance d of
        None \<Rightarrow> Inl (InvalidMessage ''SetupDiGetDeviceInstanceIdW failed'')
      | Some buffer \<Rightarrow> Inr (wide_string buffer))"

definition get_device_registry_string :: "setup_device \<Rightarrow> nat \<Rightarrow> string UsbIpResult" where
  "get_device_registry_string d property =
     (case sd_property d property of
        None \<Rightarrow> Inl (InvalidMessage ''SetupDiGetDeviceRegistryPropertyW failed'')
      | Some (data_type, buffer) \<Rightarrow>
        (if data_type = REG_SZ then Inr (wide_string (u16_units buffer))
         else Inr (from_utf8_lossy (until_nul buffer))))"

section \<open>Hardware identifiers\<close>

fun find_str :: "string \<Rightarrow> string \<Rightarrow> nat option" where
  "find_str pat [] = (if pat = [] then Some 0 else None)"
| "find_str pat (c # cs) =
     (if take (length pat) (c # cs) = pat then Some 0 else map_option Suc (find_str pat cs))"

definition char_boundary :: "string \<Rightarrow> nat \<Rightarrow> bool" where
  "char_boundary s i \<longleftrightarrow> i \<le> length s \<and> (i < length s \<longrightarrow> \<not> is_cont (of_char (s ! i)))"

definition str_slice :: "string \<Rightarrow> nat \<Rightarrow> nat \<Rightarrow> string outcome" where
  "str_slice s a b =
     (if a \<le> b \<and> char_boundary s a \<and> char_boundary s b then Ret (take (b - a) (drop a s)) else Panic)"

text \<open>The value after a tag, when it is there and hexadecimal; otherwise the old one.\<close>

definition hardware_number :: "string \<Rightarrow> string \<Rightarrow> u16 \<Rightarrow> u16 outcome" where
  "hardware_number tag hw_id old =
     (case find_str tag hw_id of
        None \<Rightarrow> Ret old
      | Some i \<Rightarrow>
        obind (str_slice hw_id (i + 4) (i + 8)) (\<lambda>s.
          Ret (case parse_unsigned 65536 16 s of Some v \<Rightarrow> of_nat v | None \<Rightarrow> old)))"

definition parse_vid_pid_from_hardware_id :: "string \<Rightarrow> u16 \<Rightarrow> u16 \<Rightarrow> (u16 \<times> u16) outcome" where
  "parse_vid_pid_from_hardware_id hw_id vid pid =
     obind (hardware_number ''VID_'' hw_id vid) (\<lambda>v.
     obind (hardware_number ''PID_'' hw_id pid) (\<lambda>p. Ret (v, p)))"

record UsbDeviceInfo_win =
  wi_vendor_id :: u16
  wi_product_id :: u16
  wi_description :: string
  wi_instance_id :: string
  wi_hardware_id :: string
  wi_speed :: u32

definition UsbDeviceInfo_default :: UsbDeviceInfo_win where
  "UsbDeviceInfo_default = \<lparr>wi_vendor_id = 0, wi_product_id = 0, wi_description = [], wi_instance_id = [],
     wi_hardware_id = [], wi_speed = 0\<rparr>"

definition setup_device_info :: "setup_device \<Rightarrow> UsbDeviceInfo_win outcome" where
  "setup_device_info d =
     (let info = UsbDeviceInfo_default;
          info1 = (case get_device_instance_id d of Inr i \<Rightarrow> info\<lparr>wi_instance_id := i\<rparr> | Inl _ \<Rightarrow> info);
          info2 = (case get_device_registry_string d SPDRP_DEVICEDESC of
                     Inr s \<Rightarrow> info1\<lparr>wi_description := s\<rparr> | Inl _ \<Rightarrow> info1) in
      case get_device_registry_string d SPDRP_HARDWAREID of
        Inl _ \<Rightarrow> Ret info2
      | Inr hw_id \<Rightarrow>
        obind (parse_vid_pid_from_hardware_id hw_id (wi_vendor_id info2) (wi_product_id info2)) (\<lambda>(v, p).
          Ret (info2\<lparr>wi_hardware_id := hw_id, wi_vendor_id := v, wi_product_id := p\<rparr>)))"

fun enumerate_loop :: "setup_device list \<Rightarrow> UsbDeviceInfo_win list outcome" where
  "enumerate_loop [] = Ret []"
| "enumerate_loop (d # ds) =
     obind (setup_device_info d) (\<lambda>info.
     obind (enumerate_loop ds) (\<lambda>rest.
       Ret (if wi_vendor_id info \<noteq> 0 \<or> wi_product_id info \<noteq> 0 then info # rest else rest)))"

definition enumerate_usb_devices :: "setup_device list option \<Rightarrow> UsbDeviceInfo_win list UsbIpResult outcome" where
  "enumerate_usb_devices class_devs =
     (case class_devs of
        None \<Rightarrow> Ret (Inl (NotSupported ''SetupDiGetClassDevsW failed: no USB device info set''))
      | Some ds \<Rightarrow> obind (enumerate_loop ds) (\<lambda>l. Ret (Inr l)))"

definition to_usbip_device_entry :: "UsbDeviceInfo_win \<Rightarrow> UsbIpDeviceEntry" where
  "to_usbip_device_entry info =
     \<lparr>dev_path = copy_padded 256 255 (wi_instance_id info),
      dev_busid = copy_padded 32 31 (last (split_on (CHR 0x5C) (wi_instance_id info))),
      busnum = 0, devnum = 0, speed = wi_speed info, id_vendor = wi_vendor_id info,
      id_product = wi_product_id info, bcd_device = 0, b_device_class = 0, b_device_sub_class = 0,
      b_device_protocol = 0, b_configuration_value = 0, b_num_configurations = 0, b_num_interfaces = 0\<rparr>"

section \<open>Enumeration\<close>

lemma find_str_first:
  assumes "pat \<noteq> []" "hd pat \<notin> set pre"
  shows "find_str pat (pre @ pat @ rest) = Some (length pre)"
  using assms
proof (induction pre)
  case Nil
  then show ?case by (cases pat) simp_all
next
  case (Cons c pre)
  then have "take (length pat) ((c # pre) @ pat @ rest) \<noteq> pat" by (cases pat) auto
  then show ?case using Cons by simp
qed

lemma digits_hex_chars: "digits_value 16 acc s = Some v \<Longrightarrow> c \<in> set s \<Longrightarrow> char_digit 16 c \<noteq> None"
  by (induction s arbitrary: acc) (auto split: option.splits)

lemma parsed_chars:
  assumes "parse_unsigned b 16 s = Some v" "c \<in> set s"
  shows "c = CHR ''+'' \<or> char_digit 16 c \<noteq> None"
  using assms digits_hex_chars
  by (auto simp: parse_unsigned_def Let_def split: list.splits if_splits option.splits)

lemma is_cont_ascii: "b < 0x80 \<Longrightarrow> \<not> is_cont b"
  using word_and_le2 [of b "0xC0"] by (auto simp: is_cont_def not_le [symmetric])

lemma parsed_ascii:
  assumes "parse_unsigned b 16 s = Some v" "c \<in> set s"
  shows "c \<noteq> CHR ''P'' \<and> \<not> is_cont (of_char c)"
proof -
  have "char_digit 16 (CHR ''P'') = None" by (simp add: char_digit_def)
  moreover have "(of_char c :: nat) < 128" if "char_digit 16 c \<noteq> None"
    using that by (auto simp: char_digit_def Let_def split: if_splits)
  then have "\<not> is_cont (of_char c)" if "char_digit 16 c \<noteq> None"
    using that is_cont_ascii [of "of_char c"] by (simp add: word_less_nat_alt)
  moreover have "\<not> is_cont (of_char (CHR ''+''))" by (simp add: is_cont_def)
  ultimately show ?thesis using parsed_chars [OF assms] by (cases "c = CHR ''+''") auto
qed

definition starts_clean :: "string \<Rightarrow> bool" where
  "starts_clean s \<longleftrightarrow> s = [] \<or> \<not> is_cont (of_char (hd s))"

lemma slice_middle:
  assumes "starts_clean (s @ rest)" "starts_clean rest"
  shows "str_slice (pre @ s @ rest) (length pre) (length pre + length s) = Ret s"
proof -
  have "char_boundary (pre @ s @ rest) (length pre)"
    using assms(1) by (auto simp: char_boundary_def starts_clean_def nth_append hd_conv_nth)
  moreover have "char_boundary ((pre @ s) @ rest) (length (pre @ s))"
    using assms(2) by (auto simp: char_boundary_def starts_clean_def nth_append hd_conv_nth)
  ultimately show ?thesis by (simp add: str_slice_def)
qed

lemma hardware_number_found:
  assumes "length tag = 4" "hd tag \<notin> set pre" "length s = 4"
    and "parse_unsigned 65536 16 s = Some n" "starts_clean rest"
  shows "hardware_number tag (pre @ tag @ s @ rest) old = Ret (of_nat n)"
proof -
  have "tag \<noteq> []" using assms(1) by auto
  then have f: "find_str tag (pre @ tag @ s @ rest) = Some (length pre)" using find_str_first assms(2) by blast
  obtain c cs where s: "s = c # cs" using assms(3) by (cases s) auto
  then have "starts_clean (s @ rest)" using parsed_ascii [OF assms(4), of c] by (simp add: starts_clean_def)
  then have "str_slice ((pre @ tag) @ s @ rest) (length (pre @ tag)) (length (pre @ tag) + length s) = Ret s"
    using assms(5) by (rule slice_middle)
  then have "str_slice (pre @ tag @ s @ rest) (length pre + 4) (length pre + 8) = Ret s"
    using assms(1,3) by (simp add: add.assoc)
  then show ?thesis using f assms(4) by (simp add: hardware_number_def)
qed

text \<open>From a hardware identifier of the documented form, with four digits after each tag, the
  vendor and the product number are read exactly, whatever follows.\<close>

theorem hardware_id_parsed:
  assumes "length v = 4" "parse_unsigned 65536 16 v = Some vid" "length p = 4" "parse_unsigned 65536 16 p = Some pid"
    and "starts_clean rest"
  shows "parse_vid_pid_from_hardware_id (''USB'' @ [CHR 0x5C] @ ''VID_'' @ v @ ''&PID_'' @ p @ rest) x y
    = Ret (of_nat vid, of_nat pid)"
proof -
  let ?hw = "''USB'' @ [CHR 0x5C] @ ''VID_'' @ v @ ''&PID_'' @ p @ rest"
  have "hardware_number ''VID_'' ((''USB'' @ [CHR 0x5C]) @ ''VID_'' @ v @ ''&PID_'' @ p @ rest) x = Ret (of_nat vid)"
    by (rule hardware_number_found) (simp_all add: assms(1,2) starts_clean_def is_cont_def)
  moreover have "CHR ''P'' \<notin> set v" using parsed_ascii [OF assms(2)] by blast
  then have "hardware_number ''PID_'' ((''USB'' @ [CHR 0x5C] @ ''VID_'' @ v @ ''&'') @ ''PID_'' @ p @ rest) y = Ret (of_nat pid)"
    by (intro hardware_number_found) (simp_all add: assms(3-5))
  ultimately show ?thesis by (simp add: parse_vid_pid_from_hardware_id_def)
qed

theorem hardware_id_parsed_witness:
  "parse_vid_pid_from_hardware_id (''USB'' @ [CHR 0x5C] @ ''VID_'' @ ''046D'' @ ''&PID_'' @ ''C261'' @ ''&REV_0100'') 0 0
   = Ret (of_nat 0x046D, of_nat 0xC261)"
  by (rule hardware_id_parsed) (simp_all add: parse_unsigned_def char_digit_def starts_clean_def is_cont_def)

text \<open>An identifier that ends within the four digits makes the enumeration panic.\<close>

lemma short_hardware_id_panics:
  "parse_vid_pid_from_hardware_id (''USB'' @ [CHR 0x5C] @ ''VID_04'') 0 0 = Panic"
  by (simp add: parse_vid_pid_from_hardware_id_def hardware_number_def str_slice_def char_boundary_def)

text \<open>On Windows no device is ever found: SetupAPI documents the hardware identifiers as a multi-string
  property in UTF-16, which the code reads as bytes up to the first zero byte. That leaves one
  character, no number is found in it, and the device is skipped as one without numbers.\<close>

theorem windows_enumerates_nothing:
  assumes "\<And>d. d \<in> set ds \<Longrightarrow> \<exists>c rest. sd_property d SPDRP_HARDWAREID = Some (REG_MULTI_SZ, c # 0 # rest)
    \<and> 0 < c \<and> c < 0x80"
  shows "enumerate_usb_devices (Some ds) = Ret (Inr [])"
proof -
  have one: "find_str tag [x] = None" if "length tag = 4" for tag x using that by (cases tag) auto
  have "\<exists>info. setup_device_info d = Ret info \<and> wi_vendor_id info = 0 \<and> wi_product_id info = 0"
    if d: "d \<in> set ds" for d
  proof -
    obtain c rest where c: "sd_property d SPDRP_HARDWAREID = Some (REG_MULTI_SZ, c # 0 # rest)" "0 < c" "c < 0x80"
      using assms [OF d] by blast
    then have "utf8_lossy [c] = [c]" by (intro utf8_lossy_valid) simp
    moreover have "takeWhile (\<lambda>b. b \<noteq> 0) (c # 0 # rest) = [c]" using c(2) by auto
    ultimately obtain x where "get_device_registry_string d SPDRP_HARDWAREID = Inr [x]"
      using c(1) by (simp del: takeWhile.simps add: get_device_registry_string_def REG_MULTI_SZ_def REG_SZ_def until_nul_def
          from_utf8_lossy_def str_of_bytes_def)
    then show ?thesis
      by (simp add: setup_device_info_def parse_vid_pid_from_hardware_id_def hardware_number_def one
          UsbDeviceInfo_default_def Let_def split: sum.splits)
  qed
  then have "enumerate_loop ds = Ret []" by (induction ds) fastforce+
  then show ?thesis by (simp add: enumerate_usb_devices_def)
qed

theorem windows_enumerates_nothing_witness:
  "enumerate_usb_devices (Some [\<lparr>sd_instance = None, sd_property = (\<lambda>_. Some (REG_MULTI_SZ,
      [0x55, 0, 0x53, 0, 0x42, 0, 0x5C, 0, 0x56, 0, 0x49, 0, 0x44, 0, 0x5F, 0]))\<rparr>]) = Ret (Inr [])"
  by (rule windows_enumerates_nothing) simp

end
