(* ===== verification/Windows.thy ===== *)
theory Windows
  imports Startup Windows_Usb
begin

text \<open>
  \<^verbatim>\<open>windows/src/actions.rs\<close> and \<^verbatim>\<open>windows/src/main.rs\<close>: the controller behind the buttons of the
  Windows application, and the application itself: its client command, its service and what its
  buttons do. A server thread is its configuration, whether its shutdown signal was sent
  and whether it has ended. Drawing the window is not modelled; a click is the call its button makes.
\<close>

section \<open>The server controller\<close>

datatype AnyPlugError = AlreadyRunning | Mdns string

record server_thread =
  th_config :: ServerConfig
  th_signalled :: bool
  th_ended :: bool

record ServerController =
  sc_shutdown_tx :: "nat option"
  sc_port :: u16
  sc_running :: bool
  sc_threads :: "server_thread list"

definition ServerController_new :: ServerController where
  "ServerController_new = \<lparr>sc_shutdown_tx = None, sc_port = 0, sc_running = False, sc_threads = []\<rparr>"

definition gui_server_config :: "u16 \<Rightarrow> ServerConfig" where
  "gui_server_config p =
     \<lparr>bind_address = ''0.0.0.0'', port = p, allowed_vid_pid = [], require_confirmation = True,
      encryption_enabled = False, tcp_nodelay = True, max_bandwidth = bw_unlimited, per_client_bandwidth = None\<rparr>"

definition controller_start :: "u16 \<Rightarrow> ServerController \<Rightarrow> (AnyPlugError + unit) \<times> ServerController" where
  "controller_start p c =
     (if sc_running c then (Inl AlreadyRunning, c)
      else (Inr (), \<lparr>sc_shutdown_tx = Some (length (sc_threads c)), sc_port = p, sc_running = True,
                     sc_threads = sc_threads c @ [\<lparr>th_config = gui_server_config p, th_signalled = False, th_ended = False\<rparr>]\<rparr>))"

definition controller_stop :: "ServerController \<Rightarrow> (AnyPlugError + unit) \<times> ServerController" where
  "controller_stop c =
     (case sc_shutdown_tx c of
        None \<Rightarrow> (Inr (), c\<lparr>sc_running := False\<rparr>)
      | Some i \<Rightarrow>
        (Inr (), c\<lparr>sc_shutdown_tx := None, sc_running := False,
                   sc_threads := (sc_threads c)[i := (sc_threads c ! i)\<lparr>th_signalled := True\<rparr>]\<rparr>))"

text \<open>A server thread ends when it gets the signal, and also on its own: the server cannot be created, its
  port cannot be bound, or it runs into an error. The controller is not told.\<close>

definition thread_ends :: "nat \<Rightarrow> ServerController \<Rightarrow> ServerController" where
  "thread_ends i c =
     (if i < length (sc_threads c)
      then c\<lparr>sc_threads := (sc_threads c)[i := (sc_threads c ! i)\<lparr>th_ended := True\<rparr>]\<rparr> else c)"

datatype controller_event = Start u16 | Stop | ThreadEnds nat

fun controller_run :: "controller_event list \<Rightarrow> ServerController \<Rightarrow> ServerController" where
  "controller_run [] c = c"
| "controller_run (Start p # es) c = controller_run es (snd (controller_start p c))"
| "controller_run (Stop # es) c = controller_run es (snd (controller_stop c))"
| "controller_run (ThreadEnds i # es) c = controller_run es (thread_ends i c)"

text \<open>The ports of the servers that run and were not told to stop.\<close>

definition live_ports :: "ServerController \<Rightarrow> u16 list" where
  "live_ports c = map (port \<circ> th_config) (filter (\<lambda>t. \<not> th_signalled t \<and> \<not> th_ended t) (sc_threads c))"

text \<open>
  A poll of the future that waits for the signal. \<^verbatim>\<open>recv\<close> blocks the thread while the sender lives
  and has sent nothing (\<open>None\<close>); with the sender gone the future stays pending.
\<close>

datatype channel = Empty | Signal | SenderGone

datatype poll = Ready | Pending

definition poll_wait_for_shutdown :: "channel \<Rightarrow> poll option" where
  "poll_wait_for_shutdown ch = (case ch of Signal \<Rightarrow> Some Ready | SenderGone \<Rightarrow> Some Pending | Empty \<Rightarrow> None)"

text \<open>
  One poll of the race between the server and the signal, the branches in either order: how often
  the server's future is polled, and the outcome unless the thread blocks.
\<close>

definition poll_race :: "bool \<Rightarrow> poll \<Rightarrow> channel \<Rightarrow> nat \<times> poll option" where
  "poll_race server_first server ch =
     (if server_first then
        (if server = Ready then (1, Some Ready) else (1, poll_wait_for_shutdown ch))
      else case poll_wait_for_shutdown ch of
        None \<Rightarrow> (0, None)
      | Some Ready \<Rightarrow> (0, Some Ready)
      | Some Pending \<Rightarrow> (1, Some server))"

definition gui_discover ::
  "('d \<Rightarrow> (string \<times> u16) list UsbIpResult \<times> 'd) \<Rightarrow> (string \<times> u16 \<Rightarrow> string) \<Rightarrow> string \<Rightarrow> 'd
   \<Rightarrow> (AnyPlugError + ((string \<times> u16) \<times> string) list) \<times> 'd" where
  "gui_discover browse show_addr cid d =
     (case browse d of
        (Inl e, d') \<Rightarrow> (Inl (Mdns (UsbIpError_fmt (UsbIpError_from_kind cid e))), d')
      | (Inr addrs, d') \<Rightarrow> (Inr (map (\<lambda>a. (a, show_addr a)) addrs), d'))"

section \<open>The application\<close>

definition win_server_config :: "string \<Rightarrow> u16 \<Rightarrow> (u16 \<times> u16) list \<Rightarrow> bool \<Rightarrow> bool \<Rightarrow> ServerConfig" where
  "win_server_config bind_to p allowed confirm enc =
     \<lparr>bind_address = bind_to, port = p, allowed_vid_pid = allowed, require_confirmation = confirm,
      encryption_enabled = enc, tcp_nodelay = True, max_bandwidth = bw_unlimited,
      per_client_bandwidth = None\<rparr>"

definition service_config :: ServerConfig where
  "service_config = win_server_config ''0.0.0.0'' 3240 [] False False"

datatype ServiceControl = ScStop | ScShutdown | ScInterrogate | ScOther

datatype ServiceControlHandlerResult = NoError | NotImplemented

text \<open>The control handler of the service: its answer, and whether it sends the shutdown signal.\<close>

definition service_control :: "ServiceControl \<Rightarrow> ServiceControlHandlerResult \<times> bool" where
  "service_control c =
     (case c of
        ScStop \<Rightarrow> (NoError, True) | ScShutdown \<Rightarrow> (NoError, True)
      | ScInterrogate \<Rightarrow> (NoError, False) | ScOther \<Rightarrow> (NotImplemented, False))"

text \<open>
  The service on the controls it gets: the states it reports. It reports \<^verbatim>\<open>Stopped\<close> after the first
  control that sends the signal; the server thread is not told to stop.
\<close>

datatype ServiceState = Running | Stopped

record ServiceStatus =
  ss_current_state :: ServiceState
  ss_controls_accepted :: "ServiceControl list"
  ss_exit_code :: u32
  ss_checkpoint :: u32
  ss_wait_hint_secs :: nat
  ss_process_id :: "u32 option"

definition my_service_main :: "u32 \<Rightarrow> ServiceControl list \<Rightarrow> ServiceStatus list \<times> ServerConfig" where
  "my_service_main pid controls =
     (\<lparr>ss_current_state = Running, ss_controls_accepted = [ScStop, ScShutdown], ss_exit_code = 0,
       ss_checkpoint = 0, ss_wait_hint_secs = 5, ss_process_id = Some pid\<rparr>
      # (if list_ex (\<lambda>c. snd (service_control c)) controls
         then [\<lparr>ss_current_state = Stopped, ss_controls_accepted = [], ss_exit_code = 0,
                ss_checkpoint = 0, ss_wait_hint_secs = 0, ss_process_id = None\<rparr>]
         else []), service_config)"

definition win_run_server ::
  "'b UsbBackend \<Rightarrow> 'd mdns_crate \<Rightarrow> run_env \<Rightarrow> string \<Rightarrow> 'b UsbIpResult \<Rightarrow> ServerConfig
   \<Rightarrow> (tcp \<times> SocketAddr) list \<times> ErrorKind option" where
  "win_run_server B M E hostname opened config =
     (case server_new B M hostname config opened of
        Inl e \<Rightarrow> ([], Some e)
      | Inr s \<Rightarrow> server_run M E s)"

datatype WinCommands =
    Serve string u16 "(u16 \<times> u16) list" bool bool bool
  | Connect string "string option" bool bool
  | Gui

datatype win_action =
    RunAsService
  | RunServer ServerConfig
  | RunClient string "string option" bool bool
  | RunGui

definition win_main :: "WinCommands option \<Rightarrow> win_action" where
  "win_main cmd =
     (case (case cmd of Some c \<Rightarrow> c | None \<Rightarrow> Gui) of
        Serve bind_to p allowed no_confirm enc service \<Rightarrow>
          if service then RunAsService
          else RunServer (win_server_config bind_to p allowed (\<not> no_confirm) enc)
      | Connect server bid auto_reconnect discover \<Rightarrow> RunClient server bid auto_reconnect discover
      | Gui \<Rightarrow> RunGui)"

datatype client_end = Failed ErrorKind | Message string | KeepsRunning | Exits

definition win_client_config :: "SocketAddr option \<Rightarrow> bool \<Rightarrow> ClientConfig" where
  "win_client_config addr auto_reconnect =
     \<lparr>cc_server_addr = addr, cc_use_mdns = (addr = None), cc_auto_reconnect = auto_reconnect,
      cc_reconnect = (if auto_reconnect then with_max_retries 10 else no_retry), cc_tcp_nodelay = True\<rparr>"

text \<open>Listing and importing from a server; without a bus id the first device is taken, and an empty
  list is indexed out of bounds.\<close>

definition win_import ::
  "'c client_calls \<Rightarrow> 'c \<Rightarrow> SocketAddr \<Rightarrow> string option \<Rightarrow> string list \<Rightarrow> client_end \<Rightarrow> (string list \<times> client_end) outcome" where
  "win_import A c addr bid printed done_end =
     (case ca_list A c addr of
        Inl e \<Rightarrow> Ret (printed, Failed e)
      | Inr devices \<Rightarrow>
        (let lines = printed @ (''Devices on '' @ addr @ '':'') # map device_line devices in
         case (case bid of Some b \<Rightarrow> Some b | None \<Rightarrow> (case devices of d # _ \<Rightarrow> Some (busid_str d) | [] \<Rightarrow> None)) of
           None \<Rightarrow> Panic
         | Some target \<Rightarrow>
           (case ca_import A c addr target of
              Inl e \<Rightarrow> Ret (lines, Failed e)
            | Inr _ \<Rightarrow> Ret (lines @ [''Imported device '' @ target @ '' from '' @ addr], done_end))))"

definition run_client ::
  "'c client_calls \<Rightarrow> (string \<Rightarrow> SocketAddr option) \<Rightarrow> string \<Rightarrow> string option \<Rightarrow> bool \<Rightarrow> bool
   \<Rightarrow> (string list \<times> client_end) outcome" where
  "run_client A parse_addr server bid auto_reconnect discover =
     (if discover then
        (case ca_new A (win_client_config None auto_reconnect) of
           Inl e \<Rightarrow> Ret ([], Failed e)
         | Inr c \<Rightarrow>
           (case ca_discover A c of
              Inl e \<Rightarrow> Ret ([], Failed e)
            | Inr [] \<Rightarrow> Ret ([], Message ''No USB/IP servers discovered on the network'')
            | Inr (addr # rest) \<Rightarrow>
              win_import A c addr bid
                (''Discovered servers:'' # map (\<lambda>(i, a). ''  '' @ show_dec (i + 1) @ ''. '' @ a) (enumerate 0 (addr # rest))
                 @ [[]]) KeepsRunning))
      else case parse_addr server of
        None \<Rightarrow> Ret ([], Message (''Invalid server address: '' @ server))
      | Some addr \<Rightarrow>
        (case ca_new A (win_client_config (Some addr) auto_reconnect) of
           Inl e \<Rightarrow> Ret ([], Failed e)
         | Inr c \<Rightarrow> win_import A c addr bid [] (if auto_reconnect then KeepsRunning else Exits)))"

text \<open>What \<^verbatim>\<open>main\<close> prints before it exits with status 1.\<close>

definition fatal_line :: "UsbIpError + string \<Rightarrow> string" where
  "fatal_line e =
     (case e of
        Inl u \<Rightarrow> ''Fatal: [corr='' @ correlation_id u @ ''] [cat='' @ ErrorCategory_fmt (category u) @ ''] '' @ UsbIpError_fmt u
      | Inr m \<Rightarrow> ''Fatal: '' @ m)"

record 'd AnyPlugApp =
  ap_local_devices :: "UsbDeviceInfo_win list"
  ap_error :: "string option"
  ap_server_port :: u16
  ap_server :: ServerController
  ap_discoverer :: "'d option"
  ap_discovered :: "((string \<times> u16) \<times> string) list"

definition AnyPlugApp_new :: "'d option \<Rightarrow> 'd AnyPlugApp" where
  "AnyPlugApp_new discoverer =
     \<lparr>ap_local_devices = [], ap_error = None, ap_server_port = 3240, ap_server = ServerController_new,
      ap_discoverer = discoverer, ap_discovered = []\<rparr>"

fun AnyPlugError_fmt :: "AnyPlugError \<Rightarrow> string" where
  "AnyPlugError_fmt AlreadyRunning = ''server is already running''"
| "AnyPlugError_fmt (Mdns m) = ''mDNS: '' @ m"

definition refresh_devices :: "string \<Rightarrow> UsbDeviceInfo_win list UsbIpResult \<Rightarrow> 'd AnyPlugApp \<Rightarrow> 'd AnyPlugApp" where
  "refresh_devices cid found a =
     (case found of
        Inr devices \<Rightarrow> a\<lparr>ap_local_devices := devices, ap_error := None\<rparr>
      | Inl e \<Rightarrow> a\<lparr>ap_error := Some (''Enumeration failed: '' @ UsbIpError_fmt (UsbIpError_from_kind cid e))\<rparr>)"

definition app_start_server :: "'d AnyPlugApp \<Rightarrow> 'd AnyPlugApp" where
  "app_start_server a =
     (case controller_start (ap_server_port a) (ap_server a) of
        (Inl e, c) \<Rightarrow> a\<lparr>ap_server := c, ap_error := Some (''Start failed: '' @ AnyPlugError_fmt e)\<rparr>
      | (Inr _, c) \<Rightarrow> a\<lparr>ap_server := c\<rparr>)"

definition app_stop_server :: "'d AnyPlugApp \<Rightarrow> 'd AnyPlugApp" where
  "app_stop_server a =
     (case controller_stop (ap_server a) of
        (Inl e, c) \<Rightarrow> a\<lparr>ap_server := c, ap_error := Some (''Stop failed: '' @ AnyPlugError_fmt e)\<rparr>
      | (Inr _, c) \<Rightarrow> a\<lparr>ap_server := c\<rparr>)"

definition app_export_device :: "UsbDeviceInfo_win \<Rightarrow> 'd AnyPlugApp \<Rightarrow> 'd AnyPlugApp" where
  "app_export_device dev a =
     a\<lparr>ap_error := Some (''Per-device export for '' @ show_hex_pad 4 (unat (wi_vendor_id dev)) @ '':''
       @ show_hex_pad 4 (unat (wi_product_id dev))
       @ '' is not yet supported; start the server and use the USB/IP client to import it.'')\<rparr>"

definition run_discover ::
  "('d \<Rightarrow> (AnyPlugError + ((string \<times> u16) \<times> string) list) \<times> 'd) \<Rightarrow> 'd AnyPlugApp \<Rightarrow> 'd AnyPlugApp" where
  "run_discover discover a =
     (case ap_discoverer a of
        None \<Rightarrow> a\<lparr>ap_error := Some ''mDNS subsystem is not available on this host''\<rparr>
      | Some d \<Rightarrow>
        (case discover d of
           (Inr servers, d') \<Rightarrow> a\<lparr>ap_discoverer := Some d', ap_discovered := servers, ap_error := None\<rparr>
         | (Inl e, d') \<Rightarrow>
           a\<lparr>ap_discoverer := Some d', ap_error := Some (''mDNS discover failed: '' @ AnyPlugError_fmt e)\<rparr>))"

text \<open>The buttons; the one for the server reads Stop or Start as the server runs or not.\<close>

datatype click = ClickExport UsbDeviceInfo_win | ClickRefresh "UsbDeviceInfo_win list UsbIpResult" | ClickServer | ClickDiscover

definition app_click ::
  "string \<Rightarrow> ('d \<Rightarrow> (AnyPlugError + ((string \<times> u16) \<times> string) list) \<times> 'd) \<Rightarrow> click \<Rightarrow> 'd AnyPlugApp \<Rightarrow> 'd AnyPlugApp" where
  "app_click cid discover k a =
     (case k of
        ClickExport dev \<Rightarrow> app_export_device dev a
      | ClickRefresh found \<Rightarrow> refresh_devices cid found a
      | ClickServer \<Rightarrow> if sc_running (ap_server a) then app_stop_server a else app_start_server a
      | ClickDiscover \<Rightarrow> run_discover discover a)"

definition status_label :: "'d AnyPlugApp \<Rightarrow> string" where
  "status_label a =
     (if sc_running (ap_server a) then ''Server running on port '' @ show_dec (unat (sc_port (ap_server a)))
      else ''Server stopped'')"

section \<open>One server at a time\<close>

definition controller_inv :: "ServerController \<Rightarrow> bool" where
  "controller_inv c \<longleftrightarrow>
     (sc_running c \<longleftrightarrow> sc_shutdown_tx c \<noteq> None)
     \<and> (\<forall>j<length (sc_threads c). th_signalled (sc_threads c ! j) \<longleftrightarrow> sc_shutdown_tx c \<noteq> Some j)
     \<and> (\<forall>i. sc_shutdown_tx c = Some i \<longrightarrow>
          i < length (sc_threads c) \<and> port (th_config (sc_threads c ! i)) = sc_port c)"

lemma controller_inv_start: "controller_inv c \<Longrightarrow> controller_inv (snd (controller_start p c))"
  by (auto simp: controller_inv_def controller_start_def gui_server_config_def nth_append less_Suc_eq)

lemma controller_inv_stop: "controller_inv c \<Longrightarrow> controller_inv (snd (controller_stop c))"
  by (auto simp: controller_inv_def controller_stop_def nth_list_update split: option.splits)

lemma controller_inv_ends: "controller_inv c \<Longrightarrow> controller_inv (thread_ends i c)"
  by (auto simp: controller_inv_def thread_ends_def nth_list_update)

lemma controller_inv_run: "controller_inv c \<Longrightarrow> controller_inv (controller_run es c)"
  by (induction es c rule: controller_run.induct)
    (simp_all add: controller_inv_start controller_inv_stop controller_inv_ends)

lemma controller_inv_new: "controller_inv ServerController_new"
  by (simp add: controller_inv_def ServerController_new_def)

lemma unsignalled_threads:
  assumes "controller_inv c"
  shows "map port (map th_config (filter (\<lambda>t. \<not> th_signalled t) (sc_threads c))) =
    (if sc_running c then [sc_port c] else [])"
proof (cases "sc_shutdown_tx c")
  case None
  then have "\<forall>t\<in>set (sc_threads c). th_signalled t"
    using assms by (auto simp: controller_inv_def in_set_conv_nth)
  then show ?thesis using None assms by (simp add: controller_inv_def)
next
  case (Some i)
  let ?ts = "sc_threads c"
  have i: "i < length ?ts" "port (th_config (?ts ! i)) = sc_port c" "sc_running c"
    and sig: "\<And>j. j < length ?ts \<Longrightarrow> th_signalled (?ts ! j) \<longleftrightarrow> j \<noteq> i"
    using assms Some by (auto simp: controller_inv_def)
  have "filter (\<lambda>t. \<not> th_signalled t) (take i ?ts) = []" "filter (\<lambda>t. \<not> th_signalled t) (drop (Suc i) ?ts) = []"
    using sig i(1) by (auto simp: filter_empty_conv in_set_conv_nth)
  then have "filter (\<lambda>t. \<not> th_signalled t) ?ts = [?ts ! i]"
    using id_take_nth_drop [OF i(1)] sig [OF i(1)]
    by (metis append.left_neutral append.right_neutral filter.simps(2) filter_append)
  then show ?thesis using i by simp
qed

text \<open>The port stays after a stop, although it is documented to be 0 when no server runs.\<close>

lemma port_after_stop: "sc_port (controller_run [Start p, Stop] ServerController_new) = p"
  by (simp add: ServerController_new_def controller_start_def controller_stop_def)

text \<open>While nobody presses stop, the thread of the server hangs in the wait for the signal: the
  future of the server is polled at most once, whichever branch is tried first, so a server that
  has to wait for its first connection never gets to accept it.\<close>

theorem gui_server_starves:
  "snd (poll_race server_first Pending Empty) = None \<and> fst (poll_race server_first Pending Empty) \<le> 1"
  by (simp add: poll_race_def poll_wait_for_shutdown_def)

lemma service_control_signals: "snd (service_control c) \<longleftrightarrow> c = ScStop \<or> c = ScShutdown"
  by (cases c) (simp_all add: service_control_def)

text \<open>The service reports that it stopped exactly when one of the controls it accepts arrived.\<close>

lemma service_stops:
  "Stopped \<in> ss_current_state ` set (fst (my_service_main pid controls))
   \<longleftrightarrow> (\<exists>c\<in>set controls. c \<in> set (ss_controls_accepted (hd (fst (my_service_main pid controls)))))"
  by (auto simp: my_service_main_def service_control_signals list_ex_iff)

text \<open>The service ignores the options of the command line, the encryption among them.\<close>

lemma service_ignores_options:
  "win_main (Some (Serve bind_to p allowed no_confirm True True)) = RunAsService
   \<and> encryption_enabled (snd (my_service_main pid controls)) = False"
  by (simp add: win_main_def my_service_main_def service_config_def win_server_config_def)

text \<open>C26: Whatever calls to start and to stop reach the server controller of the Windows application, and
  whenever server threads end on their own, at most one server is left that runs and was not told to
  stop; when there is one, the controller says that it is running and gives its port. (When a server
  ends on its own, the controller goes on saying so.)\<close>

theorem at_most_one_server_thread:
  "live_ports (controller_run es ServerController_new) = []
   \<or> sc_running (controller_run es ServerController_new)
     \<and> live_ports (controller_run es ServerController_new) = [sc_port (controller_run es ServerController_new)]"
proof -
  let ?c = "controller_run es ServerController_new"
  define u where "u = filter (\<lambda>t. \<not> th_signalled t) (sc_threads ?c)"
  have "map port (map th_config u) = (if sc_running ?c then [sc_port ?c] else [])"
    unfolding u_def by (rule unsignalled_threads [OF controller_inv_run [OF controller_inv_new]])
  then have "u = [] \<or> sc_running ?c \<and> (\<exists>t. u = [t] \<and> port (th_config t) = sc_port ?c)"
    by (auto split: if_splits)
  moreover have "live_ports ?c = map (port \<circ> th_config) (filter (\<lambda>t. \<not> th_ended t) u)"
    by (simp add: live_ports_def u_def conj_commute)
  ultimately show ?thesis by auto
qed

text \<open>A server that ended on its own is still reported as running.\<close>

lemma running_without_server:
  "sc_running (controller_run [Start p, ThreadEnds 0] ServerController_new)
   \<and> live_ports (controller_run [Start p, ThreadEnds 0] ServerController_new) = []"
  by (simp add: ServerController_new_def controller_start_def thread_ends_def live_ports_def)

section \<open>Using the application\<close>

text \<open>A click is at most one call to the controller.\<close>

lemma click_is_call:
  "\<exists>es. ap_server (app_click cid discover k a) = controller_run es (ap_server a)"
proof (cases k)
  case ClickServer
  show ?thesis
  proof (cases "sc_running (ap_server a)")
    case True
    then show ?thesis using ClickServer
      by (intro exI [of _ "[Stop]"]) (auto simp: app_click_def app_stop_server_def split: prod.splits sum.splits)
  next
    case False
    then show ?thesis using ClickServer
      by (intro exI [of _ "[Start (ap_server_port a)]"])
        (auto simp: app_click_def app_start_server_def split: prod.splits sum.splits)
  qed
qed (auto simp: app_click_def app_export_device_def refresh_devices_def run_discover_def
    split: sum.splits option.splits prod.splits intro!: exI [of _ "[]"])

text \<open>Without a bus id, a server without devices makes the client panic; without automatic reconnection
  the program ends right after the import, and its forwarding task with it.\<close>

lemma run_client_panics:
  assumes "parse_addr server = Some addr" "ca_new A (win_client_config (Some addr) r) = Inr c" "ca_list A c addr = Inr []"
  shows "run_client A parse_addr server None r False = Panic"
  using assms by (simp add: run_client_def win_import_def)

lemma run_client_exits:
  assumes "run_client A parse_addr server bid False False = Ret (lines, e)"
  shows "e \<noteq> KeepsRunning"
  using assms by (auto simp: run_client_def win_import_def Let_def split: option.splits sum.splits list.splits)

end
