(* ===== verification/Spec2Isabelle.thy ===== *)
theory Spec2Isabelle
  imports Benchmark Device_Locks Client Hotplug Iokit Android_Reader Windows
begin

text \<open>
  AnyPlug shares USB devices over the network with the USB/IP protocol. A server exports the
  devices of a machine: a client connects over TCP, lists the devices or imports one, and from then
  on sends the transfers of its virtual host controller (URBs) over the connection. A REST API and
  mDNS let other programs find and control the server; a daemon keeps imported devices connected.
  This development models the Rust sources under \<^verbatim>\<open>src/\<close> and states what makes them correct.

  \<^bold>\<open>The shared library\<close> (\<^verbatim>\<open>shared/usbip-core/src\<close>).
  \<^item> \<open>Anyplug_Prelude\<close>: machine integers as words and their byte orders, a locale for codecs,
    the outcome of code that may panic, UTF-8, numbers as text, splitting and trimming.
  \<^item> \<open>Usbip_Errors\<close> (\<^verbatim>\<open>error.rs\<close>): error kinds as a datatype, their categories, contexts and
    messages. Every fallible operation returns a sum with the error on the left.
  \<^item> \<open>Usbip_Protocol\<close> (\<^verbatim>\<open>protocol.rs\<close>, \<^verbatim>\<open>lib.rs\<close>) and \<open>Usbip_Urb\<close> (\<^verbatim>\<open>urb.rs\<close>): the wire structs as
    records, with their encodings as interpretations of the codec locale.
  \<^item> \<open>Wire_Codec\<close> (\<^verbatim>\<open>wire.rs\<close>, \<^verbatim>\<open>reply.rs\<close>): one end of a TCP connection as a record (what will
    arrive, what was sent, whether sending works), operations on it as state-passing functions,
    \<open>read_message\<close> and the serializers: streams of messages are read back, truncated ones fail.
  \<^item> \<open>Descriptor\<close> (\<^verbatim>\<open>descriptor.rs\<close>): the descriptor parser and serializer. The parser may panic or
    not return, so it is a partial function into optional outcomes; serialized trees parse back,
    and it returns exactly when its loop comes to no configuration of length zero.
  \<^item> \<open>Pool\<close> (\<^verbatim>\<open>pool.rs\<close>): the buffer pool over a bounded queue, whose contract is a locale that is
    interpreted on lists.
  \<^item> \<open>Crypto\<close> (\<^verbatim>\<open>crypto.rs\<close>, \<^verbatim>\<open>crypto_stream.rs\<close>): key exchange, encryption and the encrypted
    transport over the \<^verbatim>\<open>ring\<close> crate as a parameter with named contracts.

  \<^bold>\<open>The server\<close> (\<^verbatim>\<open>server/usbip-server/src\<close>).
  \<^item> \<open>Usb_Backend\<close> (\<^verbatim>\<open>usb_backend.rs\<close>): the backend trait as a record of operations and its contract
    as the locale \<open>usb_backend\<close>, interpreted on the fake backend, proved for the libusb backend over \<^verbatim>\<open>rusb\<close>
    as a parameter (with what its descriptor tree says of a device, field by field), and interpreted in \<open>Iokit\<close> (\<^verbatim>\<open>iokit_backend.rs\<close>) on the macOS backend.
  \<^item> \<open>Usb_Manager\<close> (\<^verbatim>\<open>usb.rs\<close>), \<open>Batcher\<close> (\<^verbatim>\<open>batcher.rs\<close>), \<open>Bandwidth\<close> (\<^verbatim>\<open>bandwidth.rs\<close>): claimed
    devices and replies, batching of replies and the pace at which none is lost, the token bucket over rounded reals with the
    rate it admits over a run. \<open>Benchmark\<close> (\<^verbatim>\<open>bin/benchmark.rs\<close>): percentiles and what is measured.
  \<^item> \<open>Server\<close> (\<^verbatim>\<open>server.rs\<close>): one connection from the first header to the end of the URB loop.
    \<open>Sessions\<close>: the connections of a server as a step relation on the shared table of exports,
    with mutual exclusion of the devices named in the plain form as an invariant, other spellings of
    a bus id as a counterexample, and \<open>handle_import\<close> as a refinement of its steps.
    \<open>Device_Locks\<close>: the abstract specification they refine, one lock per bus id.
  \<^item> \<open>Api\<close> (\<^verbatim>\<open>api.rs\<close>, importer of \<^verbatim>\<open>server.rs\<close>): the REST handlers, the
    configuration file and the event stream of one WebSocket (\<open>ws_loop\<close>).
  \<^item> \<open>Discovery\<close> (\<^verbatim>\<open>discovery.rs\<close> of server and client): advertisement and browsers.
    \<open>Android_Reader\<close> (\<^verbatim>\<open>parseDevices\<close> of \<^verbatim>\<open>ServerDiscovery.kt\<close>): what is advertised is what the
    Android application reads, within the 255 bytes of a TXT entry.
  \<^item> \<open>Hotplug\<close> (\<^verbatim>\<open>hotplug.rs\<close>): thread and receiver as a step relation over a channel.

  \<^bold>\<open>The client\<close> (\<^verbatim>\<open>client/usbip-client/src\<close>).
  \<^item> \<open>Reconnect\<close> (\<^verbatim>\<open>reconnect.rs\<close>): the backoff state machine. \<open>Vhci\<close> (\<^verbatim>\<open>vhci\<close>): the virtual host
    controller as a record of operations, on Linux over a parameter for the file system, with the
    writes it makes as the observable result (locale \<open>vhci_sink\<close>).
  \<^item> \<open>Client\<close> (\<^verbatim>\<open>client.rs\<close>): listing, importing, forwarding and the reconnect loop.
  \<^item> \<open>Daemon\<close> (\<^verbatim>\<open>daemon.rs\<close>): managed connections and their tasks, the commands, both ends of the
    control socket with its lines, the auto-connect loop, and the running daemon as a step relation
    (\<open>daemon_step\<close>) of control connections, tasks and start: tasks and connections match in every
    interleaving, although two Connects can race.

  \<^bold>\<open>The programs\<close>. \<open>Startup\<close> (both \<^verbatim>\<open>main.rs\<close>, construction and accept loops of \<^verbatim>\<open>server.rs\<close>): command
  lines, configuration, metrics, what the programs print, what the allowlist governs and which socket the control program finds.
  \<open>Windows_Usb\<close> (\<^verbatim>\<open>windows/src/windows_usb.rs\<close>): the device enumeration. \<open>Windows\<close>
  (\<^verbatim>\<open>windows/src/actions.rs\<close>, \<^verbatim>\<open>windows/src/main.rs\<close>): the server controller with the
  threads it starts, which may end on their own, the client mode and the state of the window, whose
  buttons are the transitions \<open>app_click\<close>.

  \<^bold>\<open>This theory\<close> composes them: a device list, an import and a whole URB session go through the
  server's and the client's code and the wire between them, and arrive as they were sent.

  \<^bold>\<open>Bounds and termination\<close>. Loops over received bytes terminate because each round consumes some;
  they are functions with the length of the input as measure. The descriptor parser, the reconnect
  loop and the auto-connect loop need not end, so they are partial functions into options, and
  that they return is proved where it holds (\<open>descriptor_tree_returns\<close>, \<open>reconnect_gives_up\<close>). A
  connection of a reconnect loop that stays up is \<open>None\<close>, and so is the loop then.
  There is no fuel. Sizes are those of the code: 1 MiB for a message, 512 bytes for the descriptors
  of an import, 255 bytes for a TXT value.

  \<^bold>\<open>Parameters\<close>. Code outside the repository is an argument: cryptography, USB libraries, the file
  system, mDNS, JSON and TOML, floating point rounding, the clock and random draws. Where a theorem
  relies on such code, its documented behaviour is a hypothesis, and a witness instantiates it.

  \<^bold>\<open>Not modelled\<close>. The OpenAPI document and the foreign function declarations are
  descriptions for libraries; the layout of the Windows window, the web and Android interfaces are
  presentation; \<^verbatim>\<open>usbip-android\<close> is a placeholder; criterion benches
  and packaging have no logic of their own. Log output is left out everywhere. Concurrency is modelled
  for the export table, the daemon, the hotplug channel, the threads of the Windows controller and
  the shutdown race.
\<close>

section \<open>Listing devices across the wire\<close>

lemma read_entries_written:
  "list_all entry_wf es \<Longrightarrow>
   read_entries (length es) (t\<lparr>rx := concat (map UsbIpDeviceEntry_as_bytes es) @ r\<rparr>)
     = (Inr es, t\<lparr>rx := r\<rparr>)"
proof (induction es)
  case (Cons e es)
  have "read_exact UsbIpDeviceEntry_SIZE
      (t\<lparr>rx := UsbIpDeviceEntry_as_bytes e @ concat (map UsbIpDeviceEntry_as_bytes es) @ r\<rparr>)
      = (Inr (UsbIpDeviceEntry_as_bytes e), t\<lparr>rx := concat (map UsbIpDeviceEntry_as_bytes es) @ r\<rparr>)"
    using Cons.prems by (intro read_exact_available) (simp add: UsbIpDeviceEntry_SIZE_def)
  then show ?case
    using Cons entry_read_written [where r = "[]", of e]
    by (simp add: stream_bind_def stream_ret_def)
qed (simp add: stream_ret_def)

lemma list_session_reply:
  assumes "rx t = devlist_reply es" "tx_ok t = None" "list_all entry_wf es" "length es < 2 ^ 32"
  shows "list_session t = (Inr es, t\<lparr>rx := [], tx := tx t @ UsbIpHeader_as_bytes (UsbIpHeader_new OP_REQ_DEVLIST)\<rparr>)"
proof -
  define n :: u32 where "n = of_nat (length es)"
  have n: "unat n = length es" using assms(4) by (simp add: n_def unat_of_nat)
  let ?t1 = "t\<lparr>tx := tx t @ UsbIpHeader_as_bytes (UsbIpHeader_new OP_REQ_DEVLIST)\<rparr>"
  let ?es = "concat (map UsbIpDeviceEntry_as_bytes es)"
  have rx: "rx ?t1 = UsbIpHeader_as_bytes (UsbIpHeader_new OP_REP_DEVLIST) @ u32_to_be_bytes n @ ?es"
    using assms(1) by (simp add: devlist_reply_def n_def)
  have 1: "read_exact 8 ?t1 = (Inr (UsbIpHeader_as_bytes (UsbIpHeader_new OP_REP_DEVLIST)),
      ?t1\<lparr>rx := u32_to_be_bytes n @ ?es\<rparr>)"
    using rx by (intro read_exact_front) simp_all
  have 2: "read_exact 4 (?t1\<lparr>rx := u32_to_be_bytes n @ ?es\<rparr>) = (Inr (u32_to_be_bytes n), ?t1\<lparr>rx := ?es\<rparr>)"
    by (rule read_exact_available) simp
  obtain a b c d where w: "u32_to_be_bytes n = [a, b, c, d]" "u32_from_be_bytes a b c d = n"
    using u32_be_split [of n] by (simp add: u32_to_be_bytes_def)
  have 3: "read_entries (length es) (?t1\<lparr>rx := ?es\<rparr>) = (Inr es, ?t1\<lparr>rx := []\<rparr>)"
    using read_entries_written [OF assms(3), where t = ?t1 and r = "[]"] by simp
  have "write_all (UsbIpHeader_as_bytes (UsbIpHeader_new OP_REQ_DEVLIST)) t = (Inr (), ?t1)"
    using assms(2) by (simp add: write_all_def)
  then show ?thesis
    using 1 2 3 w n UsbIpHeader_read_written [where r = "[]" and h = "UsbIpHeader_new OP_REP_DEVLIST"]
    by (simp add: list_session_def stream_bind_def UsbIpHeader_new_def)
qed

lemma handle_client_devlist:
  assumes "rx (c_tcp c) = UsbIpHeader_as_bytes (UsbIpHeader_new OP_REQ_DEVLIST)" "tx_ok (c_tcp c) = None"
  shows "handle_client R B env cfg addr c = (Inr (), c\<lparr>c_tcp := (c_tcp c)\<lparr>rx := [],
    tx := tx (c_tcp c) @ devlist_reply (list_devices B (c_usb c))\<rparr>\<rparr>)"
proof -
  have "read_exact 8 (c_tcp c) = (Inr (UsbIpHeader_as_bytes (UsbIpHeader_new OP_REQ_DEVLIST)), (c_tcp c)\<lparr>rx := []\<rparr>)"
    by (rule read_exact_front) (simp_all add: assms)
  then show ?thesis
    using assms(2) UsbIpHeader_read_written [where r = "[]" and h = "UsbIpHeader_new OP_REQ_DEVLIST"]
    by (simp add: handle_client_def conn_eval handle_devlist_def write_all_def UsbIpHeader_new_def)
qed

text \<open>C9: The device list of the server reaches the client unchanged: the client's request makes the
  server write a reply, and the client that reads this reply returns exactly the entries of the
  server's backend, in order.\<close>

theorem devlist_end_to_end:
  assumes "rx (c_tcp c) = UsbIpHeader_as_bytes (UsbIpHeader_new OP_REQ_DEVLIST)"
    and "tx (c_tcp c) = []" "tx_ok (c_tcp c) = None"
    and "list_all entry_wf (list_devices B (c_usb c))" "length (list_devices B (c_usb c)) < 2 ^ 32"
    and "tx_ok t = None"
  shows "\<exists>c'. handle_client R B env cfg addr c = (Inr (), c')
    \<and> list_remote_devices (\<lambda>_. Inr (t\<lparr>rx := tx (c_tcp c')\<rparr>)) = Inr (list_devices B (c_usb c))"
  using handle_client_devlist [OF assms(1,3), where R = R and B = B and env = env and cfg = cfg and addr = addr]
    list_session_reply [OF _ _ assms(4,5), where t = "t\<lparr>rx := devlist_reply (list_devices B (c_usb c))\<rparr>"] assms(2,6)
  by (simp add: list_remote_devices_def)

theorem devlist_end_to_end_witness:
  "\<exists>c'. handle_client toy_ring FakeBackend sample_env ServerConfig_default ''peer''
      \<lparr>c_tcp = sample_tcp (UsbIpHeader_as_bytes (UsbIpHeader_new OP_REQ_DEVLIST)), c_usb = sample_mgr,
       c_exports = Map.empty\<rparr> = (Inr (), c')
    \<and> list_remote_devices (\<lambda>_. Inr ((sample_tcp [])\<lparr>rx := tx (c_tcp c')\<rparr>)) = Inr [sample_entry]"
proof -
  let ?c = "\<lparr>c_tcp = sample_tcp (UsbIpHeader_as_bytes (UsbIpHeader_new OP_REQ_DEVLIST)), c_usb = sample_mgr,
       c_exports = Map.empty\<rparr>"
  have l: "list_devices FakeBackend (c_usb ?c) = [sample_entry]"
    by (simp add: list_devices_def FakeBackend_def sample_mgr_def)
  have "entry_wf sample_entry" by (simp add: sample_entry_def make_test_entry_def entry_wf_def)
  then show ?thesis
    using devlist_end_to_end [where c = ?c and B = FakeBackend and t = "sample_tcp []" and R = toy_ring
        and env = sample_env and cfg = ServerConfig_default and addr = "''peer''"] l
    by (simp add: sample_tcp_def)
qed

section \<open>Importing across the wire\<close>

lemma handle_client_import:
  assumes "rx (c_tcp c) = import_request bid @ r"
  shows "handle_client R B env cfg addr c
    = handle_import R B env (encryption_enabled cfg) addr (c\<lparr>c_tcp := (c_tcp c)\<lparr>rx := copy_padded 32 31 bid @ r\<rparr>\<rparr>)"
proof -
  have "read_exact 8 (c_tcp c) = (Inr (UsbIpHeader_as_bytes (UsbIpHeader_new OP_REQ_IMPORT)),
      (c_tcp c)\<lparr>rx := copy_padded 32 31 bid @ r\<rparr>)"
    by (rule read_exact_front) (simp_all add: assms import_request_def)
  then show ?thesis
    using UsbIpHeader_read_written [where r = "[]" and h = "UsbIpHeader_new OP_REQ_IMPORT"]
    by (simp add: handle_client_def conn_eval UsbIpHeader_new_def)
qed

lemma handle_client_import_granted:
  assumes bid: "length bid \<le> 31" "CHR 0x00 \<notin> set bid" "utf8_valid (as_bytes bid)"
    and c: "rx (c_tcp c) = import_request bid @ r" "tx_ok (c_tcp c) = None" "\<not> encryption_enabled cfg"
    and dev: "get_device_entry B (c_usb c) bid = Some entry" "c_exports c bid = None"
      "claim_device B (c_usb c) bid = (Inr (), m)" "get_descriptor_tree B m bid = Inr tree"
  shows "handle_client R B env cfg addr c = handle_urb_loop R B env Plain bid
      (c\<lparr>c_exports := (c_exports c)(bid \<mapsto> (addr, entry)), c_usb := m,
         c_tcp := (c_tcp c)\<lparr>rx := r, tx := tx (c_tcp c) @ import_ok_reply entry @ tree\<rparr>\<rparr>)"
proof -
  let ?c = "c\<lparr>c_tcp := (c_tcp c)\<lparr>rx := copy_padded 32 31 bid @ r\<rparr>\<rparr>"
  have "handle_import R B env False addr ?c = handle_urb_loop R B env Plain bid
      (?c\<lparr>c_exports := (c_exports ?c)(bid \<mapsto> (addr, entry)), c_usb := m,
         c_tcp := (c_tcp ?c)\<lparr>rx := r, tx := tx (c_tcp ?c) @ UsbIpHeader_as_bytes (UsbIpHeader_new OP_REP_IMPORT)
           @ UsbIpDeviceEntry_as_bytes entry @ tree\<rparr>\<rparr>)"
    by (rule handle_import_granted [where busid_buf = "copy_padded 32 31 bid"])
      (use c dev requested_busid_copied [OF bid] in simp_all)
  then show ?thesis using c(3) by (simp add: handle_client_import [OF c(1)] import_ok_reply_def)
qed

text \<open>C4: An import over the wire without encryption: the bytes the client sends make the server
  export the device, reply, and, when the client closes, release it and leave the export table as
  it was; a client that reads this reply, delivered in one piece, ends with the server's device
  entry and descriptor tree.\<close>

theorem import_end_to_end:
  assumes "length bid \<le> 31" "CHR 0x00 \<notin> set bid" "utf8_valid (as_bytes bid)"
    and "rx (c_tcp c) = import_request bid" "tx (c_tcp c) = []" "tx_ok (c_tcp c) = None"
    and "\<not> encryption_enabled cfg"
    and "get_device_entry B (c_usb c) bid = Some entry" "c_exports c bid = None"
    and "claim_device B (c_usb c) bid = (Inr (), m)"
    and "get_descriptor_tree B m bid = Inr (serialize_descriptor_tree u)"
    and "release_device B m bid = (Inr (), m')"
    and "entry_wf entry" "tree_wf u" "length (serialize_descriptor_tree u) \<le> 512"
    and "tx_ok t = None" "vb_create_device V v entry (serialize_descriptor_tree u) = (Inr dev, v')"
  shows "\<exists>c'. handle_client R B env cfg addr c = (Inr (), c') \<and> c_exports c' = c_exports c
    \<and> do_import (\<lambda>_. 512) ovf V (Inr (t\<lparr>rx := tx (c_tcp c')\<rparr>)) bid v
        = Some (Ret (Inr (entry, serialize_descriptor_tree u), v'))"
proof -
  let ?tree = "serialize_descriptor_tree u"
  let ?c = "c\<lparr>c_exports := (c_exports c)(bid \<mapsto> (addr, entry)), c_usb := m,
    c_tcp := (c_tcp c)\<lparr>rx := [], tx := tx (c_tcp c) @ import_ok_reply entry @ ?tree\<rparr>\<rparr>"
  have "handle_client R B env cfg addr c = handle_urb_loop R B env Plain bid ?c"
    by (rule handle_client_import_granted) (use assms in simp_all)
  moreover have "handle_urb_loop R B env Plain bid ?c = (Inr (), ?c\<lparr>
    c_tcp := (c_tcp ?c)\<lparr>rx := [], tx := tx (c_tcp ?c) @ concat (accepted_frames [] UrbBatcher_new)\<rparr>,
    c_usb := m', c_exports := (c_exports ?c)(bid := None)\<rparr>)"
    by (rule handle_urb_loop_plain [where xs = "[]"]) (use assms in simp_all)
  moreover have "do_import (\<lambda>_. 512) ovf V (Inr (t\<lparr>rx := import_ok_reply entry @ ?tree\<rparr>)) bid v
      = Some (Ret (Inr (entry, ?tree), v'))"
  proof -
    let ?t = "t\<lparr>rx := import_ok_reply entry @ ?tree\<rparr>"
    have "parse_descriptor_tree ovf ?tree = Some (Ret (Some u))" by (rule parse_serialized [OF assms(14)])
    then have "read_descriptors (\<lambda>_. 512) ovf 0 [] (?t\<lparr>rx := ?tree, tx := tx ?t @ import_request bid\<rparr>)
        = Some (Ret (?tree, ?t\<lparr>rx := [], tx := tx ?t @ import_request bid\<rparr>))"
      using read_descriptors_once [where n = "length ?tree" and info = u and chunk = "\<lambda>_. 512" and ovf = ovf
          and t = "?t\<lparr>rx := ?tree, tx := tx ?t @ import_request bid\<rparr>"] assms(15)
      by (simp add: tree_estimate_def serialize_descriptor_tree_def)
    from do_import_descriptors [where t = ?t and V = V and v = v, OF _ _ assms(13) this] assms(16,17)
    show ?thesis by simp
  qed
  moreover have "(c_exports c)(bid := None) = c_exports c" using assms(9) by auto
  ultimately show ?thesis using assms(5) by simp
qed

definition sample_conn :: "bytes \<Rightarrow> (unit, unit) LibusbBackend conn" where
  "sample_conn bs = \<lparr>c_tcp = sample_tcp bs, c_usb = with_backend sample_libusb, c_exports = Map.empty\<rparr>"

lemma sample_busid: "format_busid 1 2 = ''1-2''"
  by (simp add: format_busid_def show_radix.simps digit_char_def char_of_def bit_0)

lemma sample_device_entry:
  "\<exists>e. get_device_entry (LibusbBackend_ops sample_rusb) (c_usb (sample_conn bs)) ''1-2'' = Some e \<and> entry_wf e"
proof -
  have p: "parse_busid ''1-2'' = Inr (1, 2)" using parse_busid_format_eq [of 1 2] by (simp add: sample_busid)
  show ?thesis
    by (simp add: get_device_entry_def find_entry_def p list_devices_def LibusbBackend_ops_def
        libusb_list_devices_def libusb_entry_def sample_rusb_def sample_conn_def with_backend_def
        entry_wf_def List.map_filter_def)
qed

lemma sample_claim:
  "claim_device (LibusbBackend_ops sample_rusb) (c_usb (sample_conn bs)) ''1-2''
     = (Inr (), sample_claimed)"
proof -
  have p: "parse_busid ''1-2'' = Inr (1, 2)" using parse_busid_format_eq [of 1 2] by (simp add: sample_busid)
  have f: "find_device sample_rusb w 1 2 = Inr ()" for w by (rule sample_rusb_facts)
  show ?thesis
    by (simp add: claim_device_def LibusbBackend_ops_def libusb_claim_device_def p f)
      (simp add: sample_rusb_def sample_conn_def with_backend_def sample_libusb_def usb_res_def iface_num_def
        sample_claimed_def)
qed

lemma sample_release: "\<exists>m'. release_device (LibusbBackend_ops sample_rusb) sample_claimed ''1-2'' = (Inr (), m')"
  by (simp add: release_device_def LibusbBackend_ops_def libusb_release_device_def sample_rusb_def usb_res_def
      sample_claimed_def)

theorem import_end_to_end_witness:
  "\<exists>c' e tree v'. handle_client toy_ring (LibusbBackend_ops sample_rusb) sample_env ServerConfig_default ''peer''
      (sample_conn (import_request ''1-2'')) = (Inr (), c') \<and> c_exports c' = Map.empty
    \<and> do_import (\<lambda>_. 512) True (linux_ops recording_os sample_linux) (Inr ((sample_tcp [])\<lparr>rx := tx (c_tcp c')\<rparr>))
        ''1-2'' sample_fs = Some (Ret (Inr (e, tree), v'))"
proof -
  let ?c = "sample_conn (import_request ''1-2'')" and ?u = "core_tree sample_desc [sample_cf]"
  obtain e where e: "get_device_entry (LibusbBackend_ops sample_rusb) (c_usb ?c) ''1-2'' = Some e" "entry_wf e"
    using sample_device_entry by blast
  obtain dev v' where v: "vb_create_device (linux_ops recording_os sample_linux) sample_fs e
      (serialize_descriptor_tree ?u) = (Inr dev, v')" using sample_vhci by blast
  have tree: "get_descriptor_tree (LibusbBackend_ops sample_rusb) sample_claimed ''1-2'' = Inr (serialize_descriptor_tree ?u)"
    using sample_libusb_tree by (simp add: get_descriptor_tree_def LibusbBackend_ops_def sample_busid)
  have len: "length (serialize_descriptor_tree ?u) \<le> 512"
    by (simp add: serialize_descriptor_tree_def core_tree_def core_config_def core_interface_def
        serialize_config_def serialize_interface_def sample_cf_def sample_rusb_def HidDescriptor_parse_def)
  obtain m' where rel: "release_device (LibusbBackend_ops sample_rusb) sample_claimed ''1-2'' = (Inr (), m')"
    using sample_release by blast
  have rx: "rx (c_tcp ?c) = import_request ''1-2''" "tx (c_tcp ?c) = []" "tx_ok (c_tcp ?c) = None"
    "c_exports ?c ''1-2'' = None" "c_exports ?c = Map.empty"
    by (simp_all add: sample_conn_def sample_tcp_def)
  have id: "length ''1-2'' \<le> 31" "CHR 0x00 \<notin> set ''1-2''" "utf8_valid (as_bytes ''1-2'')"
    by (simp_all add: as_bytes_def)
  have plain: "\<not> encryption_enabled ServerConfig_default" by (simp add: ServerConfig_default_def)
  have tx: "tx_ok (sample_tcp []) = None" by (simp add: sample_tcp_def)
  show ?thesis
    using import_end_to_end [OF id rx(1-3) plain e(1) rx(4) sample_claim tree rel e(2) sample_core_wf len tx v,
        where R = toy_ring and env = sample_env and addr = "''peer''" and ovf = True] rx(5)
    by auto
qed

section \<open>URBs across the wire\<close>

text \<open>The reply to a submission as the client sees it, and what it asks of the client's controller.\<close>

definition reply_server_frame :: "urb_event \<Rightarrow> server_frame" where
  "reply_server_frame ev = (case ev of (now, cmd, r) \<Rightarrow>
     FrRet (reply_of cmd (ur_status r) (ur_actual_length r)) (ur_data r))"

definition completion_of :: "urb_event \<Rightarrow> vhci_event" where
  "completion_of ev = (case ev of (now, cmd, r) \<Rightarrow>
     Completed (cmd_seqnum cmd) (cmd_devid cmd) (ur_status r) (ur_actual_length r) (ur_data r))"

lemma reply_server_frame_simps:
  "fr_bytes (reply_server_frame ev) = (case ev of (now, cmd, r) \<Rightarrow> reply_frame cmd r)"
  "fr_event (reply_server_frame ev) = completion_of ev"
  by (simp_all add: reply_server_frame_def completion_of_def reply_frame_def serialize_reply_eq reply_of_def
      split: prod.splits)

context usb_backend
begin

lemma events_fr_ok:
  assumes "binv (um_backend m)" "list_all sub_ok xs" "list_all (direction_consistent \<circ> fst) xs"
  shows "list_all fr_ok (map reply_server_frame (urb_events B clk bid i m xs))"
  using assms
proof (induction xs arbitrary: i m)
  case (Cons x xs)
  obtain cmd pad data where x: "x = (cmd, pad, data)" by (cases x) auto
  obtain r m1 where r: "submit_urb B m bid cmd data = (r, m1)" by force
  have d: "direction_consistent cmd" "cmd_wf cmd" using Cons.prems x by (simp_all add: sub_ok_def)
  have "fr_ok (reply_server_frame (clk i, cmd, r))"
    using reply_data_ok [OF submit_data [OF Cons.prems(1) r d(1)]] d(2) by (simp add: reply_server_frame_def)
  moreover have "list_all fr_ok (map reply_server_frame (urb_events B clk bid (Suc i) m1 xs))"
    by (rule Cons.IH) (use Cons.prems submit_inv [OF Cons.prems(1) r] in auto)
  ultimately show ?case using x r by simp
qed simp

end

text \<open>C1: A URB session from end to end over the plain transport, with a libusb device behind the
  server and the Linux controller behind the client: well-formed submissions with consecutive
  sequence numbers, whose replies have at most 8 KiB and come, within each batch of eight, less than
  one batch timeout after the first of the batch, are executed by the server, answered in batches and
  completed on the client one for one and in order, each with
  its own sequence number and with the status, length and data its transfer had on the device.\<close>

theorem urb_end_to_end:
  assumes "rusb_contract X" "B = LibusbBackend_ops X"
    and "list_all sub_ok xs" "list_all (direction_consistent \<circ> fst) xs"
    and "rx (c_tcp c) = concat (map sub_frame xs)" "tx (c_tcp c) = []" "tx_ok (c_tcp c) = None"
    and "evs = urb_events B (env_clock env) bid 0 (c_usb c) xs"
    and "consecutive s evs" "paced 0 0 evs"
    and "release_device B (urb_after B bid (c_usb c) xs) bid = (Inr (), m')"
    and "logging_os E ok writes" "ok v"
  shows "\<exists>c' v'. handle_urb_loop R B env Plain bid c = (Inr (), c')
    \<and> urb_forwarding_loop (linux_ops E L) (\<lambda>_. False) 0 (t\<lparr>rx := tx (c_tcp c')\<rparr>) v = (Inr (), v')
    \<and> writes v' = writes v @ concat (map (linux_record L \<circ> completion_of) evs)"
proof -
  let ?fs = "map reply_server_frame evs"
  have frames: "concat (map (\<lambda>(now, cmd, r). reply_frame cmd r) evs) = concat (map fr_bytes ?fs)"
    by (simp add: comp_def reply_server_frame_simps)
  have server: "handle_urb_loop R B env Plain bid c = (Inr (), c\<lparr>
    c_tcp := (c_tcp c)\<lparr>rx := [], tx := tx (c_tcp c) @ concat (map fr_bytes ?fs)\<rparr>,
    c_usb := m', c_exports := (c_exports c)(bid := None)\<rparr>)"
    using handle_urb_loop_plain [OF assms(3,7,5,8,11)] paced_run [OF paced_state_new assms(9,10)] frames by simp
  have ok: "list_all fr_ok ?fs"
    using usb_backend.events_fr_ok [OF libusb_backend [OF assms(1)] _ assms(3,4)] assms(2,8) by blast
  obtain v' where "urb_forwarding_loop (linux_ops E L) (\<lambda>_. False) 0 (t\<lparr>rx := concat (map fr_bytes ?fs)\<rparr>) v = (Inr (), v')"
    "writes v' = writes v @ concat (map (linux_record L \<circ> fr_event) ?fs)"
    using vhci_sink.forwarding_whole [OF logging_os.linux_sink [OF assms(12), of L] ok assms(13),
        where stop = "\<lambda>_. False" and t = "t\<lparr>rx := concat (map fr_bytes ?fs)\<rparr>"] by auto
  then show ?thesis using server assms(6) by (auto simp: comp_def reply_server_frame_simps)
qed

definition ten_submits :: "(UsbIpCmdSubmit \<times> bytes \<times> bytes) list" where
  "ten_submits = map (\<lambda>k. (sample_cmd\<lparr>cmd_seqnum := k\<rparr>, replicate 4 0, [])) [1, 2, 3, 4, 5, 6, 7, 8, 9, 10]"

definition slow_env :: "u8 server_env" where
  "slow_env = sample_env\<lparr>env_clock := (\<lambda>i. i * 25000)\<rparr>"

theorem urb_end_to_end_witness:
  "\<exists>c c' v'. rx (c_tcp c) = concat (map sub_frame ten_submits)
    \<and> handle_urb_loop toy_ring (LibusbBackend_ops sample_rusb) slow_env Plain ''1-2'' c = (Inr (), c')
    \<and> urb_forwarding_loop (linux_ops recording_os sample_linux) (\<lambda>_. False) 0
        ((sample_tcp [])\<lparr>rx := tx (c_tcp c')\<rparr>) sample_fs = (Inr (), v')
    \<and> map snd (rf_writes v')
        = map (\<lambda>k. urb_complete_bytes k 0 4 (replicate 4 7)) [1, 2, 3, 4, 5, 6, 7, 8, 9, 10]"
proof -
  let ?xs = ten_submits
  let ?r = "\<lparr>ur_status = 0, ur_actual_length = 4, ur_data = replicate 4 7\<rparr>"
  let ?B = "LibusbBackend_ops sample_rusb"
  let ?c = "\<lparr>c_tcp = sample_tcp (concat (map sub_frame ?xs)), c_usb = sample_claimed,
    c_exports = [''1-2'' \<mapsto> (''peer'', sample_entry)]\<rparr>"
  let ?evs = "map (\<lambda>i. (i * 25000, sample_cmd\<lparr>cmd_seqnum := of_nat (Suc i)\<rparr>, ?r)) [0, 1, 2, 3, 4, 5, 6, 7, 8, 9] :: urb_event list"
  have evs: "?evs = urb_events ?B (env_clock slow_env) ''1-2'' 0 (c_usb ?c) ?xs"
    by (simp add: sample_submit slow_env_def ten_submits_def)
  have ok: "list_all sub_ok ?xs" "list_all (direction_consistent \<circ> fst) ?xs"
    by (simp_all add: sub_ok_def sample_cmd_def cmd_wf_def cmd_data_ok_def cmd_is_in_def URB_DIR_IN_def
        direction_consistent_def ten_submits_def)
  have "length (reply_frame (sample_cmd\<lparr>cmd_seqnum := k\<rparr>) ?r) = 56" for k
    by (simp add: reply_frame_def sample_cmd_def cmd_wf_def)
  then have paced: "consecutive 1 ?evs" "paced 0 0 ?evs"
    by (simp_all add: DEFAULT_BATCH_TIMEOUT_def DEFAULT_BATCH_SIZE_def)
  obtain m' where rel: "release_device ?B (urb_after ?B ''1-2'' (c_usb ?c) ?xs) ''1-2'' = (Inr (), m')"
    using sample_release by (auto simp: sample_submit ten_submits_def)
  have c: "rx (c_tcp ?c) = concat (map sub_frame ?xs)" "tx (c_tcp ?c) = []" "tx_ok (c_tcp ?c) = None"
    by (simp_all add: sample_tcp_def)
  obtain c' v' where "handle_urb_loop toy_ring ?B slow_env Plain ''1-2'' ?c = (Inr (), c')"
    "urb_forwarding_loop (linux_ops recording_os sample_linux) (\<lambda>_. False) 0
        ((sample_tcp [])\<lparr>rx := tx (c_tcp c')\<rparr>) sample_fs = (Inr (), v')"
    "rf_writes v' = rf_writes sample_fs @ concat (map (linux_record sample_linux \<circ> completion_of) ?evs)"
    using urb_end_to_end [OF sample_rusb_contract refl ok c evs paced rel recorded.logging_os_axioms TrueI,
        where R = toy_ring and v = sample_fs and L = sample_linux and t = "sample_tcp []"] by blast
  then show ?thesis using c(1)
    by (intro exI [of _ ?c] exI [of _ c'] exI [of _ v']) (simp add: completion_of_def sample_fs_def)
qed

section \<open>The descriptor tree in the URB phase\<close>

lemma read_unlink_like:
  assumes "command h = USBIP_RET_UNLINK"
  shows "read_message (t\<lparr>rx := UsbIpHeader_as_bytes h @ UsbIpRetUnlink_as_bytes u @ r\<rparr>)
      = (Inr (UsbIpHeader_as_bytes h @ UsbIpRetUnlink_as_bytes u), t\<lparr>rx := r\<rparr>)"
    and "forward_frame V (UsbIpHeader_as_bytes h @ UsbIpRetUnlink_as_bytes u) v =
      (case vb_cancel_urb V v (ul_seqnum u) (ul_devid u) of
         (Inl e, v') \<Rightarrow> (Inl e, v') | (Inr _, v') \<Rightarrow> (Inr True, v'))"
  using assms UsbIpHeader_read_written [where r = "[]" and h = h]
  by (simp_all add: read_message_def stream_bind_def stream_ret_def read_exact_def wire_size_defs forward_frame_def)

lemma device_descriptor_as_unlink:
  assumes "dd_length d = 18" "dd_descriptor_type d = 1" "dd_bcd_usb d = 0x0200"
  shows "\<exists>h u. DeviceDescriptor_to_bytes d @ [a, b] = UsbIpHeader_as_bytes h @ UsbIpRetUnlink_as_bytes u
    \<and> command h = USBIP_RET_UNLINK
    \<and> u32_to_be_bytes (ul_seqnum u) = u16_to_le_bytes (dd_id_vendor d) @ u16_to_le_bytes (dd_id_product d)"
proof -
  let ?h = "\<lparr>version = 0x1201, command = 2, hdr_status = u32_from_be_bytes (dd_device_class d)
    (dd_device_sub_class d) (dd_device_protocol d) (dd_max_packet_size0 d)\<rparr>"
  let ?u = "\<lparr>ul_seqnum = u32_from_be_bytes (ucast (dd_id_vendor d)) (ucast (drop_bit 8 (dd_id_vendor d)))
      (ucast (dd_id_product d)) (ucast (drop_bit 8 (dd_id_product d))),
    ul_devid = u32_from_be_bytes (ucast (dd_bcd_device d)) (ucast (drop_bit 8 (dd_bcd_device d))) (dd_manufacturer d) (dd_product d),
    ul_status = u32_from_be_bytes (dd_serial_number d) (dd_num_configurations d) a b\<rparr>"
  show ?thesis
    by (intro exI [of _ ?h] exI [of _ ?u])
      (simp add: assms u32_to_be_bytes_def DeviceDescriptor_to_bytes_def UsbIpHeader_as_bytes_def UsbIpRetUnlink_as_bytes_def
        USBIP_RET_UNLINK_def u16_to_be_bytes_def u16_to_le_bytes_def)
qed

text \<open>C32: The server follows the device entry of a granted import with the descriptor tree, but the
  client's forwarding task reads frames right after the entry. For a USB 2.0 device the first
  twenty bytes of the tree have the shape of an unlink notice: the client cancels a URB that was
  never submitted, numbered by the device's vendor and product id, and goes on reading in the
  middle of the descriptors.\<close>

theorem descriptor_tree_read_as_unlink:
  assumes "logging_os E ok writes" "ok v" "entry_wf entry" "tx_ok t = None"
    and "rx t = import_ok_reply entry @ DeviceDescriptor_to_bytes d @ a # b # rest"
    and "dd_length d = 18" "dd_descriptor_type d = 1" "dd_bcd_usb d = 0x0200"
  shows "\<exists>v' sn dv. urb_forwarding_task (linux_ops E L) (\<lambda>_. False) (Inr t) bid v
      = urb_forwarding_loop (linux_ops E L) (\<lambda>_. False) 1 (t\<lparr>rx := rest, tx := tx t @ import_request bid\<rparr>) v'
    \<and> writes v' = writes v @ linux_record L (Cancelled sn dv)
    \<and> u32_to_be_bytes sn = u16_to_le_bytes (dd_id_vendor d) @ u16_to_le_bytes (dd_id_product d)"
proof -
  let ?V = "linux_ops E L" and ?t = "t\<lparr>tx := tx t @ import_request bid\<rparr>"
  obtain h u where h: "DeviceDescriptor_to_bytes d @ [a, b] = UsbIpHeader_as_bytes h @ UsbIpRetUnlink_as_bytes u"
      "command h = USBIP_RET_UNLINK"
      "u32_to_be_bytes (ul_seqnum u) = u16_to_le_bytes (dd_id_vendor d) @ u16_to_le_bytes (dd_id_product d)"
    using device_descriptor_as_unlink [OF assms(6-8)] by blast
  have split: "DeviceDescriptor_to_bytes d @ a # b # rest
      = UsbIpHeader_as_bytes h @ UsbIpRetUnlink_as_bytes u @ rest"
    using arg_cong [OF h(1), of "\<lambda>x. x @ rest"] by simp
  obtain v' where v': "vb_cancel_urb ?V v (ul_seqnum u) (ul_devid u) = (Inr (), v')"
      "writes v' = writes v @ linux_record L (Cancelled (ul_seqnum u) (ul_devid u))"
    using vhci_sink.deliver_log [OF logging_os.linux_sink [OF assms(1)] assms(2),
        where e = "Cancelled (ul_seqnum u) (ul_devid u)"] by auto
  have "urb_forwarding_loop ?V (\<lambda>_. False) 0
        (?t\<lparr>rx := UsbIpHeader_as_bytes h @ UsbIpRetUnlink_as_bytes u @ rest\<rparr>) v
      = urb_forwarding_loop ?V (\<lambda>_. False) 1 (?t\<lparr>rx := rest\<rparr>) v'"
    using read_unlink_like(1) [OF h(2), where t = ?t and u = u and r = rest]
      read_unlink_like(2) [OF h(2), where V = ?V and v = v and u = u] v'(1)
    by (subst urb_forwarding_loop.simps) simp
  moreover have "tcp_connect_and_import (Inr t) bid
      = Inr (?t\<lparr>rx := UsbIpHeader_as_bytes h @ UsbIpRetUnlink_as_bytes u @ rest\<rparr>)"
    using handshake_entry_granted(2) [OF assms(5,4,3), where bid = bid] split by simp
  ultimately have "urb_forwarding_task ?V (\<lambda>_. False) (Inr t) bid v
      = urb_forwarding_loop ?V (\<lambda>_. False) 1 (t\<lparr>rx := rest, tx := tx t @ import_request bid\<rparr>) v'"
    by (cases t) (simp add: urb_forwarding_task_def)
  then show ?thesis using v'(2) h(3) by blast
qed

theorem descriptor_tree_read_as_unlink_witness:
  "\<exists>v' sn dv. urb_forwarding_task (linux_ops recording_os sample_linux) (\<lambda>_. False)
        (Inr (sample_tcp (import_ok_reply sample_remote @ serialize_descriptor_tree sample_tree))) ''1-1'' sample_fs
      = urb_forwarding_loop (linux_ops recording_os sample_linux) (\<lambda>_. False) 1
          ((sample_tcp [])\<lparr>rx := drop 20 (serialize_descriptor_tree sample_tree), tx := import_request ''1-1''\<rparr>) v'
    \<and> rf_writes v' = linux_record sample_linux (Cancelled sn dv) \<and> u32_to_be_bytes sn = [0x6d, 0x04, 0x77, 0xc0]"
proof -
  let ?d = "ud_device sample_tree" and ?t = "sample_tcp (import_ok_reply sample_remote @ serialize_descriptor_tree sample_tree)"
  let ?rest = "drop 20 (serialize_descriptor_tree sample_tree)"
  have tree: "serialize_descriptor_tree sample_tree = DeviceDescriptor_to_bytes ?d @ 9 # 2 # ?rest"
    by (simp add: serialize_descriptor_tree_def sample_tree_def serialize_config_def ConfigDescriptor_to_bytes_def)
  have rx: "rx ?t = import_ok_reply sample_remote @ DeviceDescriptor_to_bytes ?d @ 9 # 2 # ?rest"
    by (subst tree [symmetric]) (simp add: sample_tcp_def)
  have d: "dd_length ?d = 18" "dd_descriptor_type ?d = 1" "dd_bcd_usb ?d = 0x0200" "tx_ok ?t = None"
    by (simp_all add: sample_tree_def sample_tcp_def)
  have vp: "u16_to_le_bytes (dd_id_vendor ?d) @ u16_to_le_bytes (dd_id_product ?d) = [0x6d, 0x04, 0x77, 0xc0]"
    by (simp add: sample_tree_def u16_to_le_bytes_def)
  show ?thesis
    using descriptor_tree_read_as_unlink [OF recorded.logging_os_axioms TrueI sample_remote_wf d(4) rx d(1-3),
        where v = sample_fs and L = sample_linux and bid = "''1-1''"]
    unfolding vp by (simp add: sample_tcp_def sample_fs_def)
qed

end
